(* ===== verification/Prelude.thy ===== *)
theory Prelude
  imports Complex_Main "HOL-Library.Multiset" "HOL-Library.Sublist"
begin

text \<open>
  Shared vocabulary of the development.  Both applications keep their tables as pandas
  DataFrames in \<open>st.session_state\<close>; a DataFrame built by \<open>pd.concat(..., ignore_index=True)\<close>
  has the positions \<open>0 .. n-1\<close> as its index, so a table is a list of row records and a
  row index is a list position.  The pandas idioms the sources use are defined here once:
  \<^item> \<open>df[df[col] == v].iloc[0]\<close> and \<open>.index[0]\<close>: \<open>first_index\<close>, the first position whose
    row satisfies the mask, \<open>None\<close> when the mask selects nothing (pandas raises
    \<open>IndexError\<close> there);
  \<^item> \<open>df.loc[mask, col] -= q\<close>: \<open>update_where\<close>, an update of every row the mask selects;
  \<^item> \<open>df[col].sum()\<close> over the rows a mask selects: \<open>sum_where\<close>.
  Calendar dates are day ordinals (\<open>date.toordinal\<close>), so \<open>today + timedelta(days=30)\<close> is
  \<open>today + 30\<close>.  Prices are read by \<open>st.number_input\<close> as Python floats; they are modelled as
  exact rationals (\<open>rat\<close>), so the rounding of binary floating point is not modelled.
\<close>

type_synonym date = int
type_synonym money = rat

named_theorems table_simps "rewrite rules for the pandas table idioms"

subsection \<open>First matching position\<close>

fun first_index :: "('a \<Rightarrow> bool) \<Rightarrow> 'a list \<Rightarrow> nat option" where
  "first_index P [] = None"
| "first_index P (x # xs) =
     (if P x then Some 0 else map_option Suc (first_index P xs))"

subsection \<open>Masked column update\<close>

definition update_where :: "('a \<Rightarrow> bool) \<Rightarrow> ('a \<Rightarrow> 'a) \<Rightarrow> 'a list \<Rightarrow> 'a list" where
  "update_where P f xs = map (\<lambda>x. if P x then f x else x) xs"

subsection \<open>Masked column sum\<close>

definition sum_where :: "('a \<Rightarrow> bool) \<Rightarrow> ('a \<Rightarrow> 'b::comm_monoid_add) \<Rightarrow> 'a list \<Rightarrow> 'b" where
  "sum_where P g xs = sum_list (map g (filter P xs))"

subsection \<open>Mutual exclusion of the sessions of a lock\<close>

definition at_most_one :: "('a \<Rightarrow> bool) \<Rightarrow> 'a list \<Rightarrow> bool" where
  "at_most_one P xs \<longleftrightarrow> (\<forall>i < length xs. \<forall>j < length xs. P (xs ! i) \<longrightarrow> P (xs ! j) \<longrightarrow> i = j)"

subsection \<open>Lemmas on \<open>first_index\<close>\<close>

lemma first_index_None_iff [table_simps]:
  "first_index P xs = None \<longleftrightarrow> (\<forall>x \<in> set xs. \<not> P x)"
  by (induction xs) auto

lemma first_index_Some_lt:
  "first_index P xs = Some i \<Longrightarrow> i < length xs"
  by (induction xs arbitrary: i) (auto split: if_splits)

lemma first_index_Some_sat:
  "first_index P xs = Some i \<Longrightarrow> P (xs ! i)"
  by (induction xs arbitrary: i) (auto split: if_splits)

lemma first_index_Some_first:
  "first_index P xs = Some i \<Longrightarrow> j < i \<Longrightarrow> \<not> P (xs ! j)"
proof (induction xs arbitrary: i j)
  case Nil
  then show ?case by simp
next
  case (Cons x xs)
  then show ?case
    by (cases j) (auto split: if_splits)
qed

lemma first_index_Some_iff:
  "first_index P xs = Some i \<longleftrightarrow> i < length xs \<and> P (xs ! i) \<and> (\<forall>j < i. \<not> P (xs ! j))"
proof
  assume "first_index P xs = Some i"
  then show "i < length xs \<and> P (xs ! i) \<and> (\<forall>j < i. \<not> P (xs ! j))"
    by (blast dest: first_index_Some_lt first_index_Some_sat first_index_Some_first)
next
  assume "i < length xs \<and> P (xs ! i) \<and> (\<forall>j < i. \<not> P (xs ! j))"
  then show "first_index P xs = Some i"
  proof (induction xs arbitrary: i)
    case Nil
    then show ?case by simp
  next
    case (Cons x xs)
    show ?case
    proof (cases i)
      case 0
      with Cons.prems show ?thesis by simp
    next
      case (Suc k)
      from Cons.prems Suc have "\<not> P x" by auto
      have "\<forall>j < k. \<not> P (xs ! j)"
      proof (intro allI impI)
        fix j
        assume "j < k"
        with Cons.prems Suc have "\<not> P ((x # xs) ! Suc j)" by blast
        then show "\<not> P (xs ! j)" by simp
      qed
      with Cons.prems Suc have "first_index P xs = Some k"
        by (intro Cons.IH) simp
      with \<open>\<not> P x\<close> Suc show ?thesis by simp
    qed
  qed
qed

lemma first_index_hd_filter:
  "first_index P xs = Some i \<Longrightarrow> filter P xs \<noteq> [] \<and> hd (filter P xs) = xs ! i"
  by (induction xs arbitrary: i) (auto split: if_splits)

lemma first_index_filter_Cons:
  "filter P xs = r # rs \<Longrightarrow> \<exists>i. first_index P xs = Some i \<and> xs ! i = r"
  by (induction xs arbitrary: rs) (auto split: if_splits)

lemma first_index_append_Some:
  "first_index P xs = Some i \<Longrightarrow> first_index P (xs @ ys) = Some i"
  by (induction xs arbitrary: i) (auto split: if_splits)

lemma first_index_append_None:
  "first_index P xs = None \<Longrightarrow> first_index P (xs @ ys) = map_option ((+) (length xs)) (first_index P ys)"
proof (induction xs)
  case Nil
  then show ?case by (cases "first_index P ys") simp_all
next
  case (Cons x xs)
  then show ?case by (simp add: option.map_comp o_def split: if_splits)
qed

lemma first_index_distinct_map:
  assumes "distinct (map f xs)" and "i < length xs"
  shows "first_index (\<lambda>x. f x = f (xs ! i)) xs = Some i"
  using assms by (auto simp: first_index_Some_iff nth_eq_iff_index_eq distinct_map
      dest: inj_onD)

subsection \<open>Lemmas on \<open>update_where\<close>\<close>

lemma length_update_where [simp, table_simps]:
  "length (update_where P f xs) = length xs"
  by (simp add: update_where_def)

lemma update_where_nth [table_simps]:
  "i < length xs \<Longrightarrow> update_where P f xs ! i = (if P (xs ! i) then f (xs ! i) else xs ! i)"
  by (simp add: update_where_def)

lemma update_where_append [table_simps]:
  "update_where P f (xs @ ys) = update_where P f xs @ update_where P f ys"
  by (simp add: update_where_def)

lemma map_update_where_inv [table_simps]:
  "(\<And>x. g (f x) = g x) \<Longrightarrow> map g (update_where P f xs) = map g xs"
  by (induction xs) (auto simp: update_where_def)

lemma update_where_none [table_simps]:
  "\<forall>x \<in> set xs. \<not> P x \<Longrightarrow> update_where P f xs = xs"
  by (induction xs) (auto simp: update_where_def)

lemma update_where_Nil [simp, table_simps]: "update_where P f [] = []"
  by (simp add: update_where_def)

lemma update_where_Cons [simp, table_simps]:
  "update_where P f (x # xs) = (if P x then f x else x) # update_where P f xs"
  by (simp add: update_where_def)

lemma update_where_distinct_map:
  assumes "distinct (map f xs)" and "i < length xs"
  shows "update_where (\<lambda>x. f x = f (xs ! i)) g xs = xs[i := g (xs ! i)]"
proof (rule nth_equalityI)
  show "length (update_where (\<lambda>x. f x = f (xs ! i)) g xs) = length (xs[i := g (xs ! i)])"
    by simp
next
  fix j
  assume "j < length (update_where (\<lambda>x. f x = f (xs ! i)) g xs)"
  with assms show "update_where (\<lambda>x. f x = f (xs ! i)) g xs ! j = xs[i := g (xs ! i)] ! j"
    by (auto simp: update_where_nth nth_list_update distinct_map inj_on_eq_iff nth_eq_iff_index_eq)
qed

lemma list_all_list_update_keep:
  "list_all P xs \<Longrightarrow> P y \<Longrightarrow> list_all P (xs[i := y])"
  by (auto simp: list_all_iff dest: set_update_subset_insert [THEN subsetD])

lemma map_list_update_inv [table_simps]:
  "i < length xs \<Longrightarrow> f y = f (xs ! i) \<Longrightarrow> map f (xs[i := y]) = map f xs"
  by (metis list_update_id map_update nth_map)

lemma sum_list_map_update_add:
  fixes f :: "'a \<Rightarrow> 'b::comm_monoid_add"
  shows "i < length xs \<Longrightarrow> sum_list (map f (xs[i := y])) + f (xs ! i) = sum_list (map f xs) + f y"
proof (induction xs arbitrary: i)
  case Nil
  then show ?case by simp
next
  case (Cons x xs)
  then show ?case
    by (cases i) (simp_all add: ac_simps)
qed

subsection \<open>Lemmas on \<open>sum_where\<close>\<close>

lemma sum_where_Nil [simp, table_simps]: "sum_where P g [] = 0"
  by (simp add: sum_where_def)

lemma sum_where_append [simp, table_simps]:
  "sum_where P g (xs @ ys) = sum_where P g xs + sum_where P g ys"
  by (simp add: sum_where_def)

lemma sum_where_single [simp, table_simps]:
  "sum_where P g [x] = (if P x then g x else 0)"
  by (simp add: sum_where_def)

lemma sum_where_Cons [simp, table_simps]:
  "sum_where P g (x # xs) = (if P x then g x else 0) + sum_where P g xs"
  by (simp add: sum_where_def)

subsection \<open>Sums of a column over an update of one position\<close>

lemma sum_list_map_list_update:
  fixes g :: "'a \<Rightarrow> 'b::ab_group_add"
  shows "i < length xs \<Longrightarrow>
    sum_list (map g (xs[i := y])) = sum_list (map g xs) - g (xs ! i) + g y"
proof (induction xs arbitrary: i)
  case Nil
  then show ?case by simp
next
  case (Cons x xs)
  then show ?case
    by (cases i) (simp_all add: algebra_simps)
qed

lemma sum_where_conv:
  "sum_where P g xs = sum_list (map (\<lambda>x. if P x then g x else 0) xs)"
  by (induction xs) simp_all

lemma sum_where_list_update:
  fixes g :: "'a \<Rightarrow> 'b::ab_group_add"
  assumes "i < length xs"
  shows "sum_where P g (xs[i := y]) =
           sum_where P g xs - (if P (xs ! i) then g (xs ! i) else 0) + (if P y then g y else 0)"
  using assms by (simp add: sum_where_conv sum_list_map_list_update)

subsection \<open>Grouping a column by a key\<close>

text \<open>
  Summing the per-key subtotals over a duplicate-free list of keys that covers every key
  occurring gives the plain total: a group-by loses and duplicates nothing.
\<close>

subsection \<open>Lemmas on \<open>at_most_one\<close>\<close>

lemma at_most_one_update_from_none:
  "list_all (\<lambda>x. \<not> P x) xs \<Longrightarrow> at_most_one P (xs[i := y])"
  unfolding at_most_one_def list_all_length
  by (metis length_list_update nth_list_update_neq)

lemma at_most_one_update_holder:
  "at_most_one P xs \<Longrightarrow> i < length xs \<Longrightarrow> P (xs ! i) \<Longrightarrow> at_most_one P (xs[i := y])"
  unfolding at_most_one_def by (metis length_list_update nth_list_update_neq)

lemma at_most_one_others:
  "at_most_one P xs \<Longrightarrow> i < length xs \<Longrightarrow> P (xs ! i) \<Longrightarrow> j < length xs \<Longrightarrow> j \<noteq> i \<Longrightarrow>
   \<not> P (xs ! j)"
  unfolding at_most_one_def by blast

lemma at_most_one_none: "list_all (\<lambda>x. \<not> P x) xs \<Longrightarrow> at_most_one P xs"
  by (simp add: at_most_one_def list_all_length)

lemma at_most_one_release:
  "at_most_one P xs \<Longrightarrow> i < length xs \<Longrightarrow> P (xs ! i) \<Longrightarrow> \<not> P y \<Longrightarrow> list_all (\<lambda>x. \<not> P x) (xs[i := y])"
  unfolding list_all_length by (metis at_most_one_others length_list_update nth_list_update)

end
