(* ===== verification/Ledger.thy ===== *)
theory Ledger
  imports Prelude
begin

text \<open>
  The inventory-ledger core as the spec describes it (sections 3 and 4), independent of
  either application: a catalog of products identified by their position, each with its
  cumulative sales, and an append-only log of sales that refer to products by id.
  \<open>spec_record_sale\<close> is the spec's RecordSale: it validates the quantity and the product
  id, rejects a quantity above the stock, and otherwise decrements the stock, increments
  the cumulative sales and appends one sale whose id is its position in the log and whose
  total is the quantity times the price at the time of the sale.  \<open>ledger_ok\<close> is the
  spec's consistency invariant.
\<close>

record spec_product =
  sp_name :: string
  sp_stock :: int
  sp_price :: money
  sp_expiry :: date
  sp_cumulative :: int

record spec_sale =
  ss_id :: nat
  ss_product :: nat
  ss_quantity :: int
  ss_total :: money
  ss_date :: date

record ledger =
  catalog :: "spec_product list"
  ledger_sales :: "spec_sale list"

datatype ledger_error = ValidationError | NotFoundError | InsufficientStockError

definition spec_record_sale :: "ledger \<Rightarrow> nat \<Rightarrow> int \<Rightarrow> date \<Rightarrow> ledger_error + ledger" where
  "spec_record_sale L pid q d =
     (if q < 1 then Inl ValidationError
      else if length (catalog L) \<le> pid then Inl NotFoundError
      else let p = catalog L ! pid in
        if sp_stock p < q then Inl InsufficientStockError
        else Inr \<lparr>catalog = (catalog L)[pid := p\<lparr>sp_stock := sp_stock p - q,
                                                sp_cumulative := sp_cumulative p + q\<rparr>],
                  ledger_sales = ledger_sales L @
                    [\<lparr>ss_id = length (ledger_sales L), ss_product = pid, ss_quantity = q,
                      ss_total = of_int q * sp_price p, ss_date = d\<rparr>]\<rparr>)"

text \<open>The catalog half of RecordSale, for an implementation that keeps no sale log.\<close>

definition spec_catalog_sale ::
  "spec_product list \<Rightarrow> nat \<Rightarrow> int \<Rightarrow> ledger_error + spec_product list" where
  "spec_catalog_sale ps pid q =
     (if q < 1 then Inl ValidationError
      else if length ps \<le> pid then Inl NotFoundError
      else if sp_stock (ps ! pid) < q then Inl InsufficientStockError
      else Inr (ps[pid := (ps ! pid)\<lparr>sp_stock := sp_stock (ps ! pid) - q,
                                     sp_cumulative := sp_cumulative (ps ! pid) + q\<rparr>]))"

definition spec_add_product ::
  "ledger \<Rightarrow> string \<Rightarrow> int \<Rightarrow> money \<Rightarrow> date \<Rightarrow> ledger_error + ledger" where
  "spec_add_product L name stock price expiry =
     (if name = [] \<or> stock < 0 \<or> price < 0 then Inl ValidationError
      else Inr (L\<lparr>catalog := catalog L @
        [\<lparr>sp_name = name, sp_stock = stock, sp_price = price, sp_expiry = expiry, sp_cumulative = 0\<rparr>]\<rparr>))"

datatype spec_op = OpAddProduct string int money date | OpRecordSale nat int date

fun spec_apply :: "ledger \<Rightarrow> spec_op \<Rightarrow> ledger_error + ledger" where
  "spec_apply L (OpAddProduct n st p e) = spec_add_product L n st p e"
| "spec_apply L (OpRecordSale pid q d) = spec_record_sale L pid q d"

text \<open>A failed operation leaves the ledger unchanged (spec section 7).\<close>

definition spec_step :: "ledger \<Rightarrow> spec_op \<Rightarrow> ledger" where
  "spec_step L op = (case spec_apply L op of Inl _ \<Rightarrow> L | Inr L' \<Rightarrow> L')"

text \<open>The catalog half of the spec, for an implementation that keeps no sale log: AddProduct
  and RecordSale on the catalog alone, and the step that leaves it unchanged on an error.\<close>

definition spec_catalog_add ::
  "spec_product list \<Rightarrow> string \<Rightarrow> int \<Rightarrow> money \<Rightarrow> date \<Rightarrow> ledger_error + spec_product list" where
  "spec_catalog_add ps name stock price expiry =
     (if name = [] \<or> stock < 0 \<or> price < 0 then Inl ValidationError
      else Inr (ps @ [\<lparr>sp_name = name, sp_stock = stock, sp_price = price, sp_expiry = expiry,
                      sp_cumulative = 0\<rparr>]))"

fun catalog_apply :: "spec_product list \<Rightarrow> spec_op \<Rightarrow> ledger_error + spec_product list" where
  "catalog_apply ps (OpAddProduct n st p e) = spec_catalog_add ps n st p e"
| "catalog_apply ps (OpRecordSale pid q d) = spec_catalog_sale ps pid q"

definition catalog_step :: "spec_product list \<Rightarrow> spec_op \<Rightarrow> spec_product list" where
  "catalog_step ps op = (case catalog_apply ps op of Inl _ \<Rightarrow> ps | Inr ps' \<Rightarrow> ps')"

definition sold_of :: "spec_sale list \<Rightarrow> nat \<Rightarrow> int" where
  "sold_of ss pid = sum_where (\<lambda>x. ss_product x = pid) ss_quantity ss"

definition ledger_ok :: "ledger \<Rightarrow> bool" where
  "ledger_ok L \<longleftrightarrow>
     list_all (\<lambda>pid. sp_cumulative (catalog L ! pid) = sold_of (ledger_sales L) pid \<and>
                     0 \<le> sp_stock (catalog L ! pid)) [0..<length (catalog L)] \<and>
     list_all (\<lambda>x. ss_product x < length (catalog L)) (ledger_sales L) \<and>
     map ss_id (ledger_sales L) = [0..<length (ledger_sales L)]"

lemma spec_record_sale_catalog:
  "spec_record_sale L pid q d = Inr L' \<Longrightarrow> spec_catalog_sale (catalog L) pid q = Inr (catalog L')"
  by (auto simp: spec_record_sale_def spec_catalog_sale_def Let_def split: if_splits)

lemma ledger_ok_add_row:
  assumes "ledger_ok L" and "0 \<le> st"
  shows "ledger_ok (L\<lparr>catalog := catalog L @
           [\<lparr>sp_name = n, sp_stock = st, sp_price = p, sp_expiry = e, sp_cumulative = 0\<rparr>]\<rparr>)"
proof -
  have "filter (\<lambda>x. ss_product x = length (catalog L)) (ledger_sales L) = []"
    using assms(1) by (auto simp: ledger_ok_def list_all_iff filter_empty_conv)
  then have "sold_of (ledger_sales L) (length (catalog L)) = 0"
    by (simp add: sold_of_def sum_where_def)
  with assms show ?thesis
    by (auto simp: ledger_ok_def list_all_iff nth_append)
qed

lemma spec_add_product_ok:
  "ledger_ok L \<Longrightarrow> spec_add_product L n st p e = Inr L' \<Longrightarrow> ledger_ok L'"
  by (auto simp: spec_add_product_def intro: ledger_ok_add_row split: if_splits)

lemma spec_record_sale_ok:
  assumes "ledger_ok L" and "spec_record_sale L pid q d = Inr L'"
  shows "ledger_ok L'"
proof -
  from assms(2) have q: "1 \<le> q" and lt: "pid < length (catalog L)"
    and st: "q \<le> sp_stock (catalog L ! pid)"
    and L': "L' = \<lparr>catalog = (catalog L)[pid := (catalog L ! pid)\<lparr>sp_stock := sp_stock (catalog L ! pid) - q,
                         sp_cumulative := sp_cumulative (catalog L ! pid) + q\<rparr>],
                   ledger_sales = ledger_sales L @
                    [\<lparr>ss_id = length (ledger_sales L), ss_product = pid, ss_quantity = q,
                      ss_total = of_int q * sp_price (catalog L ! pid), ss_date = d\<rparr>]\<rparr>"
    by (auto simp: spec_record_sale_def Let_def split: if_splits)
  from assms(1) lt st L' show ?thesis
    by (auto simp: ledger_ok_def list_all_iff nth_list_update sold_of_def)
qed

lemma spec_step_ok: "ledger_ok L \<Longrightarrow> ledger_ok (spec_step L op)"
  by (cases op) (auto simp: spec_step_def intro: spec_add_product_ok spec_record_sale_ok
      split: sum.split)

lemma spec_step_catalog: "catalog (spec_step L op) = catalog_step (catalog L) op"
  by (cases op)
     (auto simp: spec_step_def catalog_step_def spec_add_product_def spec_catalog_add_def
        spec_record_sale_def spec_catalog_sale_def Let_def)

lemma foldl_spec_step_catalog:
  "catalog (foldl spec_step L ops) = foldl catalog_step (catalog L) ops"
proof (induction ops arbitrary: L)
  case Nil
  then show ?case by simp
next
  case (Cons op ops)
  then show ?case by (simp add: spec_step_catalog [symmetric])
qed

end
