(* ===== verification/Alerts.thy ===== *)
theory Alerts
  imports Prelude
begin

text \<open>
  The alert views of both applications are boolean-mask selections of the product table:
  \<open>df[df["Expiry Date"] <= today + timedelta(days=30)]\<close> and \<open>df[df["Stock"] <= 10]\<close>.
  They are stated here once, over any row type and a projection of the column the mask
  reads, so that the rewrite rules below serve both row types: a row is selected exactly
  when its column is within the bound, and the selection commutes with appending rows.
\<close>

definition due_within :: "('r \<Rightarrow> date) \<Rightarrow> date \<Rightarrow> int \<Rightarrow> 'r list \<Rightarrow> 'r list" where
  "due_within expiry today days rows = filter (\<lambda>r. expiry r \<le> today + days) rows"

definition at_most :: "('r \<Rightarrow> int) \<Rightarrow> int \<Rightarrow> 'r list \<Rightarrow> 'r list" where
  "at_most col bound rows = filter (\<lambda>r. col r \<le> bound) rows"

lemma due_within_member [table_simps]:
  "r \<in> set (due_within expiry today days rows) \<longleftrightarrow> r \<in> set rows \<and> expiry r \<le> today + days"
  by (auto simp: due_within_def)

lemma at_most_member [table_simps]:
  "r \<in> set (at_most col bound rows) \<longleftrightarrow> r \<in> set rows \<and> col r \<le> bound"
  by (auto simp: at_most_def)

lemma due_within_append [table_simps]:
  "due_within expiry today days (xs @ ys) =
     due_within expiry today days xs @ due_within expiry today days ys"
  by (simp add: due_within_def)

lemma at_most_append [table_simps]:
  "at_most col bound (xs @ ys) = at_most col bound xs @ at_most col bound ys"
  by (simp add: at_most_def)

end
