(* ===== verification/Medico.thy ===== *)
theory Medico
  imports Alerts
begin

text \<open>
  The MediMate application, \<open>src/medico.py\<close>.  Its session state holds two DataFrames:
  \<open>products\<close> (columns Medicine, Stock, Price, Expiry Date) and \<open>sales\<close> (Medicine, Quantity,
  Total Price, Date).  Each run of the script renders the page chosen in the sidebar; only
  the submit buttons of the Add Product and Add Sale forms change the state.  A rejected sale
  (\<open>st.error\<close>) leaves both tables as they were.  The form widgets bound their inputs:
  \<open>st.number_input(min_value=1)\<close> yields an integer of at least 1, \<open>min_value=1.0\<close> a price of
  at least 1, and the sale's \<open>st.selectbox\<close> offers only names of the product table.
\<close>

subsection \<open>State\<close>

record medicine =
  med_name :: string
  med_stock :: int
  med_price :: money
  med_expiry :: date

record sale =
  sale_medicine :: string
  sale_quantity :: int
  sale_total :: money
  sale_date :: date

record medico_state =
  products :: "medicine list"
  sales :: "sale list"

datatype medico_error = NoProducts | NoSuchRow | NotEnoughStock

definition medico_init :: medico_state where
  "medico_init = \<lparr>products = [], sales = []\<rparr>"

subsection \<open>Add Product\<close>

definition add_product :: "medico_state \<Rightarrow> string \<Rightarrow> int \<Rightarrow> money \<Rightarrow> date \<Rightarrow> medico_state" where
  "add_product s medicine stock price expiry =
     s\<lparr>products := products s @
        [\<lparr>med_name = medicine, med_stock = stock, med_price = price, med_expiry = expiry\<rparr>]\<rparr>"

definition product_form_ok :: "int \<Rightarrow> money \<Rightarrow> bool" where
  "product_form_ok stock price \<longleftrightarrow> 1 \<le> stock \<and> 1 \<le> price"

subsection \<open>Add Sale\<close>

text \<open>
  \<open>products[products["Medicine"] == medicine].iloc[0]\<close> is the first row of that name
  (\<open>NoSuchRow\<close> where pandas would raise \<open>IndexError\<close>; the selectbox never offers such a
  name).  The stock check reads that row only, but \<open>.loc[mask, "Stock"] -= quantity\<close>
  decrements every row of that name.
\<close>

definition add_sale :: "medico_state \<Rightarrow> string \<Rightarrow> int \<Rightarrow> date \<Rightarrow> medico_error + medico_state" where
  "add_sale s medicine quantity day =
     (if products s = [] then Inl NoProducts
      else case filter (\<lambda>r. med_name r = medicine) (products s) of
        [] \<Rightarrow> Inl NoSuchRow
      | product # _ \<Rightarrow>
          (if quantity > med_stock product then Inl NotEnoughStock
           else
             let total_price = of_int quantity * med_price product;
                 new_sale = \<lparr>sale_medicine = medicine, sale_quantity = quantity,
                             sale_total = total_price, sale_date = day\<rparr>;
                 s1 = s\<lparr>sales := sales s @ [new_sale]\<rparr>
             in Inr (s1\<lparr>products := update_where (\<lambda>r. med_name r = medicine)
                          (\<lambda>r. r\<lparr>med_stock := med_stock r - quantity\<rparr>) (products s1)\<rparr>)))"

definition sale_form_ok :: "medico_state \<Rightarrow> string \<Rightarrow> int \<Rightarrow> bool" where
  "sale_form_ok s medicine quantity \<longleftrightarrow>
     medicine \<in> set (map med_name (products s)) \<and> 1 \<le> quantity"

subsection \<open>Dashboard\<close>

definition dashboard_metrics :: "medico_state \<Rightarrow> money \<times> int \<times> nat" where
  "dashboard_metrics s =
     (sum_list (map sale_total (sales s)), sum_list (map sale_quantity (sales s)),
      length (products s))"

text \<open>\<open>sales.groupby("Date")["Total Price"].sum()\<close>: one entry per date, in ascending order.\<close>

definition sales_by_date :: "sale list \<Rightarrow> (date \<times> money) list" where
  "sales_by_date ss =
     map (\<lambda>d. (d, sum_where (\<lambda>x. sale_date x = d) sale_total ss))
       (sort (remdups (map sale_date ss)))"

subsection \<open>Stock and Expiry\<close>

definition near_expiry :: "date \<Rightarrow> medicine list \<Rightarrow> medicine list" where
  "near_expiry today ps = due_within med_expiry today 30 ps"

definition low_stock :: "medicine list \<Rightarrow> medicine list" where
  "low_stock ps = at_most med_stock 10 ps"

subsection \<open>The application: events, reruns, reachable states\<close>

datatype medico_event =
    ProductForm string int money date
  | SaleForm string int date
  | ViewOnly

fun medico_handle :: "medico_state \<Rightarrow> medico_event \<Rightarrow> medico_error + medico_state" where
  "medico_handle s (ProductForm m stock price expiry) = Inr (add_product s m stock price expiry)"
| "medico_handle s (SaleForm m q day) = add_sale s m q day"
| "medico_handle s ViewOnly = Inr s"

definition medico_rerun :: "medico_state \<Rightarrow> medico_event \<Rightarrow> medico_state" where
  "medico_rerun s e = (case medico_handle s e of Inl _ \<Rightarrow> s | Inr s' \<Rightarrow> s')"

fun medico_event_ok :: "medico_state \<Rightarrow> medico_event \<Rightarrow> bool" where
  "medico_event_ok s (ProductForm m stock price expiry) = product_form_ok stock price"
| "medico_event_ok s (SaleForm m q day) = sale_form_ok s m q"
| "medico_event_ok s ViewOnly = True"

definition medico_run :: "medico_state \<Rightarrow> medico_event list \<Rightarrow> medico_state" where
  "medico_run s es = foldl medico_rerun s es"

inductive medico_reachable :: "medico_state \<Rightarrow> bool" where
  init: "medico_reachable medico_init"
| step: "medico_reachable s \<Longrightarrow> medico_event_ok s e \<Longrightarrow> medico_reachable (medico_rerun s e)"

fun medico_events_ok :: "medico_state \<Rightarrow> medico_event list \<Rightarrow> bool" where
  "medico_events_ok s [] = True"
| "medico_events_ok s (e # es) = (medico_event_ok s e \<and> medico_events_ok (medico_rerun s e) es)"

subsection \<open>Ledger quantities\<close>

text \<open>
  The stock a product name has on hand (its Stock column summed over the rows of that name),
  the units of it the sales table records, and the units the Add Product submissions of a
  run brought in.  The last one is a quantity of the run, not of the state: the model of
  the code keeps no record of it.
\<close>

definition stock_nonneg :: "medicine list \<Rightarrow> bool" where
  "stock_nonneg ps \<longleftrightarrow> list_all (\<lambda>r. 0 \<le> med_stock r) ps"

definition stock_on_hand :: "medicine list \<Rightarrow> string \<Rightarrow> int" where
  "stock_on_hand ps m = sum_where (\<lambda>r. med_name r = m) med_stock ps"

definition units_sold :: "sale list \<Rightarrow> string \<Rightarrow> int" where
  "units_sold ss m = sum_where (\<lambda>x. sale_medicine x = m) sale_quantity ss"

definition units_received :: "medico_event list \<Rightarrow> string \<Rightarrow> int" where
  "units_received es m =
     sum_list (map (\<lambda>e. case e of ProductForm n st _ _ \<Rightarrow> if n = m then st else 0 | _ \<Rightarrow> 0) es)"

definition dup_name_run :: "medico_event list" where
  "dup_name_run =
     [ProductForm ''Aspirin'' 10 1 0, ProductForm ''Aspirin'' 2 1 0, SaleForm ''Aspirin'' 5 0]"

subsection \<open>Example tables\<close>

definition paracetamol_stocked :: medico_state where
  "paracetamol_stocked = add_product medico_init ''Paracetamol'' 20 5 10"

definition paracetamol_sold :: medico_state where
  "paracetamol_sold =
     \<lparr>products = [\<lparr>med_name = ''Paracetamol'', med_stock = 15, med_price = 5, med_expiry = 10\<rparr>],
      sales = [\<lparr>sale_medicine = ''Paracetamol'', sale_quantity = 5, sale_total = 25, sale_date = 0\<rparr>]\<rparr>"

definition stock_levels_catalog :: "medicine list" where
  "stock_levels_catalog =
     [\<lparr>med_name = ''A'', med_stock = 15, med_price = 1, med_expiry = 100\<rparr>,
      \<lparr>med_name = ''B'', med_stock = 10, med_price = 1, med_expiry = 30\<rparr>,
      \<lparr>med_name = ''C'', med_stock = 3, med_price = 1, med_expiry = 31\<rparr>]"

section \<open>Lemmas\<close>

subsection \<open>The sale handler\<close>

lemma add_sale_Inr_iff:
  "add_sale s m q d = Inr s' \<longleftrightarrow>
   (\<exists>i. first_index (\<lambda>r. med_name r = m) (products s) = Some i \<and> q \<le> med_stock (products s ! i) \<and>
        products s' = update_where (\<lambda>r. med_name r = m)
                        (\<lambda>r. r\<lparr>med_stock := med_stock r - q\<rparr>) (products s) \<and>
        sales s' = sales s @ [\<lparr>sale_medicine = m, sale_quantity = q,
                              sale_total = of_int q * med_price (products s ! i), sale_date = d\<rparr>])"
proof (cases "filter (\<lambda>r. med_name r = m) (products s)")
  case Nil
  then have "first_index (\<lambda>r. med_name r = m) (products s) = None"
    by (simp add: first_index_None_iff filter_empty_conv)
  with Nil show ?thesis by (auto simp: add_sale_def)
next
  case (Cons r rs)
  then obtain i where i: "first_index (\<lambda>r. med_name r = m) (products s) = Some i"
    and r: "products s ! i = r"
    using first_index_filter_Cons [OF Cons] by blast
  from Cons have "products s \<noteq> []" by auto
  with Cons i r show ?thesis
    by (auto simp: add_sale_def Let_def medico_state.equality)
qed

lemma add_sale_Inl_iff:
  "add_sale s m q d = Inl e \<longleftrightarrow>
     (e = NoProducts \<and> products s = []) \<or>
     (e = NoSuchRow \<and> products s \<noteq> [] \<and> m \<notin> set (map med_name (products s))) \<or>
     (e = NotEnoughStock \<and>
        (\<exists>i. first_index (\<lambda>r. med_name r = m) (products s) = Some i \<and> med_stock (products s ! i) < q))"
proof (cases "filter (\<lambda>r. med_name r = m) (products s)")
  case Nil
  then have "first_index (\<lambda>r. med_name r = m) (products s) = None"
    by (simp add: first_index_None_iff filter_empty_conv)
  with Nil show ?thesis by (auto simp: add_sale_def filter_empty_conv)
next
  case (Cons r rs)
  then obtain i where i: "first_index (\<lambda>r. med_name r = m) (products s) = Some i"
    and r: "products s ! i = r"
    using first_index_filter_Cons [OF Cons] by blast
  from Cons have "products s \<noteq> []" by auto
  have "m \<in> set (map med_name (products s))"
    using first_index_Some_lt [OF i] first_index_Some_sat [OF i] by (auto intro: nth_mem)
  with Cons i r \<open>products s \<noteq> []\<close> show ?thesis
    by (auto simp: add_sale_def Let_def)
qed

lemma add_sale_names:
  "add_sale s m q d = Inr s' \<Longrightarrow> map med_name (products s') = map med_name (products s)"
  by (auto simp: add_sale_Inr_iff map_update_where_inv)

lemma add_sale_unique_name:
  assumes "add_sale s m q d = Inr s'" and "distinct (map med_name (products s))"
  obtains i where "i < length (products s)" and "med_name (products s ! i) = m"
    and "q \<le> med_stock (products s ! i)"
    and "products s' =
           (products s)[i := (products s ! i)\<lparr>med_stock := med_stock (products s ! i) - q\<rparr>]"
    and "sales s' = sales s @ [\<lparr>sale_medicine = m, sale_quantity = q,
                              sale_total = of_int q * med_price (products s ! i), sale_date = d\<rparr>]"
proof -
  from assms(1) obtain i where i: "first_index (\<lambda>r. med_name r = m) (products s) = Some i"
    and q: "q \<le> med_stock (products s ! i)"
    and ps: "products s' = update_where (\<lambda>r. med_name r = m)
                 (\<lambda>r. r\<lparr>med_stock := med_stock r - q\<rparr>) (products s)"
    and ss: "sales s' = sales s @ [\<lparr>sale_medicine = m, sale_quantity = q,
                              sale_total = of_int q * med_price (products s ! i), sale_date = d\<rparr>]"
    by (auto simp: add_sale_Inr_iff)
  have lt: "i < length (products s)" and nm: "med_name (products s ! i) = m"
    using first_index_Some_lt [OF i] first_index_Some_sat [OF i] by simp_all
  with assms(2) ps have ps': "products s' =
      (products s)[i := (products s ! i)\<lparr>med_stock := med_stock (products s ! i) - q\<rparr>]"
    using update_where_distinct_map [of med_name "products s" i] by simp
  from lt nm q ps' ss show ?thesis by (rule that)
qed

subsection \<open>Reruns and runs\<close>

lemma medico_run_Nil [simp]: "medico_run s [] = s"
  by (simp add: medico_run_def)

lemma medico_run_Cons [simp]: "medico_run s (e # es) = medico_run (medico_rerun s e) es"
  by (simp add: medico_run_def)

lemma medico_run_snoc: "medico_run s (es @ [e]) = medico_rerun (medico_run s es) e"
  by (simp add: medico_run_def)

lemma medico_reachable_run:
  "medico_reachable s \<Longrightarrow> medico_events_ok s es \<Longrightarrow> medico_reachable (medico_run s es)"
  by (induction es arbitrary: s) (auto intro: medico_reachable.step)

lemma medico_rerun_names:
  "map med_name (products (medico_rerun s e)) =
     map med_name (products s) @ (case e of ProductForm m _ _ _ \<Rightarrow> [m] | _ \<Rightarrow> [])"
  by (cases e) (auto simp: medico_rerun_def add_product_def add_sale_names split: sum.split)

lemma medico_rerun_stock_nonneg:
  assumes "stock_nonneg (products s)" and "medico_event_ok s e"
    and "distinct (map med_name (products s))"
  shows "stock_nonneg (products (medico_rerun s e))"
proof (cases e)
  case (ProductForm m st p x)
  with assms(1,2) show ?thesis
    by (simp add: medico_rerun_def add_product_def stock_nonneg_def product_form_ok_def)
next
  case (SaleForm m q d)
  show ?thesis
  proof (cases "add_sale s m q d")
    case (Inl err)
    with SaleForm assms(1) show ?thesis by (simp add: medico_rerun_def)
  next
    case (Inr s')
    then obtain i where "i < length (products s)" "q \<le> med_stock (products s ! i)"
      and "products s' =
             (products s)[i := (products s ! i)\<lparr>med_stock := med_stock (products s ! i) - q\<rparr>]"
      using assms(3) by (rule add_sale_unique_name)
    with Inr SaleForm assms(1) show ?thesis
      by (auto simp: medico_rerun_def stock_nonneg_def list_all_iff set_conv_nth nth_list_update)
  qed
next
  case ViewOnly
  with assms(1) show ?thesis by (simp add: medico_rerun_def)
qed

lemma medico_rerun_conserves:
  assumes "distinct (map med_name (products s))"
  shows "stock_on_hand (products (medico_rerun s e)) m + units_sold (sales (medico_rerun s e)) m =
         stock_on_hand (products s) m + units_sold (sales s) m + units_received [e] m"
proof (cases e)
  case (ProductForm n st p x)
  then show ?thesis
    by (simp add: medico_rerun_def add_product_def stock_on_hand_def units_sold_def
        units_received_def)
next
  case (SaleForm n q d)
  show ?thesis
  proof (cases "add_sale s n q d")
    case (Inl err)
    with SaleForm show ?thesis by (simp add: medico_rerun_def units_received_def)
  next
    case (Inr s')
    then obtain i where "i < length (products s)" "med_name (products s ! i) = n"
      and "products s' =
             (products s)[i := (products s ! i)\<lparr>med_stock := med_stock (products s ! i) - q\<rparr>]"
      and "sales s' = sales s @ [\<lparr>sale_medicine = n, sale_quantity = q,
             sale_total = of_int q * med_price (products s ! i), sale_date = d\<rparr>]"
      using assms by (rule add_sale_unique_name)
    with Inr SaleForm show ?thesis
      by (simp add: medico_rerun_def stock_on_hand_def units_sold_def units_received_def
          sum_where_list_update)
  qed
next
  case ViewOnly
  then show ?thesis by (simp add: medico_rerun_def units_received_def)
qed

lemma units_received_append:
  "units_received (es @ es') m = units_received es m + units_received es' m"
  by (simp add: units_received_def)

section \<open>Properties\<close>

lemmas paracetamol_defs = paracetamol_stocked_def paracetamol_sold_def add_product_def medico_init_def

lemma paracetamol_sale: "add_sale paracetamol_stocked ''Paracetamol'' 5 0 = Inr paracetamol_sold"
  by (simp add: paracetamol_defs add_sale_def)

lemma paracetamol_stocked_reachable: "medico_reachable paracetamol_stocked"
proof -
  have "medico_reachable (medico_rerun medico_init (ProductForm ''Paracetamol'' 20 5 10))"
    by (rule medico_reachable.step [OF medico_reachable.init]) (simp add: product_form_ok_def)
  then show ?thesis by (simp add: medico_rerun_def paracetamol_stocked_def)
qed

lemma paracetamol_sold_reachable: "medico_reachable paracetamol_sold"
proof -
  have "medico_reachable (medico_rerun paracetamol_stocked (SaleForm ''Paracetamol'' 5 0))"
    by (rule medico_reachable.step [OF paracetamol_stocked_reachable])
       (simp add: sale_form_ok_def paracetamol_defs)
  then show ?thesis using paracetamol_sale by (simp add: medico_rerun_def)
qed

text \<open>C1: In every state the MediMate app can reach through its forms, if no two product rows share a name, then no product has negative stock: the stock check of Add Sale and the decrement of Stock then act on the same row.\<close>

theorem medico_unique_names_stock_nonneg:
  "medico_reachable s \<Longrightarrow> distinct (map med_name (products s)) \<Longrightarrow> stock_nonneg (products s)"
proof (induction rule: medico_reachable.induct)
  case init
  then show ?case by (simp add: medico_init_def stock_nonneg_def)
next
  case (step s e)
  from step.prems have "distinct (map med_name (products s))"
    by (simp add: medico_rerun_names)
  with step show ?case by (simp add: medico_rerun_stock_nonneg)
qed

theorem medico_unique_names_stock_nonneg_witness:
  "medico_reachable paracetamol_sold \<and> distinct (map med_name (products paracetamol_sold)) \<and>
   stock_nonneg (products paracetamol_sold)"
proof -
  have r: "medico_reachable paracetamol_sold" by (rule paracetamol_sold_reachable)
  have d: "distinct (map med_name (products paracetamol_sold))"
    by (simp add: paracetamol_sold_def)
  show ?thesis using r d medico_unique_names_stock_nonneg [OF r d] by simp
qed

text \<open>C2: When two rows share a name, MediMate can drive a stock negative: Add Sale checks the stock of the first row of that name only, but decrements every row of that name. Adding Aspirin with stock 10 and again with stock 2 and selling 5 leaves the second row at -3.\<close>

theorem medico_duplicate_names_negative_stock:
  "medico_reachable (medico_run medico_init dup_name_run) \<and>
   map med_stock (products (medico_run medico_init dup_name_run)) = [5, -3] \<and>
   \<not> stock_nonneg (products (medico_run medico_init dup_name_run))"
proof -
  have ok: "medico_events_ok medico_init dup_name_run"
    by (simp add: dup_name_run_def medico_init_def medico_rerun_def add_product_def add_sale_def
        product_form_ok_def sale_form_ok_def)
  have "map med_stock (products (medico_run medico_init dup_name_run)) = [5, -3]"
    by (simp add: dup_name_run_def medico_init_def medico_rerun_def add_product_def add_sale_def)
  then show ?thesis
    using medico_reachable_run [OF medico_reachable.init ok]
    by (auto simp: stock_nonneg_def list_all_iff)
qed

text \<open>C3: Ledger consistency of MediMate: after any sequence of form submissions from the empty state that leaves product names unique, for every name the stock on hand plus the units recorded in the sales table equals the units brought in by Add Product; no sale is lost or applied twice.\<close>

theorem medico_ledger_consistent:
  "distinct (map med_name (products (medico_run medico_init es))) \<Longrightarrow>
   stock_on_hand (products (medico_run medico_init es)) m +
     units_sold (sales (medico_run medico_init es)) m = units_received es m"
proof (induction es rule: rev_induct)
  case Nil
  then show ?case
    by (simp add: medico_init_def stock_on_hand_def units_sold_def units_received_def)
next
  case (snoc e es)
  from snoc.prems have "distinct (map med_name (products (medico_run medico_init es)))"
    by (simp add: medico_run_snoc medico_rerun_names)
  with snoc.IH show ?case
    by (simp add: medico_run_snoc medico_rerun_conserves units_received_append)
qed

theorem medico_ledger_consistent_witness:
  "distinct (map med_name (products (medico_run medico_init
      [ProductForm ''Paracetamol'' 20 5 10, SaleForm ''Paracetamol'' 5 0, SaleForm ''Paracetamol'' 20 1]))) \<and>
   stock_on_hand (products (medico_run medico_init
      [ProductForm ''Paracetamol'' 20 5 10, SaleForm ''Paracetamol'' 5 0, SaleForm ''Paracetamol'' 20 1]))
      ''Paracetamol'' +
   units_sold (sales (medico_run medico_init
      [ProductForm ''Paracetamol'' 20 5 10, SaleForm ''Paracetamol'' 5 0, SaleForm ''Paracetamol'' 20 1]))
      ''Paracetamol'' = 20"
proof -
  have d: "distinct (map med_name (products (medico_run medico_init
      [ProductForm ''Paracetamol'' 20 5 10, SaleForm ''Paracetamol'' 5 0, SaleForm ''Paracetamol'' 20 1])))"
    by (simp add: medico_rerun_def add_product_def add_sale_def medico_init_def)
  have "units_received [ProductForm ''Paracetamol'' 20 5 10, SaleForm ''Paracetamol'' 5 0,
      SaleForm ''Paracetamol'' 20 1] ''Paracetamol'' = 20"
    by (simp add: units_received_def)
  with d medico_ledger_consistent [OF d, of "''Paracetamol''"] show ?thesis by simp
qed

text \<open>C6: A successful MediMate sale appends exactly one sales row, whose total is the quantity times the price of the first row with that name at the time of the sale, and decreases by the quantity the stock of every row with that name, leaving all other rows unchanged; it succeeds only when the quantity is at most the stock of that first row.\<close>

theorem add_sale_success:
  "add_sale s m q d = Inr s' \<Longrightarrow>
   \<exists>i. first_index (\<lambda>r. med_name r = m) (products s) = Some i \<and> q \<le> med_stock (products s ! i) \<and>
     sales s' = sales s @ [\<lparr>sale_medicine = m, sale_quantity = q,
                           sale_total = of_int q * med_price (products s ! i), sale_date = d\<rparr>] \<and>
     length (products s') = length (products s) \<and>
     (\<forall>j < length (products s). products s' ! j =
        (if med_name (products s ! j) = m
         then (products s ! j)\<lparr>med_stock := med_stock (products s ! j) - q\<rparr> else products s ! j))"
  by (auto simp: add_sale_Inr_iff update_where_nth)

theorem add_sale_success_witness:
  "add_sale paracetamol_stocked ''Paracetamol'' 5 0 = Inr paracetamol_sold \<and>
   first_index (\<lambda>r. med_name r = ''Paracetamol'') (products paracetamol_stocked) = Some 0 \<and>
   sales paracetamol_sold = sales paracetamol_stocked @ [\<lparr>sale_medicine = ''Paracetamol'', sale_quantity = 5,
        sale_total = of_int 5 * med_price (products paracetamol_stocked ! 0), sale_date = 0\<rparr>] \<and>
   products paracetamol_sold ! 0 =
     (products paracetamol_stocked ! 0)\<lparr>med_stock := med_stock (products paracetamol_stocked ! 0) - 5\<rparr>"
proof -
  have fi: "first_index (\<lambda>r. med_name r = ''Paracetamol'') (products paracetamol_stocked) = Some 0"
    by (simp add: paracetamol_defs)
  have l: "0 < length (products paracetamol_stocked)" by (simp add: paracetamol_defs)
  from add_sale_success [OF paracetamol_sale] fi obtain i where "i = 0" and
    "sales paracetamol_sold = sales paracetamol_stocked @ [\<lparr>sale_medicine = ''Paracetamol'', sale_quantity = 5,
        sale_total = of_int 5 * med_price (products paracetamol_stocked ! i), sale_date = 0\<rparr>]"
    and "\<forall>j < length (products paracetamol_stocked). products paracetamol_sold ! j =
        (if med_name (products paracetamol_stocked ! j) = ''Paracetamol''
         then (products paracetamol_stocked ! j)\<lparr>med_stock := med_stock (products paracetamol_stocked ! j) - 5\<rparr>
         else products paracetamol_stocked ! j)"
    by auto
  with l fi paracetamol_sale show ?thesis by (simp add: paracetamol_defs)
qed

text \<open>C7: For inputs the sale form can produce (a listed name, quantity at least 1), MediMate's Add Sale fails only with the not-enough-stock error, and exactly when the quantity exceeds the stock of the first row with that name.\<close>

theorem add_sale_error_cases:
  "sale_form_ok s m q \<Longrightarrow>
   add_sale s m q d = Inl e \<longleftrightarrow>
     e = NotEnoughStock \<and>
     (\<exists>i. first_index (\<lambda>r. med_name r = m) (products s) = Some i \<and> med_stock (products s ! i) < q)"
  by (auto simp: add_sale_Inl_iff sale_form_ok_def)

theorem add_sale_error_cases_witness:
  "sale_form_ok paracetamol_sold ''Paracetamol'' 20 \<and>
   add_sale paracetamol_sold ''Paracetamol'' 20 1 = Inl NotEnoughStock"
proof -
  have h: "sale_form_ok paracetamol_sold ''Paracetamol'' 20"
    by (simp add: sale_form_ok_def paracetamol_sold_def)
  have "first_index (\<lambda>r. med_name r = ''Paracetamol'') (products paracetamol_sold) = Some 0 \<and>
      med_stock (products paracetamol_sold ! 0) < 20"
    by (simp add: paracetamol_sold_def)
  then show ?thesis using h add_sale_error_cases [OF h, of 1 NotEnoughStock] by blast
qed

text \<open>The spec scenario on MediMate: adding Paracetamol with stock 20 and price 5 and selling 5 records a sale of total 25 and leaves stock 15; a following sale of 20 is rejected with not enough stock and changes nothing.\<close>

theorem medico_paracetamol_scenario:
  "medico_run medico_init [ProductForm ''Paracetamol'' 20 5 10, SaleForm ''Paracetamol'' 5 0] =
     paracetamol_sold \<and>
   sale_total (last (sales paracetamol_sold)) = 25 \<and>
   map med_stock (products paracetamol_sold) = [15] \<and>
   add_sale paracetamol_sold ''Paracetamol'' 20 1 = Inl NotEnoughStock \<and>
   medico_rerun paracetamol_sold (SaleForm ''Paracetamol'' 20 1) = paracetamol_sold"
proof -
  have r: "medico_run medico_init [ProductForm ''Paracetamol'' 20 5 10, SaleForm ''Paracetamol'' 5 0] =
      paracetamol_sold"
    using paracetamol_sale by (simp add: medico_rerun_def paracetamol_stocked_def)
  have e: "add_sale paracetamol_sold ''Paracetamol'' 20 1 = Inl NotEnoughStock"
    by (simp add: add_sale_def paracetamol_sold_def)
  then have "medico_rerun paracetamol_sold (SaleForm ''Paracetamol'' 20 1) = paracetamol_sold"
    by (simp add: medico_rerun_def)
  with r e show ?thesis by (simp add: paracetamol_sold_def)
qed


text \<open>C19: Round trip of Add Product and Add Sale in MediMate: adding a product under a name no row has yet and then selling that name with a quantity within the added stock succeeds, appends one sale priced at the quantity times the new row's price, and decrements only the new row, the last one; every earlier row and sale is unchanged.\<close>

theorem add_then_sell:
  assumes "m \<notin> set (map med_name (products s))" and "q \<le> st"
  shows "add_sale (add_product s m st pr ex) m q d =
           Inr \<lparr>products = products s @ [\<lparr>med_name = m, med_stock = st - q, med_price = pr, med_expiry = ex\<rparr>],
                sales = sales s @ [\<lparr>sale_medicine = m, sale_quantity = q, sale_total = of_int q * pr,
                                    sale_date = d\<rparr>]\<rparr>"
proof -
  have none: "\<forall>r \<in> set (products s). \<not> med_name r = m" using assms(1) by auto
  then have "filter (\<lambda>r. med_name r = m) (products s) = []" by (simp add: filter_empty_conv)
  with none assms(2) show ?thesis
    by (simp add: add_sale_def add_product_def Let_def update_where_append update_where_none)
qed

theorem add_then_sell_witness:
  "''Ibuprofen'' \<notin> set (map med_name (products paracetamol_stocked)) \<and> (4::int) \<le> 12 \<and>
   add_sale (add_product paracetamol_stocked ''Ibuprofen'' 12 3 50) ''Ibuprofen'' 4 7 =
     Inr \<lparr>products = products paracetamol_stocked @
            [\<lparr>med_name = ''Ibuprofen'', med_stock = 8, med_price = 3, med_expiry = 50\<rparr>],
          sales = sales paracetamol_stocked @
            [\<lparr>sale_medicine = ''Ibuprofen'', sale_quantity = 4, sale_total = 12, sale_date = 7\<rparr>]\<rparr>"
proof -
  have h: "''Ibuprofen'' \<notin> set (map med_name (products paracetamol_stocked))" "(4::int) \<le> 12"
    by (simp_all add: paracetamol_defs)
  show ?thesis using h add_then_sell [OF h, of 3 50 7] by simp
qed

end
