(* ===== verification/Medipath.thy ===== *)
theory Medipath
  imports Alerts
begin

text \<open>
  The Medimate application, \<open>src/medipath.py\<close>.  Its session state holds one DataFrame,
  \<open>products\<close> (columns Product Name, Stock, Price, Expiry Date, Total Sales); there is no
  table of individual sales, each product row carries its cumulative units sold instead.
  The Save Product form appends a row with Total Sales 0 (\<open>st.number_input(min_value=0)\<close>
  bounds stock and price below by 0).  The Record Sale button finds the first row of the
  selected name (\<open>.index[0]\<close>) and, when its stock covers the quantity, decrements its
  Stock and increments its Total Sales, both at that one index.
\<close>

subsection \<open>State\<close>

record product =
  prod_name :: string
  prod_stock :: int
  prod_price :: money
  prod_expiry :: date
  prod_total_sales :: int

type_synonym medipath_state = "product list"

datatype medipath_error = NoProductsAvailable | NoSuchProduct | NotEnoughStockAvailable

definition medipath_init :: medipath_state where
  "medipath_init = []"

subsection \<open>Add / Update Products\<close>

definition save_product ::
  "medipath_state \<Rightarrow> string \<Rightarrow> int \<Rightarrow> money \<Rightarrow> date \<Rightarrow> medipath_state" where
  "save_product ps product_name stock price expiry_date =
     ps @ [\<lparr>prod_name = product_name, prod_stock = stock, prod_price = price,
            prod_expiry = expiry_date, prod_total_sales = 0\<rparr>]"

definition save_form_ok :: "int \<Rightarrow> money \<Rightarrow> bool" where
  "save_form_ok stock price \<longleftrightarrow> 0 \<le> stock \<and> 0 \<le> price"

subsection \<open>Sales Entry\<close>

definition record_sale ::
  "medipath_state \<Rightarrow> string \<Rightarrow> int \<Rightarrow> medipath_error + medipath_state" where
  "record_sale ps product quantity_sold =
     (if ps = [] then Inl NoProductsAvailable
      else case first_index (\<lambda>r. prod_name r = product) ps of
        None \<Rightarrow> Inl NoSuchProduct
      | Some idx \<Rightarrow>
          (if prod_stock (ps ! idx) \<ge> quantity_sold then
             let ps1 = ps[idx := (ps ! idx)\<lparr>prod_stock := prod_stock (ps ! idx) - quantity_sold\<rparr>];
                 ps2 = ps1[idx := (ps1 ! idx)\<lparr>prod_total_sales :=
                                      prod_total_sales (ps1 ! idx) + quantity_sold\<rparr>]
             in Inr ps2
           else Inl NotEnoughStockAvailable))"

definition sale_entry_ok :: "medipath_state \<Rightarrow> string \<Rightarrow> int \<Rightarrow> bool" where
  "sale_entry_ok ps product quantity_sold \<longleftrightarrow>
     product \<in> set (map prod_name ps) \<and> 1 \<le> quantity_sold"

subsection \<open>Dashboard and Expiry Alerts\<close>

text \<open>The two pie charts of the dashboard plot these series, indexed by Product Name.\<close>

definition dashboard_series :: "medipath_state \<Rightarrow> (string \<times> int) list \<times> (string \<times> int) list" where
  "dashboard_series ps =
     (map (\<lambda>r. (prod_name r, prod_total_sales r)) ps, map (\<lambda>r. (prod_name r, prod_stock r)) ps)"

definition expiring_products :: "date \<Rightarrow> medipath_state \<Rightarrow> product list" where
  "expiring_products today ps = due_within prod_expiry today 30 ps"

subsection \<open>The application: events, reruns, reachable states\<close>

datatype medipath_event =
    SaveProduct string int money date
  | RecordSale string int
  | ViewPage

fun medipath_handle :: "medipath_state \<Rightarrow> medipath_event \<Rightarrow> medipath_error + medipath_state" where
  "medipath_handle ps (SaveProduct m stock price expiry) = Inr (save_product ps m stock price expiry)"
| "medipath_handle ps (RecordSale m q) = record_sale ps m q"
| "medipath_handle ps ViewPage = Inr ps"

definition medipath_rerun :: "medipath_state \<Rightarrow> medipath_event \<Rightarrow> medipath_state" where
  "medipath_rerun ps e = (case medipath_handle ps e of Inl _ \<Rightarrow> ps | Inr ps' \<Rightarrow> ps')"

fun medipath_event_ok :: "medipath_state \<Rightarrow> medipath_event \<Rightarrow> bool" where
  "medipath_event_ok ps (SaveProduct m stock price expiry) = save_form_ok stock price"
| "medipath_event_ok ps (RecordSale m q) = sale_entry_ok ps m q"
| "medipath_event_ok ps ViewPage = True"

definition medipath_run :: "medipath_state \<Rightarrow> medipath_event list \<Rightarrow> medipath_state" where
  "medipath_run ps es = foldl medipath_rerun ps es"

inductive medipath_reachable :: "medipath_state \<Rightarrow> bool" where
  init: "medipath_reachable medipath_init"
| step: "medipath_reachable ps \<Longrightarrow> medipath_event_ok ps e \<Longrightarrow> medipath_reachable (medipath_rerun ps e)"

fun medipath_events_ok :: "medipath_state \<Rightarrow> medipath_event list \<Rightarrow> bool" where
  "medipath_events_ok ps [] = True"
| "medipath_events_ok ps (e # es) = (medipath_event_ok ps e \<and> medipath_events_ok (medipath_rerun ps e) es)"

subsection \<open>Quantities of a run\<close>

definition counts_nonneg :: "medipath_state \<Rightarrow> bool" where
  "counts_nonneg ps \<longleftrightarrow> list_all (\<lambda>r. 0 \<le> prod_stock r \<and> 0 \<le> prod_total_sales r) ps"

definition stock_entered :: "medipath_event list \<Rightarrow> int list" where
  "stock_entered es = concat (map (\<lambda>e. case e of SaveProduct _ st _ _ \<Rightarrow> [st] | _ \<Rightarrow> []) es)"

definition pain_relief_run :: "medipath_event list" where
  "pain_relief_run = [SaveProduct ''Paracetamol'' 20 5 10, RecordSale ''Paracetamol'' 5]"

subsection \<open>Example tables\<close>

definition aspirin_twice :: medipath_state where
  "aspirin_twice =
     [\<lparr>prod_name = ''Aspirin'', prod_stock = 10, prod_price = 1, prod_expiry = 40, prod_total_sales = 0\<rparr>,
      \<lparr>prod_name = ''Aspirin'', prod_stock = 2, prod_price = 1, prod_expiry = 30, prod_total_sales = 0\<rparr>]"

definition pain_relief_stocked :: medipath_state where
  "pain_relief_stocked =
     [\<lparr>prod_name = ''Paracetamol'', prod_stock = 15, prod_price = 5, prod_expiry = 10, prod_total_sales = 5\<rparr>]"

section \<open>Lemmas\<close>

lemma record_sale_Inr_iff:
  "record_sale ps m q = Inr ps' \<longleftrightarrow>
   (\<exists>i. first_index (\<lambda>r. prod_name r = m) ps = Some i \<and> q \<le> prod_stock (ps ! i) \<and>
        ps' = ps[i := (ps ! i)\<lparr>prod_stock := prod_stock (ps ! i) - q,
                              prod_total_sales := prod_total_sales (ps ! i) + q\<rparr>])"
proof (cases "first_index (\<lambda>r. prod_name r = m) ps")
  case None
  then show ?thesis by (auto simp: record_sale_def)
next
  case (Some i)
  then have "i < length ps" by (rule first_index_Some_lt)
  with Some show ?thesis
    by (auto simp: record_sale_def Let_def)
qed

lemma record_sale_Inl_iff:
  "record_sale ps m q = Inl e \<longleftrightarrow>
     (e = NoProductsAvailable \<and> ps = []) \<or>
     (e = NoSuchProduct \<and> ps \<noteq> [] \<and> m \<notin> set (map prod_name ps)) \<or>
     (e = NotEnoughStockAvailable \<and>
        (\<exists>i. first_index (\<lambda>r. prod_name r = m) ps = Some i \<and> prod_stock (ps ! i) < q))"
proof (cases "first_index (\<lambda>r. prod_name r = m) ps")
  case None
  then have "m \<notin> set (map prod_name ps)" by (auto simp: first_index_None_iff)
  with None show ?thesis by (auto simp: record_sale_def)
next
  case (Some i)
  then have "i < length ps" "prod_name (ps ! i) = m"
    using first_index_Some_lt [OF Some] first_index_Some_sat [OF Some] by simp_all
  then have "m \<in> set (map prod_name ps)" "ps \<noteq> []" by (auto intro: nth_mem)
  with Some show ?thesis
    by (auto simp: record_sale_def Let_def)
qed

lemma record_sale_length:
  "record_sale ps m q = Inr ps' \<Longrightarrow> length ps' = length ps"
  by (auto simp: record_sale_Inr_iff)

lemma record_sale_names:
  "record_sale ps m q = Inr ps' \<Longrightarrow> map prod_name ps' = map prod_name ps"
  by (auto simp: record_sale_Inr_iff map_list_update_inv dest: first_index_Some_lt)

lemma record_sale_sum_inv:
  "record_sale ps m q = Inr ps' \<Longrightarrow>
   map (\<lambda>r. prod_stock r + prod_total_sales r) ps' = map (\<lambda>r. prod_stock r + prod_total_sales r) ps"
  by (auto simp: record_sale_Inr_iff map_list_update_inv dest: first_index_Some_lt)

lemma medipath_run_Nil [simp]: "medipath_run ps [] = ps"
  by (simp add: medipath_run_def)

lemma medipath_run_Cons [simp]: "medipath_run ps (e # es) = medipath_run (medipath_rerun ps e) es"
  by (simp add: medipath_run_def)

lemma medipath_run_snoc: "medipath_run ps (es @ [e]) = medipath_rerun (medipath_run ps es) e"
  by (simp add: medipath_run_def)

lemma medipath_reachable_run:
  "medipath_reachable ps \<Longrightarrow> medipath_events_ok ps es \<Longrightarrow> medipath_reachable (medipath_run ps es)"
  by (induction es arbitrary: ps) (auto intro: medipath_reachable.step)

lemma medipath_rerun_counts_nonneg:
  assumes "counts_nonneg ps" and "medipath_event_ok ps e"
  shows "counts_nonneg (medipath_rerun ps e)"
proof (cases e)
  case (SaveProduct m st p x)
  with assms show ?thesis
    by (simp add: medipath_rerun_def save_product_def counts_nonneg_def save_form_ok_def)
next
  case (RecordSale m q)
  show ?thesis
  proof (cases "record_sale ps m q")
    case (Inl err)
    with RecordSale assms(1) show ?thesis by (simp add: medipath_rerun_def)
  next
    case (Inr ps')
    then obtain i where i: "first_index (\<lambda>r. prod_name r = m) ps = Some i" "q \<le> prod_stock (ps ! i)"
      and ps': "ps' = ps[i := (ps ! i)\<lparr>prod_stock := prod_stock (ps ! i) - q,
                              prod_total_sales := prod_total_sales (ps ! i) + q\<rparr>]"
      by (auto simp: record_sale_Inr_iff)
    moreover from assms(2) RecordSale have "1 \<le> q" by (simp add: sale_entry_ok_def)
    moreover have "i < length ps" using first_index_Some_lt [OF i(1)] .
    ultimately show ?thesis using Inr RecordSale assms(1)
      by (auto simp: medipath_rerun_def counts_nonneg_def list_all_iff set_conv_nth nth_list_update)
  qed
next
  case ViewPage
  with assms(1) show ?thesis by (simp add: medipath_rerun_def)
qed

lemma medipath_rerun_conserves:
  "map (\<lambda>r. prod_stock r + prod_total_sales r) (medipath_rerun ps e) =
   map (\<lambda>r. prod_stock r + prod_total_sales r) ps @ stock_entered [e]"
  by (cases e) (auto simp: medipath_rerun_def save_product_def stock_entered_def record_sale_sum_inv
      split: sum.split)

lemma medipath_rerun_keeps_shadowed:
  assumes "j < length ps" and "i < j" and "prod_name (ps ! i) = prod_name (ps ! j)"
  shows "j < length (medipath_rerun ps e) \<and> medipath_rerun ps e ! j = ps ! j \<and>
         prod_name (medipath_rerun ps e ! i) = prod_name (ps ! i)"
proof (cases e)
  case (SaveProduct m st p x)
  with assms show ?thesis by (simp add: medipath_rerun_def save_product_def nth_append)
next
  case (RecordSale m q)
  show ?thesis
  proof (cases "record_sale ps m q")
    case (Inl err)
    with RecordSale show ?thesis using assms by (simp add: medipath_rerun_def)
  next
    case (Inr ps')
    then obtain k where k: "first_index (\<lambda>r. prod_name r = m) ps = Some k"
      and ps': "ps' = ps[k := (ps ! k)\<lparr>prod_stock := prod_stock (ps ! k) - q,
                              prod_total_sales := prod_total_sales (ps ! k) + q\<rparr>]"
      by (auto simp: record_sale_Inr_iff)
    have "k \<noteq> j"
    proof
      assume "k = j"
      with k have "prod_name (ps ! j) = m" using first_index_Some_sat by fastforce
      moreover from k \<open>k = j\<close> assms(2) have "prod_name (ps ! i) \<noteq> m"
        using first_index_Some_first by fastforce
      ultimately show False using assms(3) by simp
    qed
    moreover have "map prod_name ps' = map prod_name ps" using Inr by (rule record_sale_names)
    then have "prod_name (ps' ! i) = prod_name (ps ! i)"
      using assms(1,2) by (metis length_map nth_map order.strict_trans)
    ultimately show ?thesis using Inr RecordSale assms(1) ps'
      by (simp add: medipath_rerun_def)
  qed
next
  case ViewPage
  with assms show ?thesis by (simp add: medipath_rerun_def)
qed

lemma medipath_run_conserves:
  "map (\<lambda>r. prod_stock r + prod_total_sales r) (medipath_run ps es) =
   map (\<lambda>r. prod_stock r + prod_total_sales r) ps @ stock_entered es"
proof (induction es rule: rev_induct)
  case Nil
  then show ?case by (simp add: stock_entered_def)
next
  case (snoc e es)
  then show ?case
    by (simp add: medipath_run_snoc medipath_rerun_conserves stock_entered_def)
qed

lemma medipath_run_counts_nonneg:
  "counts_nonneg ps \<Longrightarrow> medipath_events_ok ps es \<Longrightarrow> counts_nonneg (medipath_run ps es)"
  by (induction es arbitrary: ps) (simp_all add: medipath_rerun_counts_nonneg)

section \<open>Properties\<close>

text \<open>C10: In Medimate a product row that has an earlier row with the same name is never changed by any sequence of form submissions: Record Sale always picks the first row of a name, so the stock of a later duplicate can never be sold.\<close>

theorem medipath_duplicate_row_never_sold:
  "j < length ps \<Longrightarrow> i < j \<Longrightarrow> prod_name (ps ! i) = prod_name (ps ! j) \<Longrightarrow>
   medipath_run ps es ! j = ps ! j"
proof (induction es arbitrary: ps)
  case Nil
  then show ?case by simp
next
  case (Cons e es)
  from medipath_rerun_keeps_shadowed [OF Cons.prems, of e]
  have "j < length (medipath_rerun ps e)" and eq: "medipath_rerun ps e ! j = ps ! j"
    and "prod_name (medipath_rerun ps e ! i) = prod_name (medipath_rerun ps e ! j)"
    using Cons.prems(3) by simp_all
  with Cons.prems(2) have "medipath_run (medipath_rerun ps e) es ! j = medipath_rerun ps e ! j"
    by (intro Cons.IH)
  with eq show ?case by simp
qed

theorem medipath_duplicate_row_never_sold_witness:
  "(1::nat) < length aspirin_twice \<and> (0::nat) < 1 \<and> prod_name (aspirin_twice ! 0) = prod_name (aspirin_twice ! 1) \<and>
   medipath_run aspirin_twice [RecordSale ''Aspirin'' 10, RecordSale ''Aspirin'' 1] ! 1 = aspirin_twice ! 1"
proof -
  have h: "(1::nat) < length aspirin_twice" "(0::nat) < 1" "prod_name (aspirin_twice ! 0) = prod_name (aspirin_twice ! 1)"
    by (simp_all add: aspirin_twice_def)
  show ?thesis using h medipath_duplicate_row_never_sold [OF h] by blast
qed

text \<open>C4: In every state the Medimate app can reach through its forms, every product row has non-negative Stock and non-negative Total Sales, duplicate product names included: the stock check and both updates of Record Sale act on the same row index.\<close>

theorem medipath_stock_nonneg:
  "medipath_reachable ps \<Longrightarrow> counts_nonneg ps"
proof (induction rule: medipath_reachable.induct)
  case init
  then show ?case by (simp add: medipath_init_def counts_nonneg_def)
next
  case (step ps e)
  then show ?case by (simp add: medipath_rerun_counts_nonneg)
qed

theorem medipath_stock_nonneg_witness:
  "medipath_reachable (medipath_run medipath_init pain_relief_run) \<and>
   counts_nonneg (medipath_run medipath_init pain_relief_run)"
proof -
  have "medipath_events_ok medipath_init pain_relief_run"
    by (simp add: pain_relief_run_def medipath_init_def medipath_rerun_def save_product_def
        save_form_ok_def sale_entry_ok_def)
  then have r: "medipath_reachable (medipath_run medipath_init pain_relief_run)"
    by (rule medipath_reachable_run [OF medipath_reachable.init])
  show ?thesis using r medipath_stock_nonneg [OF r] by simp
qed

text \<open>C5: Per-row conservation in Medimate: after any sequence of form submissions from the empty state, for every product row, Stock plus Total Sales equals the stock entered when the row was saved, in row order; so Total Sales is exactly the units sold from that row.\<close>

theorem medipath_stock_conservation:
  "map (\<lambda>r. prod_stock r + prod_total_sales r) (medipath_run medipath_init es) = stock_entered es"
  using medipath_run_conserves [of medipath_init es] by (simp add: medipath_init_def)

text \<open>C8: A successful Medimate Record Sale changes only the first row with the selected name: its Stock decreases and its Total Sales increases by the quantity, which is at most its Stock; names and row count are kept, and the table totals of Stock and Total Sales move by exactly the quantity.\<close>

theorem record_sale_success:
  assumes "record_sale ps m q = Inr ps'"
  shows "length ps' = length ps \<and> map prod_name ps' = map prod_name ps \<and>
   sum_list (map prod_stock ps') = sum_list (map prod_stock ps) - q \<and>
   sum_list (map prod_total_sales ps') = sum_list (map prod_total_sales ps) + q \<and>
   (\<exists>i. first_index (\<lambda>r. prod_name r = m) ps = Some i \<and> q \<le> prod_stock (ps ! i) \<and>
        (\<forall>j < length ps. j \<noteq> i \<longrightarrow> ps' ! j = ps ! j) \<and>
        ps' ! i = (ps ! i)\<lparr>prod_stock := prod_stock (ps ! i) - q,
                            prod_total_sales := prod_total_sales (ps ! i) + q\<rparr>)"
proof -
  from assms obtain i where i: "first_index (\<lambda>r. prod_name r = m) ps = Some i"
    and q: "q \<le> prod_stock (ps ! i)"
    and ps': "ps' = ps[i := (ps ! i)\<lparr>prod_stock := prod_stock (ps ! i) - q,
                              prod_total_sales := prod_total_sales (ps ! i) + q\<rparr>]"
    by (auto simp: record_sale_Inr_iff)
  have lt: "i < length ps" using first_index_Some_lt [OF i] .
  have "length ps' = length ps \<and> map prod_name ps' = map prod_name ps"
    using record_sale_length [OF assms] record_sale_names [OF assms] by simp
  moreover have "sum_list (map prod_stock ps') = sum_list (map prod_stock ps) - q"
    using lt ps' by (simp add: sum_list_map_list_update)
  moreover have "sum_list (map prod_total_sales ps') = sum_list (map prod_total_sales ps) + q"
    using lt ps' by (simp add: sum_list_map_list_update)
  moreover have "(\<forall>j < length ps. j \<noteq> i \<longrightarrow> ps' ! j = ps ! j) \<and>
      ps' ! i = (ps ! i)\<lparr>prod_stock := prod_stock (ps ! i) - q,
                            prod_total_sales := prod_total_sales (ps ! i) + q\<rparr>"
    using lt ps' by simp
  ultimately show ?thesis using i q by blast
qed

theorem record_sale_success_witness:
  "record_sale aspirin_twice ''Aspirin'' 4 =
     Inr (aspirin_twice[0 := (aspirin_twice ! 0)\<lparr>prod_stock := 6, prod_total_sales := 4\<rparr>]) \<and>
   sum_list (map prod_stock (aspirin_twice[0 := (aspirin_twice ! 0)\<lparr>prod_stock := 6, prod_total_sales := 4\<rparr>])) =
     sum_list (map prod_stock aspirin_twice) - 4"
proof -
  have h: "record_sale aspirin_twice ''Aspirin'' 4 =
      Inr (aspirin_twice[0 := (aspirin_twice ! 0)\<lparr>prod_stock := 6, prod_total_sales := 4\<rparr>])"
    by (simp add: record_sale_def aspirin_twice_def)
  show ?thesis using h record_sale_success [OF h] by blast
qed

text \<open>C9: For inputs the sales page can produce (a listed name, quantity at least 1), Medimate's Record Sale fails only with the not-enough-stock error, exactly when the quantity exceeds the Stock of the first row with that name; a failed sale leaves the table unchanged.\<close>

theorem record_sale_error_cases:
  "sale_entry_ok ps m q \<Longrightarrow>
   record_sale ps m q = Inl e \<longleftrightarrow>
     e = NotEnoughStockAvailable \<and>
     (\<exists>i. first_index (\<lambda>r. prod_name r = m) ps = Some i \<and> prod_stock (ps ! i) < q)"
  by (auto simp: record_sale_Inl_iff sale_entry_ok_def)

theorem record_sale_error_cases_witness:
  "sale_entry_ok pain_relief_stocked ''Paracetamol'' 20 \<and>
   record_sale pain_relief_stocked ''Paracetamol'' 20 = Inl NotEnoughStockAvailable"
proof -
  have h: "sale_entry_ok pain_relief_stocked ''Paracetamol'' 20"
    by (simp add: sale_entry_ok_def pain_relief_stocked_def)
  have "first_index (\<lambda>r. prod_name r = ''Paracetamol'') pain_relief_stocked = Some 0 \<and>
      prod_stock (pain_relief_stocked ! 0) < 20"
    by (simp add: pain_relief_stocked_def)
  then show ?thesis using h record_sale_error_cases [OF h, of NotEnoughStockAvailable] by blast
qed

text \<open>The spec scenario on Medimate: saving Paracetamol with stock 20 and price 5 and selling 5 leaves Stock 15 and Total Sales 5; a following sale of 20 is rejected with not enough stock and changes nothing.\<close>

theorem medipath_paracetamol_scenario:
  "medipath_run medipath_init pain_relief_run = pain_relief_stocked \<and>
   record_sale pain_relief_stocked ''Paracetamol'' 20 = Inl NotEnoughStockAvailable \<and>
   medipath_rerun pain_relief_stocked (RecordSale ''Paracetamol'' 20) = pain_relief_stocked"
proof -
  have r: "medipath_run medipath_init pain_relief_run = pain_relief_stocked"
    by (simp add: pain_relief_run_def medipath_init_def medipath_rerun_def save_product_def
        record_sale_def pain_relief_stocked_def)
  have e: "record_sale pain_relief_stocked ''Paracetamol'' 20 = Inl NotEnoughStockAvailable"
    by (simp add: record_sale_def pain_relief_stocked_def)
  then have "medipath_rerun pain_relief_stocked (RecordSale ''Paracetamol'' 20) = pain_relief_stocked"
    by (simp add: medipath_rerun_def)
  with r e show ?thesis by simp
qed

text \<open>C18: Round trip of Save Product and Record Sale in Medimate: saving a product under a name no row has yet and then recording a sale of that name with a quantity within the saved stock finds the new row, the last one, and leaves it with Stock reduced by the quantity and Total Sales equal to it, the rest of the table unchanged.\<close>

theorem save_then_sell:
  assumes "n \<notin> set (map prod_name ps)" and "q \<le> st"
  shows "record_sale (save_product ps n st pr ex) n q =
           Inr (ps @ [\<lparr>prod_name = n, prod_stock = st - q, prod_price = pr, prod_expiry = ex,
                       prod_total_sales = q\<rparr>])"
proof -
  have "first_index (\<lambda>r. prod_name r = n) ps = None" using assms(1) by (auto simp: first_index_None_iff)
  then have "first_index (\<lambda>r. prod_name r = n) (save_product ps n st pr ex) = Some (length ps)"
    by (simp add: save_product_def first_index_append_None)
  with assms(2) show ?thesis
    by (simp add: record_sale_def save_product_def Let_def nth_append)
qed

theorem save_then_sell_witness:
  "''Paracetamol'' \<notin> set (map prod_name aspirin_twice) \<and> (5::int) \<le> 20 \<and>
   record_sale (save_product aspirin_twice ''Paracetamol'' 20 5 10) ''Paracetamol'' 5 =
     Inr (aspirin_twice @ [\<lparr>prod_name = ''Paracetamol'', prod_stock = 15, prod_price = 5,
                             prod_expiry = 10, prod_total_sales = 5\<rparr>])"
proof -
  have h: "''Paracetamol'' \<notin> set (map prod_name aspirin_twice)" "(5::int) \<le> 20"
    by (simp_all add: aspirin_twice_def)
  show ?thesis using h save_then_sell [OF h, of 5 10] by simp
qed

end
