(* ===== verification/Refinement.thy ===== *)
theory Refinement
  imports Ledger Medico Medipath
begin

text \<open>
  Both applications against the abstract ledger of \<open>Ledger\<close>.  The abstraction of a
  Medimate table maps each row to a spec product whose cumulative sales are its Total Sales
  column; Medimate keeps no sale log, so its Record Sale is compared with the catalog half
  of RecordSale.  The abstraction of a MediMate state maps each product row to a spec product
  whose cumulative sales are the units of its name in the sales table, and each sales row to
  a spec sale whose id is its position and whose product id is the position of the first
  row of its name (the code's identity scheme).  With unique names every rerun of MediMate
  is simulated by one spec step, and every reachable state abstracts to a consistent ledger.
\<close>

definition medipath_abs :: "product list \<Rightarrow> spec_product list" where
  "medipath_abs ps =
     map (\<lambda>r. \<lparr>sp_name = prod_name r, sp_stock = prod_stock r, sp_price = prod_price r,
               sp_expiry = prod_expiry r, sp_cumulative = prod_total_sales r\<rparr>) ps"

fun medipath_err_abs :: "medipath_error \<Rightarrow> ledger_error" where
  "medipath_err_abs NoProductsAvailable = NotFoundError"
| "medipath_err_abs NoSuchProduct = NotFoundError"
| "medipath_err_abs NotEnoughStockAvailable = InsufficientStockError"

definition product_id :: "medicine list \<Rightarrow> string \<Rightarrow> nat" where
  "product_id ps m = (case first_index (\<lambda>r. med_name r = m) ps of Some i \<Rightarrow> i | None \<Rightarrow> length ps)"

definition medico_abs :: "medico_state \<Rightarrow> ledger" where
  "medico_abs s =
     \<lparr>catalog = map (\<lambda>r. \<lparr>sp_name = med_name r, sp_stock = med_stock r, sp_price = med_price r,
                          sp_expiry = med_expiry r,
                          sp_cumulative = units_sold (sales s) (med_name r)\<rparr>) (products s),
      ledger_sales = map (\<lambda>(k, x). \<lparr>ss_id = k, ss_product = product_id (products s) (sale_medicine x),
                                    ss_quantity = sale_quantity x, ss_total = sale_total x,
                                    ss_date = sale_date x\<rparr>) (enumerate 0 (sales s))\<rparr>"

fun medico_err_abs :: "medico_error \<Rightarrow> ledger_error" where
  "medico_err_abs NoProducts = NotFoundError"
| "medico_err_abs NoSuchRow = NotFoundError"
| "medico_err_abs NotEnoughStock = InsufficientStockError"

fun medico_op :: "medico_state \<Rightarrow> medico_event \<Rightarrow> spec_op option" where
  "medico_op s (ProductForm n st p e) = Some (OpAddProduct n st p e)"
| "medico_op s (SaleForm m q d) = Some (OpRecordSale (product_id (products s) m) q d)"
| "medico_op s ViewOnly = None"

text \<open>Medimate against the catalog half of the spec: a Save Product is AddProduct, a Record Sale is
  RecordSale on the index of the first row of the name (Medimate records no sale date).\<close>

definition medipath_pid :: "product list \<Rightarrow> string \<Rightarrow> nat" where
  "medipath_pid ps m = (case first_index (\<lambda>r. prod_name r = m) ps of Some i \<Rightarrow> i | None \<Rightarrow> length ps)"

fun medipath_op :: "medipath_state \<Rightarrow> medipath_event \<Rightarrow> spec_op option" where
  "medipath_op ps (SaveProduct n st p e) = Some (OpAddProduct n st p e)"
| "medipath_op ps (RecordSale m q) = Some (OpRecordSale (medipath_pid ps m) q 0)"
| "medipath_op ps ViewPage = None"

fun medipath_ops :: "medipath_state \<Rightarrow> medipath_event list \<Rightarrow> spec_op list" where
  "medipath_ops ps [] = []"
| "medipath_ops ps (e # es) =
     (case medipath_op ps e of None \<Rightarrow> [] | Some op \<Rightarrow> [op]) @ medipath_ops (medipath_rerun ps e) es"

fun named_save :: "medipath_event \<Rightarrow> bool" where
  "named_save (SaveProduct n st p e) = (n \<noteq> [])"
| "named_save _ = True"

lemma product_id_names:
  "map med_name ps' = map med_name ps \<Longrightarrow> product_id ps' m = product_id ps m"
proof -
  assume eq: "map med_name ps' = map med_name ps"
  have "first_index (\<lambda>r. med_name r = m) ps' = first_index (\<lambda>r. med_name r = m) ps"
    using eq
  proof (induction ps' arbitrary: ps)
    case Nil
    then show ?case by simp
  next
    case (Cons r rs)
    then show ?case by (cases ps) auto
  qed
  moreover have "length ps' = length ps" using eq by (metis length_map)
  ultimately show ?thesis unfolding product_id_def by (simp split: option.split)
qed

text \<open>C13: Refinement of the spec by Medimate: for a sale the sales page allows, abstracting the table maps the outcome of Record Sale (the new table, or the error) to the outcome of the catalog half of the spec's RecordSale on the product id of the first row of that name.\<close>

theorem medipath_refines_catalog_sale:
  "sale_entry_ok ps m q \<Longrightarrow> first_index (\<lambda>r. prod_name r = m) ps = Some i \<Longrightarrow>
   map_sum medipath_err_abs medipath_abs (record_sale ps m q) = spec_catalog_sale (medipath_abs ps) i q"
proof -
  assume ok: "sale_entry_ok ps m q" and i: "first_index (\<lambda>r. prod_name r = m) ps = Some i"
  have lt: "i < length ps" using first_index_Some_lt [OF i] .
  with ok i show ?thesis
    by (auto simp: record_sale_def spec_catalog_sale_def medipath_abs_def sale_entry_ok_def
        map_update Let_def)
qed

lemma units_sold_snoc:
  "units_sold (ss @ [x]) n = units_sold ss n + (if sale_medicine x = n then sale_quantity x else 0)"
  by (simp add: units_sold_def)

lemma add_sale_refines:
  assumes ok: "sale_form_ok s m q" and dist: "distinct (map med_name (products s))"
  shows "map_sum medico_err_abs medico_abs (add_sale s m q d) =
         spec_record_sale (medico_abs s) (product_id (products s) m) q d"
proof (cases "add_sale s m q d")
  case (Inl e)
  with ok obtain i where i: "first_index (\<lambda>r. med_name r = m) (products s) = Some i"
    and st: "med_stock (products s ! i) < q" and e: "e = NotEnoughStock"
    by (auto simp: add_sale_Inl_iff sale_form_ok_def)
  have "i < length (products s)" using first_index_Some_lt [OF i] .
  with i st e Inl ok show ?thesis
    by (simp add: spec_record_sale_def medico_abs_def product_id_def sale_form_ok_def)
next
  case (Inr s')
  then obtain i where lt: "i < length (products s)" and nm: "med_name (products s ! i) = m"
    and st: "q \<le> med_stock (products s ! i)"
    and ps: "products s' =
           (products s)[i := (products s ! i)\<lparr>med_stock := med_stock (products s ! i) - q\<rparr>]"
    and ss: "sales s' = sales s @ [\<lparr>sale_medicine = m, sale_quantity = q,
                              sale_total = of_int q * med_price (products s ! i), sale_date = d\<rparr>]"
    using dist by (rule add_sale_unique_name)
  have pid: "product_id (products s) m = i"
    using first_index_distinct_map [OF dist lt] nm by (simp add: product_id_def)
  have names: "map med_name (products s') = map med_name (products s)"
    using Inr by (rule add_sale_names)
  have q1: "1 \<le> q" using ok by (simp add: sale_form_ok_def)
  have cat: "catalog (medico_abs s') =
      (catalog (medico_abs s))[i := (catalog (medico_abs s) ! i)\<lparr>
         sp_stock := sp_stock (catalog (medico_abs s) ! i) - q,
         sp_cumulative := sp_cumulative (catalog (medico_abs s) ! i) + q\<rparr>]"
  proof (rule nth_equalityI)
    show "length (catalog (medico_abs s')) = length ((catalog (medico_abs s))[i := (catalog (medico_abs s) ! i)\<lparr>
         sp_stock := sp_stock (catalog (medico_abs s) ! i) - q,
         sp_cumulative := sp_cumulative (catalog (medico_abs s) ! i) + q\<rparr>])"
      by (simp add: medico_abs_def ps)
  next
    fix j
    assume "j < length (catalog (medico_abs s'))"
    then have j: "j < length (products s)" by (simp add: medico_abs_def ps)
    have "j \<noteq> i \<Longrightarrow> med_name (products s ! j) \<noteq> m"
      using dist lt j nm by (auto simp: distinct_map inj_on_eq_iff nth_eq_iff_index_eq)
    with j lt nm show "catalog (medico_abs s') ! j = ((catalog (medico_abs s))[i := (catalog (medico_abs s) ! i)\<lparr>
         sp_stock := sp_stock (catalog (medico_abs s) ! i) - q,
         sp_cumulative := sp_cumulative (catalog (medico_abs s) ! i) + q\<rparr>]) ! j"
      by (cases "j = i") (simp_all add: medico_abs_def ps ss units_sold_snoc nth_list_update)
  qed
  have sal: "ledger_sales (medico_abs s') = ledger_sales (medico_abs s) @
      [\<lparr>ss_id = length (ledger_sales (medico_abs s)), ss_product = i, ss_quantity = q,
        ss_total = of_int q * sp_price (catalog (medico_abs s) ! i), ss_date = d\<rparr>]"
    using lt by (simp add: medico_abs_def ss enumerate_append_eq product_id_names [OF names] pid)
  have "spec_record_sale (medico_abs s) i q d = Inr (medico_abs s')"
    using q1 lt st cat sal
    by (simp add: spec_record_sale_def Let_def ledger.equality) (simp add: medico_abs_def)
  with Inr pid show ?thesis by simp
qed

lemma medico_sale_names_listed:
  "medico_reachable s \<Longrightarrow> set (map sale_medicine (sales s)) \<subseteq> set (map med_name (products s))"
proof (induction rule: medico_reachable.induct)
  case init
  then show ?case by (simp add: medico_init_def)
next
  case (step s e)
  show ?case
  proof (cases e)
    case (SaleForm m q d)
    show ?thesis
    proof (cases "add_sale s m q d")
      case (Inl err)
      with SaleForm step.IH show ?thesis by (simp add: medico_rerun_def)
    next
      case (Inr s')
      then obtain i where "first_index (\<lambda>r. med_name r = m) (products s) = Some i"
        and "sales s' = sales s @ [\<lparr>sale_medicine = m, sale_quantity = q,
               sale_total = of_int q * med_price (products s ! i), sale_date = d\<rparr>]"
        by (auto simp: add_sale_Inr_iff)
      moreover from step.hyps(2) SaleForm have "m \<in> set (map med_name (products s))"
        by (simp add: sale_form_ok_def)
      ultimately show ?thesis
        using Inr SaleForm step.IH add_sale_names [OF Inr] by (simp add: medico_rerun_def)
    qed
  qed (use step.IH in \<open>auto simp: medico_rerun_def add_product_def\<close>)
qed

lemma units_sold_unlisted:
  "n \<notin> set (map sale_medicine ss) \<Longrightarrow> units_sold ss n = 0"
  by (induction ss) (auto simp: units_sold_def)

lemma product_id_append:
  "m \<in> set (map med_name ps) \<Longrightarrow> product_id (ps @ [x]) m = product_id ps m"
proof -
  assume "m \<in> set (map med_name ps)"
  then obtain i where "first_index (\<lambda>r. med_name r = m) ps = Some i"
    by (cases "first_index (\<lambda>r. med_name r = m) ps") (auto simp: first_index_None_iff)
  then show ?thesis by (simp add: product_id_def first_index_append_Some)
qed

lemma medico_add_product_abs:
  assumes "n \<notin> set (map med_name (products s))"
    and "set (map sale_medicine (sales s)) \<subseteq> set (map med_name (products s))"
  shows "medico_abs (add_product s n st p e) =
         (medico_abs s)\<lparr>catalog := catalog (medico_abs s) @
           [\<lparr>sp_name = n, sp_stock = st, sp_price = p, sp_expiry = e, sp_cumulative = 0\<rparr>]\<rparr>"
proof -
  have "units_sold (sales s) n = 0"
    using assms by (intro units_sold_unlisted) blast
  moreover have "\<forall>x \<in> set (sales s). product_id (products s @
      [\<lparr>med_name = n, med_stock = st, med_price = p, med_expiry = e\<rparr>]) (sale_medicine x) =
      product_id (products s) (sale_medicine x)"
    using assms(2) by (intro ballI product_id_append) auto
  ultimately show ?thesis
    by (auto simp: medico_abs_def add_product_def in_set_enumerate_eq intro!: map_cong)
qed

lemma medipath_rerun_abs:
  assumes ok: "medipath_event_ok ps e" and named: "named_save e"
  shows "medipath_abs (medipath_rerun ps e) =
         (case medipath_op ps e of None \<Rightarrow> medipath_abs ps | Some op \<Rightarrow> catalog_step (medipath_abs ps) op)"
proof (cases e)
  case (SaveProduct n st p x)
  with ok named show ?thesis
    by (simp add: medipath_rerun_def catalog_step_def spec_catalog_add_def save_product_def
        medipath_abs_def save_form_ok_def)
next
  case (RecordSale m q)
  from ok RecordSale obtain i where i: "first_index (\<lambda>r. prod_name r = m) ps = Some i" and q: "1 \<le> q"
    by (cases "first_index (\<lambda>r. prod_name r = m) ps") (auto simp: sale_entry_ok_def first_index_None_iff)
  have lt: "i < length ps" using first_index_Some_lt [OF i] .
  with i q RecordSale show ?thesis
    by (auto simp: medipath_rerun_def catalog_step_def record_sale_def spec_catalog_sale_def
        medipath_abs_def medipath_pid_def map_update Let_def)
next
  case ViewPage
  then show ?thesis by (simp add: medipath_rerun_def)
qed

text \<open>C12: Refinement of the spec by MediMate: in a reachable state, for a form submission the widgets allow that keeps product names unique and does not add an empty name, the abstraction of the state after the rerun is the spec ledger after the corresponding AddProduct or RecordSale step (a failed step leaving it unchanged).\<close>

theorem medico_simulates_spec:
  assumes reach: "medico_reachable s" and ok: "medico_event_ok s e"
    and dist: "distinct (map med_name (products (medico_rerun s e)))"
    and named: "\<And>n st p x. e = ProductForm n st p x \<Longrightarrow> n \<noteq> []"
  shows "medico_abs (medico_rerun s e) =
         (case medico_op s e of None \<Rightarrow> medico_abs s | Some op \<Rightarrow> spec_step (medico_abs s) op)"
proof (cases e)
  case (ProductForm n st p x)
  from dist ProductForm have "n \<notin> set (map med_name (products s))"
    by (simp add: medico_rerun_names)
  then have "medico_abs (add_product s n st p x) =
      (medico_abs s)\<lparr>catalog := catalog (medico_abs s) @
        [\<lparr>sp_name = n, sp_stock = st, sp_price = p, sp_expiry = x, sp_cumulative = 0\<rparr>]\<rparr>"
    using medico_sale_names_listed [OF reach] by (rule medico_add_product_abs)
  moreover from ok ProductForm named have "n \<noteq> [] \<and> 0 \<le> st \<and> 0 \<le> p"
    by (auto simp: product_form_ok_def)
  ultimately show ?thesis using ProductForm
    by (simp add: medico_rerun_def spec_step_def spec_add_product_def)
next
  case (SaleForm m q d)
  from dist SaleForm have "distinct (map med_name (products s))"
    by (simp add: medico_rerun_names)
  with ok SaleForm have r: "map_sum medico_err_abs medico_abs (add_sale s m q d) =
      spec_record_sale (medico_abs s) (product_id (products s) m) q d"
    by (intro add_sale_refines) simp_all
  show ?thesis
  proof (cases "add_sale s m q d")
    case (Inl err)
    with r [symmetric] SaleForm show ?thesis by (simp add: medico_rerun_def spec_step_def)
  next
    case (Inr s')
    with r [symmetric] SaleForm show ?thesis by (simp add: medico_rerun_def spec_step_def)
  qed
next
  case ViewOnly
  then show ?thesis by (simp add: medico_rerun_def)
qed

theorem medico_simulates_spec_witness:
  "medico_reachable paracetamol_stocked \<and>
   medico_event_ok paracetamol_stocked (SaleForm ''Paracetamol'' 5 0) \<and>
   distinct (map med_name (products (medico_rerun paracetamol_stocked (SaleForm ''Paracetamol'' 5 0)))) \<and>
   medico_abs (medico_rerun paracetamol_stocked (SaleForm ''Paracetamol'' 5 0)) =
     spec_step (medico_abs paracetamol_stocked) (OpRecordSale 0 5 0)"
proof -
  have r: "medico_reachable paracetamol_stocked" by (rule paracetamol_stocked_reachable)
  have ok: "medico_event_ok paracetamol_stocked (SaleForm ''Paracetamol'' 5 0)"
    by (simp add: sale_form_ok_def paracetamol_defs)
  have d: "distinct (map med_name (products (medico_rerun paracetamol_stocked (SaleForm ''Paracetamol'' 5 0))))"
    using paracetamol_sale by (simp add: medico_rerun_def paracetamol_sold_def)
  have n: "\<And>n st p x. SaleForm ''Paracetamol'' 5 0 = ProductForm n st p x \<Longrightarrow> n \<noteq> []" by simp
  have pid: "product_id (products paracetamol_stocked) ''Paracetamol'' = 0"
    by (simp add: product_id_def paracetamol_defs)
  from medico_simulates_spec [OF r ok d n] pid r ok d show ?thesis by simp
qed

theorem medipath_refines_catalog_sale_witness:
  "sale_entry_ok aspirin_twice ''Aspirin'' 4 \<and>
   first_index (\<lambda>r. prod_name r = ''Aspirin'') aspirin_twice = Some 0 \<and>
   map_sum medipath_err_abs medipath_abs (record_sale aspirin_twice ''Aspirin'' 4) =
     spec_catalog_sale (medipath_abs aspirin_twice) 0 4"
proof -
  have h1: "sale_entry_ok aspirin_twice ''Aspirin'' 4" by (simp add: sale_entry_ok_def aspirin_twice_def)
  have h2: "first_index (\<lambda>r. prod_name r = ''Aspirin'') aspirin_twice = Some 0"
    by (simp add: aspirin_twice_def)
  show ?thesis using h1 h2 medipath_refines_catalog_sale [OF h1 h2] by simp
qed

text \<open>C22: Refinement of the spec by Medimate over whole runs: for any sequence of form submissions the widgets allow that saves no product under an empty name, the abstraction of the Medimate table after the run is the catalog of the spec ledger after the corresponding AddProduct and RecordSale operations, each failed operation leaving it unchanged.\<close>

theorem medipath_simulates_spec_catalog:
  assumes "medipath_events_ok ps es" and "list_all named_save es"
  shows "medipath_abs (medipath_run ps es) =
         catalog (foldl spec_step \<lparr>catalog = medipath_abs ps, ledger_sales = []\<rparr> (medipath_ops ps es))"
  unfolding foldl_spec_step_catalog
  using assms
proof (induction es arbitrary: ps)
  case Nil
  then show ?case by simp
next
  case (Cons e es)
  then have step: "medipath_abs (medipath_rerun ps e) =
      (case medipath_op ps e of None \<Rightarrow> medipath_abs ps | Some op \<Rightarrow> catalog_step (medipath_abs ps) op)"
    by (intro medipath_rerun_abs) simp_all
  from Cons have "medipath_abs (medipath_run (medipath_rerun ps e) es) =
      foldl catalog_step (medipath_abs (medipath_rerun ps e)) (medipath_ops (medipath_rerun ps e) es)"
    by simp
  with step show ?case by (simp split: option.split)
qed

theorem medipath_simulates_spec_catalog_witness:
  "medipath_events_ok medipath_init pain_relief_run \<and> list_all named_save pain_relief_run \<and>
   medipath_abs (medipath_run medipath_init pain_relief_run) =
     catalog (foldl spec_step \<lparr>catalog = medipath_abs medipath_init, ledger_sales = []\<rparr>
                (medipath_ops medipath_init pain_relief_run))"
proof -
  have h: "medipath_events_ok medipath_init pain_relief_run" "list_all named_save pain_relief_run"
    by (simp_all add: pain_relief_run_def medipath_init_def medipath_rerun_def save_product_def
        save_form_ok_def sale_entry_ok_def)
  show ?thesis using h medipath_simulates_spec_catalog [OF h] by simp
qed

end
