(* ===== verification/Pages.thy ===== *)
theory Pages
  imports Medico Medipath
begin

text \<open>
  What the pages of both applications show.  Every run of a Streamlit script renders the
  page selected in the sidebar from the session state; the page code branches on whether
  the tables are empty and hands the tables, or selections and aggregates of them, to the
  widgets.  This theory models that branching and the data each page passes on; the layout,
  the texts and the drawing of charts are not modelled.
  \<^item> MediMate (\<open>src/medico.py\<close>): \<open>medico_dashboard\<close> (lines 34-59: three metrics and the Daily
    Sales Report, or "No sales data available"), \<open>add_sale_page\<close> (lines 87-101: "Add
    products first!" or the sale form whose selectbox offers the Medicine column),
    \<open>stock_expiry_page\<close> (lines 135-162: "No products available" or the product table with
    the near-expiry and low-stock tables), dispatched on the menu by \<open>medico_render\<close>.
  \<^item> Medimate (\<open>src/medipath.py\<close>): \<open>medipath_dashboard\<close> (lines 37-66: "No product data" or
    the two pie charts with the product table), \<open>sales_entry_page\<close> (lines 104-114: the
    warning or the selectbox over Product Name), \<open>expiry_alerts_page\<close> (lines 131-148: no
    products, "No products expiring within 30 days", or the table of expiring products),
    dispatched by \<open>medipath_render\<close>.
\<close>

section \<open>MediMate pages\<close>

datatype medico_page = MenuDashboard | MenuAddProduct | MenuAddSale | MenuStockExpiry

datatype sales_chart = NoSalesData | DailySalesReport "(date \<times> money) list"

record dashboard_view =
  total_sales_metric :: money
  items_sold_metric :: int
  products_metric :: nat
  sales_chart :: sales_chart

definition medico_dashboard :: "medico_state \<Rightarrow> dashboard_view" where
  "medico_dashboard s =
     (case dashboard_metrics s of (total_sales, total_items, total_products) \<Rightarrow>
        \<lparr>total_sales_metric = total_sales, items_sold_metric = total_items,
         products_metric = total_products,
         sales_chart = (if sales s = [] then NoSalesData
                        else DailySalesReport (sales_by_date (sales s)))\<rparr>)"

datatype sale_page = AddProductsFirst | SaleFormOffers "string list"

definition add_sale_page :: "medico_state \<Rightarrow> sale_page" where
  "add_sale_page s =
     (if products s = [] then AddProductsFirst else SaleFormOffers (map med_name (products s)))"

datatype stock_page = NoProductsInfo | StockTables "medicine list" "medicine list" "medicine list"

definition stock_expiry_page :: "date \<Rightarrow> medico_state \<Rightarrow> stock_page" where
  "stock_expiry_page today s =
     (if products s = [] then NoProductsInfo
      else StockTables (products s) (near_expiry today (products s)) (low_stock (products s)))"

datatype medico_screen =
    DashboardScreen dashboard_view
  | AddProductScreen
  | AddSaleScreen sale_page
  | StockExpiryScreen stock_page

fun medico_render :: "date \<Rightarrow> medico_state \<Rightarrow> medico_page \<Rightarrow> medico_screen" where
  "medico_render today s MenuDashboard = DashboardScreen (medico_dashboard s)"
| "medico_render today s MenuAddProduct = AddProductScreen"
| "medico_render today s MenuAddSale = AddSaleScreen (add_sale_page s)"
| "medico_render today s MenuStockExpiry = StockExpiryScreen (stock_expiry_page today s)"

section \<open>Medimate pages\<close>

datatype medipath_page = PageDashboard | PageProducts | PageSalesEntry | PageExpiryAlerts

datatype pie_dashboard =
    NoProductData
  | PieCharts "(string \<times> int) list" "(string \<times> int) list" "product list"

definition medipath_dashboard :: "medipath_state \<Rightarrow> pie_dashboard" where
  "medipath_dashboard ps =
     (if ps = [] then NoProductData
      else case dashboard_series ps of (sales_data, stock_data) \<Rightarrow> PieCharts sales_data stock_data ps)"

datatype sales_entry_page = NoProductsWarning | SaleWidgets "string list"

definition sales_entry_page :: "medipath_state \<Rightarrow> sales_entry_page" where
  "sales_entry_page ps = (if ps = [] then NoProductsWarning else SaleWidgets (map prod_name ps))"

datatype expiry_page = ExpiryNoProducts | NoneExpiring | ExpiringTable "product list"

definition expiry_alerts_page :: "date \<Rightarrow> medipath_state \<Rightarrow> expiry_page" where
  "expiry_alerts_page today ps =
     (if ps = [] then ExpiryNoProducts
      else let expiring = expiring_products today ps in
        if expiring = [] then NoneExpiring else ExpiringTable expiring)"

datatype medipath_screen =
    PieScreen pie_dashboard
  | ProductsScreen "product list"
  | SalesEntryScreen sales_entry_page
  | ExpiryScreen expiry_page

fun medipath_render :: "date \<Rightarrow> medipath_state \<Rightarrow> medipath_page \<Rightarrow> medipath_screen" where
  "medipath_render today ps PageDashboard = PieScreen (medipath_dashboard ps)"
| "medipath_render today ps PageProducts = ProductsScreen ps"
| "medipath_render today ps PageSalesEntry = SalesEntryScreen (sales_entry_page ps)"
| "medipath_render today ps PageExpiryAlerts = ExpiryScreen (expiry_alerts_page today ps)"

section \<open>Counting submissions\<close>

definition product_forms :: "medico_event list \<Rightarrow> nat" where
  "product_forms es = length (filter (\<lambda>e. case e of ProductForm _ _ _ _ \<Rightarrow> True | _ \<Rightarrow> False) es)"

section \<open>Lemmas\<close>

lemma add_sale_Inr_grows:
  "add_sale s m q d = Inr s' \<Longrightarrow>
   length (products s') = length (products s) \<and> (\<exists>x. sales s' = sales s @ [x])"
  by (auto simp: add_sale_Inr_iff)

lemma medico_rerun_sales_prefix: "prefix (sales s) (sales (medico_rerun s e))"
proof (cases e)
  case (SaleForm m q d)
  then show ?thesis
    by (cases "add_sale s m q d") (auto simp: medico_rerun_def dest: add_sale_Inr_grows)
qed (simp_all add: medico_rerun_def add_product_def)

lemma medico_run_sales_prefix: "prefix (sales s) (sales (medico_run s es))"
  by (induction es arbitrary: s) (auto intro: prefix_order.trans medico_rerun_sales_prefix)

lemma length_products_rerun:
  "length (products (medico_rerun s e)) =
     length (products s) + (case e of ProductForm _ _ _ _ \<Rightarrow> 1 | _ \<Rightarrow> 0)"
proof (cases e)
  case (SaleForm m q d)
  then show ?thesis
    by (cases "add_sale s m q d") (auto simp: medico_rerun_def dest: add_sale_Inr_grows)
qed (simp_all add: medico_rerun_def add_product_def)

lemma length_products_run:
  "length (products (medico_run s es)) = length (products s) + product_forms es"
  by (induction es arbitrary: s) (simp_all add: length_products_rerun product_forms_def split: medico_event.split)

lemma length_medipath_rerun:
  "length (medipath_rerun ps e) = length ps + length (stock_entered [e])"
proof (cases e)
  case (RecordSale m q)
  then show ?thesis
    by (cases "record_sale ps m q")
       (simp_all add: medipath_rerun_def record_sale_length stock_entered_def)
qed (simp_all add: medipath_rerun_def save_product_def stock_entered_def)

lemma length_medipath_run:
  "length (medipath_run ps es) = length ps + length (stock_entered es)"
proof (induction es arbitrary: ps)
  case Nil
  then show ?case by (simp add: stock_entered_def)
next
  case (Cons e es)
  have "stock_entered (e # es) = stock_entered [e] @ stock_entered es"
    by (simp add: stock_entered_def)
  with Cons show ?case by (simp add: length_medipath_rerun)
qed

lemma sales_by_date_dates: "fst ` set (sales_by_date ss) = sale_date ` set ss"
  by (simp add: sales_by_date_def image_image)

lemma sum_list_map_zero: "list_all (\<lambda>x. f x = 0) xs \<Longrightarrow> sum_list (map f xs) = 0"
  by (induction xs) simp_all

lemma medipath_run_no_sales:
  "list_all (\<lambda>e. case e of RecordSale _ _ \<Rightarrow> False | _ \<Rightarrow> True) es \<Longrightarrow>
   list_all (\<lambda>r. prod_total_sales r = 0) ps \<Longrightarrow>
   list_all (\<lambda>r. prod_total_sales r = 0) (medipath_run ps es)"
proof (induction es arbitrary: ps)
  case Nil
  then show ?case by simp
next
  case (Cons e es)
  then show ?case
    by (cases e) (simp_all add: medipath_rerun_def save_product_def)
qed

section \<open>Properties\<close>

text \<open>C20: The MediMate sales table is append-only, so the dashboard's Daily Sales Report, once shown, stays: after any further form submissions the old sales rows are a prefix of the new ones and the dashboard still shows the report, with every date it listed before.\<close>

theorem sales_report_persists:
  assumes "sales_chart (medico_dashboard s) = DailySalesReport pts"
  shows "prefix (sales s) (sales (medico_run s es)) \<and>
         (\<exists>pts'. sales_chart (medico_dashboard (medico_run s es)) = DailySalesReport pts' \<and>
                 set (map fst pts) \<subseteq> set (map fst pts'))"
proof -
  have pre: "prefix (sales s) (sales (medico_run s es))" by (rule medico_run_sales_prefix)
  from assms have ne: "sales s \<noteq> []" and pts: "pts = sales_by_date (sales s)"
    by (auto simp: medico_dashboard_def split: if_splits prod.splits)
  from pre ne have "sales (medico_run s es) \<noteq> []" by (auto simp: prefix_def)
  then have chart: "sales_chart (medico_dashboard (medico_run s es)) =
      DailySalesReport (sales_by_date (sales (medico_run s es)))"
    by (simp add: medico_dashboard_def split: prod.split)
  from pre have "set (sales s) \<subseteq> set (sales (medico_run s es))"
    by (rule set_mono_prefix)
  then have "fst ` set pts \<subseteq> fst ` set (sales_by_date (sales (medico_run s es)))"
    unfolding pts sales_by_date_dates by (rule image_mono)
  with pre chart show ?thesis by auto
qed

theorem sales_report_persists_witness:
  "sales_chart (medico_dashboard paracetamol_sold) = DailySalesReport [(0, 25)] \<and>
   prefix (sales paracetamol_sold) (sales (medico_run paracetamol_sold [ProductForm ''Ibuprofen'' 12 3 50])) \<and>
   (\<exists>pts'. sales_chart (medico_dashboard (medico_run paracetamol_sold [ProductForm ''Ibuprofen'' 12 3 50])) =
             DailySalesReport pts' \<and> set (map fst [(0::date, 25::money)]) \<subseteq> set (map fst pts'))"
proof -
  have h: "sales_chart (medico_dashboard paracetamol_sold) = DailySalesReport [(0, 25)]"
    by (simp add: medico_dashboard_def dashboard_metrics_def sales_by_date_def paracetamol_defs)
  show ?thesis using h sales_report_persists [OF h, of "[ProductForm ''Ibuprofen'' 12 3 50]"] by simp
qed

text \<open>The empty-table branches of both applications appear exactly while no product has been added: after any sequence of form submissions from the empty state, MediMate's Products metric counts the Add Product submissions, and its Add Sale warning and Stock page info appear exactly when there were none; Medimate's dashboard, Sales Entry and Expiry Alerts pages show their no-products branch exactly when no Save Product was submitted.  A rejected sale never removes a row.\<close>

theorem empty_pages_iff_no_products:
  "products_metric (medico_dashboard (medico_run medico_init es)) = product_forms es \<and>
   (add_sale_page (medico_run medico_init es) = AddProductsFirst \<longleftrightarrow> product_forms es = 0) \<and>
   (stock_expiry_page today (medico_run medico_init es) = NoProductsInfo \<longleftrightarrow> product_forms es = 0) \<and>
   (medipath_dashboard (medipath_run medipath_init fs) = NoProductData \<longleftrightarrow> stock_entered fs = []) \<and>
   (sales_entry_page (medipath_run medipath_init fs) = NoProductsWarning \<longleftrightarrow> stock_entered fs = []) \<and>
   (expiry_alerts_page today (medipath_run medipath_init fs) = ExpiryNoProducts \<longleftrightarrow> stock_entered fs = [])"
proof -
  have m: "length (products (medico_run medico_init es)) = product_forms es"
    using length_products_run [of medico_init es] by (simp add: medico_init_def)
  then have m0: "products (medico_run medico_init es) = [] \<longleftrightarrow> product_forms es = 0"
    by (metis length_0_conv)
  have "length (medipath_run medipath_init fs) = length (stock_entered fs)"
    using length_medipath_run [of medipath_init fs] by (simp add: medipath_init_def)
  then have p0: "medipath_run medipath_init fs = [] \<longleftrightarrow> stock_entered fs = []"
    by (metis length_0_conv)
  have "products_metric (medico_dashboard (medico_run medico_init es)) = product_forms es"
    using m by (simp add: medico_dashboard_def dashboard_metrics_def)
  moreover have "add_sale_page (medico_run medico_init es) = AddProductsFirst \<longleftrightarrow> product_forms es = 0"
    using m0 by (simp add: add_sale_page_def)
  moreover have "stock_expiry_page today (medico_run medico_init es) = NoProductsInfo \<longleftrightarrow> product_forms es = 0"
    using m0 by (simp add: stock_expiry_page_def)
  moreover have "medipath_dashboard (medipath_run medipath_init fs) = NoProductData \<longleftrightarrow> stock_entered fs = []"
    using p0 by (simp add: medipath_dashboard_def split: prod.split)
  moreover have "sales_entry_page (medipath_run medipath_init fs) = NoProductsWarning \<longleftrightarrow> stock_entered fs = []"
    using p0 by (simp add: sales_entry_page_def)
  moreover have "expiry_alerts_page today (medipath_run medipath_init fs) = ExpiryNoProducts \<longleftrightarrow> stock_entered fs = []"
    using p0 by (simp add: expiry_alerts_page_def Let_def)
  ultimately show ?thesis by blast
qed

text \<open>Until the first sale is recorded, the Total Sales pie of the Medimate dashboard has only zero wedges: after any non-empty sequence of Save Product submissions (and page views) the dashboard draws the sales pie over a series that is non-empty and sums to zero, a degenerate input for a pie chart that the code does not guard against.\<close>

theorem sales_pie_all_zero_before_first_sale:
  assumes "list_all (\<lambda>e. case e of RecordSale _ _ \<Rightarrow> False | _ \<Rightarrow> True) es"
    and "stock_entered es \<noteq> []"
  shows "\<exists>sd st. medipath_dashboard (medipath_run medipath_init es) =
                   PieCharts sd st (medipath_run medipath_init es) \<and>
                 sd \<noteq> [] \<and> list_all (\<lambda>w. snd w = 0) sd \<and> sum_list (map snd sd) = 0"
proof -
  let ?ps = "medipath_run medipath_init es"
  have z: "list_all (\<lambda>r. prod_total_sales r = 0) ?ps"
    using medipath_run_no_sales [OF assms(1)] by (simp add: medipath_init_def)
  have "length ?ps = length (stock_entered es)"
    using length_medipath_run [of medipath_init es] by (simp add: medipath_init_def)
  with assms(2) have ne: "?ps \<noteq> []" by auto
  have "sum_list (map prod_total_sales ?ps) = 0"
    using z by (rule sum_list_map_zero)
  with ne z show ?thesis
    by (simp add: medipath_dashboard_def dashboard_series_def list_all_iff o_def)
qed

theorem sales_pie_all_zero_before_first_sale_witness:
  "list_all (\<lambda>e. case e of RecordSale _ _ \<Rightarrow> False | _ \<Rightarrow> True) [SaveProduct ''Aspirin'' 10 1 40] \<and>
   stock_entered [SaveProduct ''Aspirin'' 10 1 40] \<noteq> [] \<and>
   medipath_dashboard (medipath_run medipath_init [SaveProduct ''Aspirin'' 10 1 40]) =
     PieCharts [(''Aspirin'', 0)] [(''Aspirin'', 10)] (medipath_run medipath_init [SaveProduct ''Aspirin'' 10 1 40])"
proof -
  have h: "list_all (\<lambda>e. case e of RecordSale _ _ \<Rightarrow> False | _ \<Rightarrow> True) [SaveProduct ''Aspirin'' 10 1 40]"
    "stock_entered [SaveProduct ''Aspirin'' 10 1 40] \<noteq> []"
    by (simp_all add: stock_entered_def)
  from sales_pie_all_zero_before_first_sale [OF h] h show ?thesis
    by (simp add: medipath_dashboard_def dashboard_series_def medipath_rerun_def save_product_def
        medipath_init_def)
qed

end
