(* ===== verification/MedipathSessions.thy ===== *)
theory MedipathSessions
  imports Medipath
begin

text \<open>
  Medimate's Record Sale handler (\<open>src/medipath.py\<close>, lines 116-126) as the three statements
  that touch the table: the read phase finds \<open>idx\<close>, the first row of the selected name, and
  checks its Stock (lines 117-121, \<open>record_read\<close>); then \<open>.at[idx, "Stock"] -= quantity_sold\<close>
  (line 122, \<open>record_take_stock\<close>) and \<open>.at[idx, "Total Sales"] += quantity_sold\<close> (line 123,
  \<open>record_add_total\<close>), each a read-modify-write of the current value.  Within one session
  the three are adjacent and make up \<open>record_sale\<close>.  \<open>table_step\<close> interleaves the phases of
  several pending sales on one shared table, as in \<open>Sessions\<close> for MediMate.
\<close>

datatype record_pc =
    RIdle
  | RApproved nat
  | RStockTaken nat
  | RRejected medipath_error
  | RFinished

record record_thread =
  rt_product :: string
  rt_quantity :: int
  rt_pc :: record_pc

record shared_table =
  rows :: medipath_state
  sellers :: "record_thread list"

definition record_read :: "medipath_state \<Rightarrow> string \<Rightarrow> int \<Rightarrow> record_pc" where
  "record_read ps product quantity_sold =
     (if ps = [] then RRejected NoProductsAvailable
      else case first_index (\<lambda>r. prod_name r = product) ps of
        None \<Rightarrow> RRejected NoSuchProduct
      | Some idx \<Rightarrow>
          (if prod_stock (ps ! idx) \<ge> quantity_sold then RApproved idx
           else RRejected NotEnoughStockAvailable))"

definition record_take_stock :: "medipath_state \<Rightarrow> int \<Rightarrow> nat \<Rightarrow> medipath_state" where
  "record_take_stock ps quantity_sold idx =
     ps[idx := (ps ! idx)\<lparr>prod_stock := prod_stock (ps ! idx) - quantity_sold\<rparr>]"

definition record_add_total :: "medipath_state \<Rightarrow> int \<Rightarrow> nat \<Rightarrow> medipath_state" where
  "record_add_total ps quantity_sold idx =
     ps[idx := (ps ! idx)\<lparr>prod_total_sales := prod_total_sales (ps ! idx) + quantity_sold\<rparr>]"

inductive table_step :: "shared_table \<Rightarrow> shared_table \<Rightarrow> bool" where
  check_phase: "i < length (sellers c) \<Longrightarrow> rt_pc (sellers c ! i) = RIdle \<Longrightarrow>
     table_step c (c\<lparr>sellers := (sellers c)[i := (sellers c ! i)\<lparr>rt_pc :=
        record_read (rows c) (rt_product (sellers c ! i)) (rt_quantity (sellers c ! i))\<rparr>]\<rparr>)"
| stock_phase: "i < length (sellers c) \<Longrightarrow> rt_pc (sellers c ! i) = RApproved idx \<Longrightarrow>
     table_step c \<lparr>rows = record_take_stock (rows c) (rt_quantity (sellers c ! i)) idx,
                   sellers = (sellers c)[i := (sellers c ! i)\<lparr>rt_pc := RStockTaken idx\<rparr>]\<rparr>"
| total_phase: "i < length (sellers c) \<Longrightarrow> rt_pc (sellers c ! i) = RStockTaken idx \<Longrightarrow>
     table_step c \<lparr>rows = record_add_total (rows c) (rt_quantity (sellers c ! i)) idx,
                   sellers = (sellers c)[i := (sellers c ! i)\<lparr>rt_pc := RFinished\<rparr>]\<rparr>"

definition pending_record :: "string \<Rightarrow> int \<Rightarrow> record_thread" where
  "pending_record m q = \<lparr>rt_product = m, rt_quantity = q, rt_pc = RIdle\<rparr>"

definition table_units :: "medipath_state \<Rightarrow> int" where
  "table_units ps = sum_list (map (\<lambda>r. prod_stock r + prod_total_sales r) ps)"

definition in_flight :: "record_thread \<Rightarrow> int" where
  "in_flight t = (case rt_pc t of RStockTaken _ \<Rightarrow> rt_quantity t | _ \<Rightarrow> 0)"

fun index_of :: "record_pc \<Rightarrow> nat option" where
  "index_of (RApproved idx) = Some idx"
| "index_of (RStockTaken idx) = Some idx"
| "index_of _ = None"

definition index_below :: "nat \<Rightarrow> record_thread \<Rightarrow> bool" where
  "index_below n t \<longleftrightarrow> (case index_of (rt_pc t) of Some idx \<Rightarrow> idx < n | None \<Rightarrow> True)"

definition indices_ok :: "shared_table \<Rightarrow> bool" where
  "indices_ok c \<longleftrightarrow> list_all (index_below (length (rows c))) (sellers c)"

definition insulin_table :: medipath_state where
  "insulin_table =
     [\<lparr>prod_name = ''Insulin'', prod_stock = 10, prod_price = 5, prod_expiry = 100, prod_total_sales = 0\<rparr>]"

section \<open>Lemmas\<close>

lemma index_of_read:
  "index_of (record_read ps m q) = Some idx \<Longrightarrow> idx < length ps"
  by (auto simp: record_read_def first_index_Some_lt split: if_splits option.splits)

lemma length_take_stock [simp]: "length (record_take_stock ps q idx) = length ps"
  by (simp add: record_take_stock_def)

lemma length_add_total [simp]: "length (record_add_total ps q idx) = length ps"
  by (simp add: record_add_total_def)

lemma table_units_take_stock:
  "idx < length ps \<Longrightarrow> table_units (record_take_stock ps q idx) = table_units ps - q"
  by (simp add: table_units_def record_take_stock_def sum_list_map_list_update)

lemma table_units_add_total:
  "idx < length ps \<Longrightarrow> table_units (record_add_total ps q idx) = table_units ps + q"
  by (simp add: table_units_def record_add_total_def sum_list_map_list_update)

lemma in_flight_update:
  "i < length ts \<Longrightarrow>
   sum_list (map in_flight (ts[i := t])) + in_flight (ts ! i) = sum_list (map in_flight ts) + in_flight t"
  by (rule sum_list_map_update_add)

lemma indices_ok_update:
  "indices_ok c \<Longrightarrow> length ps = length (rows c) \<Longrightarrow>
   index_below (length ps) t \<Longrightarrow> indices_ok \<lparr>rows = ps, sellers = (sellers c)[i := t]\<rparr>"
  unfolding indices_ok_def by (simp add: list_all_list_update_keep)

lemma indices_ok_nth:
  "indices_ok c \<Longrightarrow> i < length (sellers c) \<Longrightarrow> index_of (rt_pc (sellers c ! i)) = Some idx \<Longrightarrow>
   idx < length (rows c)"
  unfolding indices_ok_def list_all_length index_below_def by (drule spec [of _ i]) simp

lemma sellers_update_conv: "c\<lparr>sellers := x\<rparr> = \<lparr>rows = rows c, sellers = x\<rparr>"
  by (cases c) simp

lemma record_read_not_taken: "in_flight (t\<lparr>rt_pc := record_read ps m q\<rparr>) = 0"
  by (simp add: in_flight_def record_read_def split: option.split)

lemma index_below_read: "index_below (length ps) (t\<lparr>rt_pc := record_read ps m q\<rparr>)"
  by (auto simp: index_below_def dest: index_of_read split: option.split)

lemma table_step_conserves:
  assumes "table_step c c'" and "indices_ok c"
  shows "indices_ok c' \<and>
         table_units (rows c') + sum_list (map in_flight (sellers c')) =
         table_units (rows c) + sum_list (map in_flight (sellers c))"
  using assms
proof (induction rule: table_step.induct)
  case (check_phase i c)
  let ?t = "sellers c ! i"
  let ?u = "?t\<lparr>rt_pc := record_read (rows c) (rt_product ?t) (rt_quantity ?t)\<rparr>"
  have "indices_ok \<lparr>rows = rows c, sellers = (sellers c)[i := ?u]\<rparr>"
    by (intro indices_ok_update [OF check_phase.prems]) (simp_all add: index_below_read)
  moreover have "in_flight ?t = 0" using check_phase.hyps(2) by (simp add: in_flight_def)
  moreover have "in_flight ?u = 0" by (rule record_read_not_taken)
  ultimately show ?case
    using in_flight_update [OF check_phase.hyps(1), of ?u] by (simp add: sellers_update_conv)
next
  case (stock_phase i c idx)
  let ?t = "sellers c ! i"
  have lt: "idx < length (rows c)"
    using indices_ok_nth [OF stock_phase.prems stock_phase.hyps(1)] stock_phase.hyps(2) by simp
  have "indices_ok \<lparr>rows = record_take_stock (rows c) (rt_quantity ?t) idx,
                    sellers = (sellers c)[i := ?t\<lparr>rt_pc := RStockTaken idx\<rparr>]\<rparr>"
    using stock_phase.prems lt by (intro indices_ok_update) (simp_all add: index_below_def)
  moreover have "in_flight ?t = 0" "in_flight (?t\<lparr>rt_pc := RStockTaken idx\<rparr>) = rt_quantity ?t"
    using stock_phase.hyps(2) by (simp_all add: in_flight_def)
  ultimately show ?case
    using in_flight_update [OF stock_phase.hyps(1), of "?t\<lparr>rt_pc := RStockTaken idx\<rparr>"]
      table_units_take_stock [OF lt, of "rt_quantity ?t"]
    by simp
next
  case (total_phase i c idx)
  let ?t = "sellers c ! i"
  have lt: "idx < length (rows c)"
    using indices_ok_nth [OF total_phase.prems total_phase.hyps(1)] total_phase.hyps(2) by simp
  have "indices_ok \<lparr>rows = record_add_total (rows c) (rt_quantity ?t) idx,
                    sellers = (sellers c)[i := ?t\<lparr>rt_pc := RFinished\<rparr>]\<rparr>"
    using total_phase.prems lt by (intro indices_ok_update) (simp_all add: index_below_def)
  moreover have "in_flight ?t = rt_quantity ?t" "in_flight (?t\<lparr>rt_pc := RFinished\<rparr>) = 0"
    using total_phase.hyps(2) by (simp_all add: in_flight_def)
  ultimately show ?case
    using in_flight_update [OF total_phase.hyps(1), of "?t\<lparr>rt_pc := RFinished\<rparr>"]
      table_units_add_total [OF lt, of "rt_quantity ?t"]
    by simp
qed

lemma table_step_check_at:
  "i < length (sellers c) \<Longrightarrow> rt_pc (sellers c ! i) = RIdle \<Longrightarrow>
   c' = c\<lparr>sellers := (sellers c)[i := (sellers c ! i)\<lparr>rt_pc :=
        record_read (rows c) (rt_product (sellers c ! i)) (rt_quantity (sellers c ! i))\<rparr>]\<rparr> \<Longrightarrow>
   table_step c c'"
  by (simp add: table_step.check_phase)

lemma table_step_stock_at:
  "i < length (sellers c) \<Longrightarrow> rt_pc (sellers c ! i) = RApproved idx \<Longrightarrow>
   c' = \<lparr>rows = record_take_stock (rows c) (rt_quantity (sellers c ! i)) idx,
         sellers = (sellers c)[i := (sellers c ! i)\<lparr>rt_pc := RStockTaken idx\<rparr>]\<rparr> \<Longrightarrow>
   table_step c c'"
  by (simp add: table_step.stock_phase)

lemma table_step_total_at:
  "i < length (sellers c) \<Longrightarrow> rt_pc (sellers c ! i) = RStockTaken idx \<Longrightarrow>
   c' = \<lparr>rows = record_add_total (rows c) (rt_quantity (sellers c ! i)) idx,
         sellers = (sellers c)[i := (sellers c ! i)\<lparr>rt_pc := RFinished\<rparr>]\<rparr> \<Longrightarrow>
   table_step c c'"
  by (simp add: table_step.total_phase)

text \<open>Both sellers pass the check against stock 10 and both take 6 from it.\<close>

lemma insulin_race_stock_taken:
  "table_step\<^sup>*\<^sup>* \<lparr>rows = insulin_table, sellers = [pending_record ''Insulin'' 6, pending_record ''Insulin'' 6]\<rparr>
     \<lparr>rows = [\<lparr>prod_name = ''Insulin'', prod_stock = -2, prod_price = 5, prod_expiry = 100, prod_total_sales = 0\<rparr>],
      sellers = [(pending_record ''Insulin'' 6)\<lparr>rt_pc := RStockTaken 0\<rparr>,
                 (pending_record ''Insulin'' 6)\<lparr>rt_pc := RStockTaken 0\<rparr>]\<rparr>"
proof -
  define t where "t = pending_record ''Insulin'' 6"
  define p where "p = \<lparr>prod_name = ''Insulin'', prod_stock = 10, prod_price = 5, prod_expiry = (100::date),
                       prod_total_sales = 0\<rparr>"
  have tf: "rt_product t = ''Insulin''" "rt_quantity t = 6" "rt_pc t = RIdle"
    by (simp_all add: t_def pending_record_def)
  have rd: "record_read [p] ''Insulin'' 6 = RApproved 0" by (simp add: record_read_def p_def)
  have s1: "table_step \<lparr>rows = [p], sellers = [t, t]\<rparr> \<lparr>rows = [p], sellers = [t\<lparr>rt_pc := RApproved 0\<rparr>, t]\<rparr>"
    by (rule table_step_check_at [where i = 0]) (simp_all add: tf rd sellers_update_conv)
  have s2: "table_step \<lparr>rows = [p], sellers = [t\<lparr>rt_pc := RApproved 0\<rparr>, t]\<rparr>
      \<lparr>rows = [p], sellers = [t\<lparr>rt_pc := RApproved 0\<rparr>, t\<lparr>rt_pc := RApproved 0\<rparr>]\<rparr>"
    by (rule table_step_check_at [where i = 1]) (simp_all add: tf rd sellers_update_conv)
  have s3: "table_step \<lparr>rows = [p], sellers = [t\<lparr>rt_pc := RApproved 0\<rparr>, t\<lparr>rt_pc := RApproved 0\<rparr>]\<rparr>
      \<lparr>rows = [p\<lparr>prod_stock := 4\<rparr>], sellers = [t\<lparr>rt_pc := RStockTaken 0\<rparr>, t\<lparr>rt_pc := RApproved 0\<rparr>]\<rparr>"
    by (rule table_step_stock_at [where i = 0 and idx = 0]) (simp_all add: tf record_take_stock_def p_def)
  have s4: "table_step \<lparr>rows = [p\<lparr>prod_stock := 4\<rparr>], sellers = [t\<lparr>rt_pc := RStockTaken 0\<rparr>, t\<lparr>rt_pc := RApproved 0\<rparr>]\<rparr>
      \<lparr>rows = [p\<lparr>prod_stock := -2\<rparr>], sellers = [t\<lparr>rt_pc := RStockTaken 0\<rparr>, t\<lparr>rt_pc := RStockTaken 0\<rparr>]\<rparr>"
    by (rule table_step_stock_at [where i = 1 and idx = 0]) (simp_all add: tf record_take_stock_def p_def)
  have "table_step\<^sup>*\<^sup>* \<lparr>rows = [p], sellers = [t, t]\<rparr>
      \<lparr>rows = [p\<lparr>prod_stock := -2\<rparr>], sellers = [t\<lparr>rt_pc := RStockTaken 0\<rparr>, t\<lparr>rt_pc := RStockTaken 0\<rparr>]\<rparr>"
    using s1 s2 s3 s4 by (meson rtranclp.rtrancl_into_rtrancl rtranclp.rtrancl_refl)
  then show ?thesis by (simp add: insulin_table_def p_def t_def)
qed

section \<open>Properties\<close>

text \<open>C23: Medimate's Record Sale is not atomic either: if two sales of 6 units run on one shared table holding Insulin with stock 10, both checks can pass before either update, and the four read-modify-write updates leave Stock -2 and Total Sales 12.\<close>

theorem medipath_interleaved_oversell:
  "\<exists>c. table_step\<^sup>*\<^sup>* \<lparr>rows = insulin_table,
                       sellers = [pending_record ''Insulin'' 6, pending_record ''Insulin'' 6]\<rparr> c \<and>
       map prod_stock (rows c) = [-2] \<and> map prod_total_sales (rows c) = [12] \<and>
       map rt_pc (sellers c) = [RFinished, RFinished]"
proof -
  define t where "t = pending_record ''Insulin'' 6"
  define p where "p = \<lparr>prod_name = ''Insulin'', prod_stock = -2, prod_price = 5, prod_expiry = (100::date),
                       prod_total_sales = 0\<rparr>"
  have q: "rt_quantity t = 6" by (simp add: t_def pending_record_def)
  have s5: "table_step \<lparr>rows = [p], sellers = [t\<lparr>rt_pc := RStockTaken 0\<rparr>, t\<lparr>rt_pc := RStockTaken 0\<rparr>]\<rparr>
      \<lparr>rows = [p\<lparr>prod_total_sales := 6\<rparr>], sellers = [t\<lparr>rt_pc := RFinished\<rparr>, t\<lparr>rt_pc := RStockTaken 0\<rparr>]\<rparr>"
    by (rule table_step_total_at [where i = 0 and idx = 0]) (simp_all add: q record_add_total_def p_def)
  have s6: "table_step \<lparr>rows = [p\<lparr>prod_total_sales := 6\<rparr>], sellers = [t\<lparr>rt_pc := RFinished\<rparr>, t\<lparr>rt_pc := RStockTaken 0\<rparr>]\<rparr>
      \<lparr>rows = [p\<lparr>prod_total_sales := 12\<rparr>], sellers = [t\<lparr>rt_pc := RFinished\<rparr>, t\<lparr>rt_pc := RFinished\<rparr>]\<rparr>"
    by (rule table_step_total_at [where i = 1 and idx = 0]) (simp_all add: q record_add_total_def p_def)
  have "table_step\<^sup>*\<^sup>* \<lparr>rows = insulin_table, sellers = [t, t]\<rparr>
      \<lparr>rows = [p\<lparr>prod_total_sales := 12\<rparr>], sellers = [t\<lparr>rt_pc := RFinished\<rparr>, t\<lparr>rt_pc := RFinished\<rparr>]\<rparr>"
    using insulin_race_stock_taken s5 s6 unfolding t_def p_def
    by (meson rtranclp.rtrancl_into_rtrancl)
  then show ?thesis unfolding t_def p_def by fastforce
qed

end
