(* ===== verification/MedipathLock.thy ===== *)
theory MedipathLock
  imports MedipathSessions
begin

text \<open>
  The serialisation the spec (section 5) asks for, applied to Medimate's Record Sale: under
  \<open>locked_table_step\<close> a sale may run its check phase (lines 117-121 of \<open>src/medipath.py\<close>)
  only while no other sale is between its check and its Total Sales update (lines 122-123).
  \<open>table_lock_inv\<close> is the invariant of the lock: non-negative counts, indices within the
  table, every approved sale covered by the Stock of its row, at most one sale in progress.
  Under the lock only the lock holder touches the table, so it does not matter that each
  \<open>.at[idx, col] -= q\<close> is modelled as one step.
\<close>

definition busy :: "record_thread \<Rightarrow> bool" where
  "busy t \<longleftrightarrow> index_of (rt_pc t) \<noteq> None"

inductive locked_table_step :: "shared_table \<Rightarrow> shared_table \<Rightarrow> bool" where
  lock_check: "list_all (\<lambda>t. \<not> busy t) (sellers c) \<Longrightarrow>
     i < length (sellers c) \<Longrightarrow> rt_pc (sellers c ! i) = RIdle \<Longrightarrow>
     locked_table_step c (c\<lparr>sellers := (sellers c)[i := (sellers c ! i)\<lparr>rt_pc :=
        record_read (rows c) (rt_product (sellers c ! i)) (rt_quantity (sellers c ! i))\<rparr>]\<rparr>)"
| lock_stock: "i < length (sellers c) \<Longrightarrow> rt_pc (sellers c ! i) = RApproved idx \<Longrightarrow>
     locked_table_step c \<lparr>rows = record_take_stock (rows c) (rt_quantity (sellers c ! i)) idx,
                   sellers = (sellers c)[i := (sellers c ! i)\<lparr>rt_pc := RStockTaken idx\<rparr>]\<rparr>"
| lock_total: "i < length (sellers c) \<Longrightarrow> rt_pc (sellers c ! i) = RStockTaken idx \<Longrightarrow>
     locked_table_step c \<lparr>rows = record_add_total (rows c) (rt_quantity (sellers c ! i)) idx,
                   sellers = (sellers c)[i := (sellers c ! i)\<lparr>rt_pc := RFinished\<rparr>]\<rparr>"

definition covered :: "medipath_state \<Rightarrow> record_thread \<Rightarrow> bool" where
  "covered ps t \<longleftrightarrow>
     1 \<le> rt_quantity t \<and>
     (case rt_pc t of RApproved idx \<Rightarrow> rt_quantity t \<le> prod_stock (ps ! idx) | _ \<Rightarrow> True)"

definition table_lock_inv :: "shared_table \<Rightarrow> bool" where
  "table_lock_inv c \<longleftrightarrow>
     counts_nonneg (rows c) \<and> indices_ok c \<and> list_all (covered (rows c)) (sellers c) \<and>
     at_most_one busy (sellers c)"

section \<open>Lemmas\<close>

lemma record_read_Approved:
  "record_read ps m q = RApproved idx \<Longrightarrow> q \<le> prod_stock (ps ! idx)"
  by (auto simp: record_read_def split: if_splits option.splits)

lemma covered_idle: "covered ps t \<Longrightarrow> \<not> busy t \<Longrightarrow> covered ps' t"
  by (auto simp: covered_def busy_def split: record_pc.splits)

lemma covered_others:
  assumes "list_all (covered ps) ts" and "at_most_one busy ts" and "i < length ts" and "busy (ts ! i)"
    and "covered ps' t"
  shows "list_all (covered ps') (ts[i := t])"
  unfolding list_all_length
proof (intro allI impI)
  fix j
  assume "j < length (ts[i := t])"
  then have j: "j < length ts" by simp
  show "covered ps' (ts[i := t] ! j)"
  proof (cases "j = i")
    case True
    with assms(5) j show ?thesis by simp
  next
    case False
    from assms(1) j have "covered ps (ts ! j)" by (simp add: list_all_length)
    moreover have "\<not> busy (ts ! j)" using at_most_one_others [OF assms(2,3,4) j False] .
    ultimately have "covered ps' (ts ! j)" by (rule covered_idle)
    with False show ?thesis by simp
  qed
qed

lemma counts_nonneg_take_stock:
  "counts_nonneg ps \<Longrightarrow> idx < length ps \<Longrightarrow> q \<le> prod_stock (ps ! idx) \<Longrightarrow>
   counts_nonneg (record_take_stock ps q idx)"
  unfolding counts_nonneg_def record_take_stock_def
  by (rule list_all_list_update_keep) (auto simp: list_all_length)

lemma counts_nonneg_add_total:
  "counts_nonneg ps \<Longrightarrow> idx < length ps \<Longrightarrow> 0 \<le> q \<Longrightarrow> counts_nonneg (record_add_total ps q idx)"
  unfolding counts_nonneg_def record_add_total_def
  by (rule list_all_list_update_keep) (auto simp: list_all_length)

lemma busy_simps [simp]:
  "busy (t\<lparr>rt_pc := RApproved idx\<rparr>)" "busy (t\<lparr>rt_pc := RStockTaken idx\<rparr>)"
  "\<not> busy (t\<lparr>rt_pc := RFinished\<rparr>)"
  by (simp_all add: busy_def)

lemma covered_read:
  "covered ps t \<Longrightarrow> covered ps (t\<lparr>rt_pc := record_read ps (rt_product t) (rt_quantity t)\<rparr>)"
  by (auto simp: covered_def dest: record_read_Approved split: record_pc.split)

lemma locked_table_step_inv:
  assumes "locked_table_step c c'" and "table_lock_inv c"
  shows "table_lock_inv c'"
  using assms
proof (induction rule: locked_table_step.induct)
  case (lock_check c i)
  let ?t = "sellers c ! i"
  let ?u = "?t\<lparr>rt_pc := record_read (rows c) (rt_product ?t) (rt_quantity ?t)\<rparr>"
  from lock_check.prems have "indices_ok (c\<lparr>sellers := (sellers c)[i := ?u]\<rparr>)"
    using table_step_conserves [OF table_step.check_phase [OF lock_check.hyps(2,3)]]
    by (simp add: table_lock_inv_def)
  moreover have "covered (rows c) ?u"
    using lock_check.prems lock_check.hyps(2) by (intro covered_read) (simp add: table_lock_inv_def list_all_length)
  ultimately show ?case using lock_check.prems lock_check.hyps
    by (simp add: table_lock_inv_def sellers_update_conv list_all_list_update_keep at_most_one_update_from_none
       )
next
  case (lock_stock i c idx)
  let ?t = "sellers c ! i"
  have lt: "idx < length (rows c)"
    using lock_stock.prems indices_ok_nth [of c i idx] lock_stock.hyps by (simp add: table_lock_inv_def)
  have cov: "covered (rows c) ?t" using lock_stock.prems lock_stock.hyps(1)
    by (simp add: table_lock_inv_def list_all_length)
  then have q: "rt_quantity ?t \<le> prod_stock (rows c ! idx)" "1 \<le> rt_quantity ?t"
    using lock_stock.hyps(2) by (simp_all add: covered_def)
  have bi: "busy ?t" using lock_stock.hyps(2) by (simp add: busy_def)
  have "indices_ok \<lparr>rows = record_take_stock (rows c) (rt_quantity ?t) idx,
                    sellers = (sellers c)[i := ?t\<lparr>rt_pc := RStockTaken idx\<rparr>]\<rparr>"
    using table_step_conserves [OF table_step.stock_phase [OF lock_stock.hyps]] lock_stock.prems
    by (simp add: table_lock_inv_def)
  moreover have "counts_nonneg (record_take_stock (rows c) (rt_quantity ?t) idx)"
    using lock_stock.prems lt q by (intro counts_nonneg_take_stock) (simp_all add: table_lock_inv_def)
  moreover have "list_all (covered (record_take_stock (rows c) (rt_quantity ?t) idx))
      ((sellers c)[i := ?t\<lparr>rt_pc := RStockTaken idx\<rparr>])"
    using lock_stock.prems lock_stock.hyps(1) bi q(2)
    by (intro covered_others [where ps = "rows c"]) (simp_all add: table_lock_inv_def covered_def)
  moreover have "at_most_one busy ((sellers c)[i := ?t\<lparr>rt_pc := RStockTaken idx\<rparr>])"
    using lock_stock.prems lock_stock.hyps(1) bi
    by (intro at_most_one_update_holder) (simp_all add: table_lock_inv_def)
  ultimately show ?case by (simp add: table_lock_inv_def)
next
  case (lock_total i c idx)
  let ?t = "sellers c ! i"
  have lt: "idx < length (rows c)"
    using lock_total.prems indices_ok_nth [of c i idx] lock_total.hyps by (simp add: table_lock_inv_def)
  have q: "1 \<le> rt_quantity ?t" using lock_total.prems lock_total.hyps(1)
    by (simp add: table_lock_inv_def list_all_length covered_def)
  have bi: "busy ?t" using lock_total.hyps(2) by (simp add: busy_def)
  have "indices_ok \<lparr>rows = record_add_total (rows c) (rt_quantity ?t) idx,
                    sellers = (sellers c)[i := ?t\<lparr>rt_pc := RFinished\<rparr>]\<rparr>"
    using table_step_conserves [OF table_step.total_phase [OF lock_total.hyps]] lock_total.prems
    by (simp add: table_lock_inv_def)
  moreover have "counts_nonneg (record_add_total (rows c) (rt_quantity ?t) idx)"
    using lock_total.prems lt q by (intro counts_nonneg_add_total) (simp_all add: table_lock_inv_def)
  moreover have "list_all (covered (record_add_total (rows c) (rt_quantity ?t) idx))
      ((sellers c)[i := ?t\<lparr>rt_pc := RFinished\<rparr>])"
    using lock_total.prems lock_total.hyps(1) bi q
    by (intro covered_others [where ps = "rows c"]) (simp_all add: table_lock_inv_def covered_def)
  moreover have "at_most_one busy ((sellers c)[i := ?t\<lparr>rt_pc := RFinished\<rparr>])"
    using lock_total.prems lock_total.hyps(1) bi
    by (intro at_most_one_update_holder) (simp_all add: table_lock_inv_def)
  ultimately show ?case by (simp add: table_lock_inv_def)
qed

lemma locked_table_reach_inv:
  "locked_table_step\<^sup>*\<^sup>* c0 c \<Longrightarrow> table_lock_inv c0 \<Longrightarrow> table_lock_inv c"
  by (induction rule: rtranclp_induct) (auto intro: locked_table_step_inv)

lemma idle_lock_inv:
  assumes "list_all (\<lambda>t. rt_pc t = RIdle \<and> 1 \<le> rt_quantity t) (sellers c0)" and "counts_nonneg (rows c0)"
  shows "table_lock_inv c0"
proof -
  from assms(1) have "list_all (\<lambda>t. \<not> busy t) (sellers c0)" "list_all (covered (rows c0)) (sellers c0)"
    "list_all (index_below (length (rows c0))) (sellers c0)"
    by (auto simp: list_all_iff covered_def index_below_def busy_def)
  moreover have "at_most_one busy (sellers c0)"
    using calculation(1) by (auto simp: at_most_one_def list_all_length)
  ultimately show ?thesis using assms(2) by (simp add: table_lock_inv_def indices_ok_def)
qed

lemma locked_table_step_check_at:
  "list_all (\<lambda>t. \<not> busy t) (sellers c) \<Longrightarrow> i < length (sellers c) \<Longrightarrow> rt_pc (sellers c ! i) = RIdle \<Longrightarrow>
   c' = c\<lparr>sellers := (sellers c)[i := (sellers c ! i)\<lparr>rt_pc :=
        record_read (rows c) (rt_product (sellers c ! i)) (rt_quantity (sellers c ! i))\<rparr>]\<rparr> \<Longrightarrow>
   locked_table_step c c'"
  by (simp add: locked_table_step.lock_check)

lemma locked_table_step_stock_at:
  "i < length (sellers c) \<Longrightarrow> rt_pc (sellers c ! i) = RApproved idx \<Longrightarrow>
   c' = \<lparr>rows = record_take_stock (rows c) (rt_quantity (sellers c ! i)) idx,
         sellers = (sellers c)[i := (sellers c ! i)\<lparr>rt_pc := RStockTaken idx\<rparr>]\<rparr> \<Longrightarrow>
   locked_table_step c c'"
  by (simp add: locked_table_step.lock_stock)

lemma locked_table_step_total_at:
  "i < length (sellers c) \<Longrightarrow> rt_pc (sellers c ! i) = RStockTaken idx \<Longrightarrow>
   c' = \<lparr>rows = record_add_total (rows c) (rt_quantity (sellers c ! i)) idx,
         sellers = (sellers c)[i := (sellers c ! i)\<lparr>rt_pc := RFinished\<rparr>]\<rparr> \<Longrightarrow>
   locked_table_step c c'"
  by (simp add: locked_table_step.lock_total)

section \<open>Properties\<close>

text \<open>C24: Serialised Record Sales never oversell: if a sale may only run its stock check while no other sale is between its check and its Total Sales update, then from idle sales of at least one unit on a table with non-negative counts, every reachable shared table keeps Stock and Total Sales non-negative, duplicate names included.\<close>

theorem locked_record_sales_keep_stock:
  assumes "locked_table_step\<^sup>*\<^sup>* c0 c"
    and "list_all (\<lambda>t. rt_pc t = RIdle \<and> 1 \<le> rt_quantity t) (sellers c0)"
    and "counts_nonneg (rows c0)"
  shows "counts_nonneg (rows c)"
  using locked_table_reach_inv [OF assms(1) idle_lock_inv [OF assms(2,3)]]
  by (simp add: table_lock_inv_def)

theorem locked_record_sales_keep_stock_witness:
  "locked_table_step\<^sup>*\<^sup>* \<lparr>rows = insulin_table, sellers = [pending_record ''Insulin'' 6, pending_record ''Insulin'' 6]\<rparr>
     \<lparr>rows = [\<lparr>prod_name = ''Insulin'', prod_stock = 4, prod_price = 5, prod_expiry = 100, prod_total_sales = 6\<rparr>],
      sellers = [(pending_record ''Insulin'' 6)\<lparr>rt_pc := RFinished\<rparr>,
                 (pending_record ''Insulin'' 6)\<lparr>rt_pc := RRejected NotEnoughStockAvailable\<rparr>]\<rparr> \<and>
   list_all (\<lambda>t. rt_pc t = RIdle \<and> 1 \<le> rt_quantity t) [pending_record ''Insulin'' 6, pending_record ''Insulin'' 6] \<and>
   counts_nonneg insulin_table \<and>
   counts_nonneg [\<lparr>prod_name = ''Insulin'', prod_stock = 4, prod_price = 5, prod_expiry = (100::date), prod_total_sales = 6\<rparr>]"
proof -
  define t where "t = pending_record ''Insulin'' 6"
  define p where "p = \<lparr>prod_name = ''Insulin'', prod_stock = 10, prod_price = 5, prod_expiry = (100::date),
                       prod_total_sales = 0\<rparr>"
  have tf: "rt_product t = ''Insulin''" "rt_quantity t = 6" "rt_pc t = RIdle"
    by (simp_all add: t_def pending_record_def)
  have rd: "record_read [p] ''Insulin'' 6 = RApproved 0" by (simp add: record_read_def p_def)
  have rd2: "record_read [p\<lparr>prod_stock := 4, prod_total_sales := 6\<rparr>] ''Insulin'' 6 = RRejected NotEnoughStockAvailable"
    by (simp add: record_read_def p_def)
  have s1: "locked_table_step \<lparr>rows = [p], sellers = [t, t]\<rparr> \<lparr>rows = [p], sellers = [t\<lparr>rt_pc := RApproved 0\<rparr>, t]\<rparr>"
    by (rule locked_table_step_check_at [where i = 0]) (simp_all add: tf rd sellers_update_conv busy_def)
  have s2: "locked_table_step \<lparr>rows = [p], sellers = [t\<lparr>rt_pc := RApproved 0\<rparr>, t]\<rparr>
      \<lparr>rows = [p\<lparr>prod_stock := 4\<rparr>], sellers = [t\<lparr>rt_pc := RStockTaken 0\<rparr>, t]\<rparr>"
    by (rule locked_table_step_stock_at [where i = 0 and idx = 0]) (simp_all add: tf record_take_stock_def p_def)
  have s3: "locked_table_step \<lparr>rows = [p\<lparr>prod_stock := 4\<rparr>], sellers = [t\<lparr>rt_pc := RStockTaken 0\<rparr>, t]\<rparr>
      \<lparr>rows = [p\<lparr>prod_stock := 4, prod_total_sales := 6\<rparr>], sellers = [t\<lparr>rt_pc := RFinished\<rparr>, t]\<rparr>"
    by (rule locked_table_step_total_at [where i = 0 and idx = 0]) (simp_all add: tf record_add_total_def p_def)
  have s4: "locked_table_step \<lparr>rows = [p\<lparr>prod_stock := 4, prod_total_sales := 6\<rparr>], sellers = [t\<lparr>rt_pc := RFinished\<rparr>, t]\<rparr>
      \<lparr>rows = [p\<lparr>prod_stock := 4, prod_total_sales := 6\<rparr>],
       sellers = [t\<lparr>rt_pc := RFinished\<rparr>, t\<lparr>rt_pc := RRejected NotEnoughStockAvailable\<rparr>]\<rparr>"
    by (rule locked_table_step_check_at [where i = 1]) (simp_all add: tf rd2 sellers_update_conv busy_def)
  have run: "locked_table_step\<^sup>*\<^sup>* \<lparr>rows = insulin_table, sellers = [t, t]\<rparr>
      \<lparr>rows = [p\<lparr>prod_stock := 4, prod_total_sales := 6\<rparr>],
       sellers = [t\<lparr>rt_pc := RFinished\<rparr>, t\<lparr>rt_pc := RRejected NotEnoughStockAvailable\<rparr>]\<rparr>"
    unfolding insulin_table_def p_def [symmetric]
    using s1 s2 s3 s4 by (meson rtranclp.rtrancl_into_rtrancl rtranclp.rtrancl_refl)
  have h: "list_all (\<lambda>t. rt_pc t = RIdle \<and> 1 \<le> rt_quantity t)
      (sellers \<lparr>rows = insulin_table, sellers = [t, t]\<rparr>)"
    "counts_nonneg (rows \<lparr>rows = insulin_table, sellers = [t, t]\<rparr>)"
    by (simp_all add: tf insulin_table_def counts_nonneg_def)
  from locked_record_sales_keep_stock [OF run h] h run show ?thesis
    by (simp add: t_def p_def)
qed

end
