(* ===== verification/Sessions.thy ===== *)
theory Sessions
  imports Medico
begin

text \<open>
  The Add Sale handler of \<open>src/medico.py\<close> as the two phases its statements form.  The read
  phase (lines 103-109) takes a snapshot \<open>product\<close> of the first row of the selected name and
  decides on that snapshot; the write phase (lines 110-130) appends a sale priced from the
  snapshot and then decrements the Stock of the rows of that name as they are at that
  moment (\<open>-= quantity\<close> reads the current value).  Streamlit runs one script at a time per
  session, so within one session the two phases are adjacent and the handler is
  \<open>add_sale\<close>.  The spec (section 5) asks what happens when callers share the tables:
  \<open>conc_step\<close> interleaves the phases of several pending sales on one shared state, and
  \<open>locked_step\<close> restricts it by a lock: a sale takes its snapshot only while no other sale
  holds an approved one.  \<open>approved_ok\<close> and \<open>lock_inv\<close> are the invariants of the two.
\<close>

datatype sale_pc = Idle | Approved medicine | Rejected medico_error | Finished

record sale_thread =
  thr_medicine :: string
  thr_quantity :: int
  thr_day :: date
  thr_pc :: sale_pc

record conc_state =
  shared :: medico_state
  threads :: "sale_thread list"

definition sale_read :: "medico_state \<Rightarrow> string \<Rightarrow> int \<Rightarrow> sale_pc" where
  "sale_read s medicine quantity =
     (if products s = [] then Rejected NoProducts
      else case filter (\<lambda>r. med_name r = medicine) (products s) of
        [] \<Rightarrow> Rejected NoSuchRow
      | product # _ \<Rightarrow>
          (if quantity > med_stock product then Rejected NotEnoughStock else Approved product))"

definition sale_write :: "medico_state \<Rightarrow> string \<Rightarrow> int \<Rightarrow> date \<Rightarrow> medicine \<Rightarrow> medico_state" where
  "sale_write s medicine quantity day product =
     (let total_price = of_int quantity * med_price product;
          new_sale = \<lparr>sale_medicine = medicine, sale_quantity = quantity,
                      sale_total = total_price, sale_date = day\<rparr>;
          s1 = s\<lparr>sales := sales s @ [new_sale]\<rparr>
      in s1\<lparr>products := update_where (\<lambda>r. med_name r = medicine)
                          (\<lambda>r. r\<lparr>med_stock := med_stock r - quantity\<rparr>) (products s1)\<rparr>)"

inductive conc_step :: "conc_state \<Rightarrow> conc_state \<Rightarrow> bool" where
  read_phase: "i < length (threads c) \<Longrightarrow> thr_pc (threads c ! i) = Idle \<Longrightarrow>
     conc_step c (c\<lparr>threads := (threads c)[i := (threads c ! i)\<lparr>thr_pc :=
        sale_read (shared c) (thr_medicine (threads c ! i)) (thr_quantity (threads c ! i))\<rparr>]\<rparr>)"
| write_phase: "i < length (threads c) \<Longrightarrow> thr_pc (threads c ! i) = Approved p \<Longrightarrow>
     conc_step c \<lparr>shared = sale_write (shared c) (thr_medicine (threads c ! i))
                            (thr_quantity (threads c ! i)) (thr_day (threads c ! i)) p,
                  threads = (threads c)[i := (threads c ! i)\<lparr>thr_pc := Finished\<rparr>]\<rparr>"

definition pending_sale :: "string \<Rightarrow> int \<Rightarrow> date \<Rightarrow> sale_thread" where
  "pending_sale m q d = \<lparr>thr_medicine = m, thr_quantity = q, thr_day = d, thr_pc = Idle\<rparr>"

definition ten_in_stock :: medico_state where
  "ten_in_stock = add_product medico_init ''Insulin'' 10 5 100"

definition thread_ok :: "sale_thread \<Rightarrow> bool" where
  "thread_ok t \<longleftrightarrow>
     (case thr_pc t of
        Approved p \<Rightarrow> med_name p = thr_medicine t \<and> thr_quantity t \<le> med_stock p
      | _ \<Rightarrow> True)"

definition approved_ok :: "conc_state \<Rightarrow> bool" where
  "approved_ok c \<longleftrightarrow> list_all thread_ok (threads c)"

definition no_approved :: "sale_thread list \<Rightarrow> bool" where
  "no_approved ts \<longleftrightarrow> list_all (\<lambda>t. case thr_pc t of Approved p \<Rightarrow> False | _ \<Rightarrow> True) ts"

inductive locked_step :: "conc_state \<Rightarrow> conc_state \<Rightarrow> bool" where
  lock_read: "no_approved (threads c) \<Longrightarrow> i < length (threads c) \<Longrightarrow> thr_pc (threads c ! i) = Idle \<Longrightarrow>
     locked_step c (c\<lparr>threads := (threads c)[i := (threads c ! i)\<lparr>thr_pc :=
        sale_read (shared c) (thr_medicine (threads c ! i)) (thr_quantity (threads c ! i))\<rparr>]\<rparr>)"
| lock_write: "i < length (threads c) \<Longrightarrow> thr_pc (threads c ! i) = Approved p \<Longrightarrow>
     locked_step c \<lparr>shared = sale_write (shared c) (thr_medicine (threads c ! i))
                            (thr_quantity (threads c ! i)) (thr_day (threads c ! i)) p,
                  threads = (threads c)[i := (threads c ! i)\<lparr>thr_pc := Finished\<rparr>]\<rparr>"

fun approved_rows :: "sale_thread list \<Rightarrow> medicine list" where
  "approved_rows [] = []"
| "approved_rows (t # ts) =
     (case thr_pc t of Approved p \<Rightarrow> p # approved_rows ts | _ \<Rightarrow> approved_rows ts)"

definition lock_inv :: "conc_state \<Rightarrow> bool" where
  "lock_inv c \<longleftrightarrow>
     distinct (map med_name (products (shared c))) \<and> stock_nonneg (products (shared c)) \<and>
     length (approved_rows (threads c)) \<le> 1 \<and>
     set (approved_rows (threads c)) \<subseteq> set (products (shared c))"

section \<open>Lemmas\<close>

lemma sale_read_Approved:
  assumes "sale_read s m q = Approved p"
  shows "med_name p = m \<and> q \<le> med_stock p \<and> p \<in> set (products s)"
proof -
  obtain rs where f: "filter (\<lambda>r. med_name r = m) (products s) = p # rs"
    and q: "q \<le> med_stock p"
    using assms by (auto simp: sale_read_def split: if_splits list.splits)
  then have "p \<in> set (filter (\<lambda>r. med_name r = m) (products s))" by simp
  with q show ?thesis by simp
qed

lemma thread_ok_read:
  "thread_ok (t\<lparr>thr_pc := sale_read s (thr_medicine t) (thr_quantity t)\<rparr>)"
  by (auto simp: thread_ok_def dest: sale_read_Approved split: sale_pc.split)

lemma conc_step_approved_ok:
  "conc_step c c' \<Longrightarrow> approved_ok c \<Longrightarrow> approved_ok c'"
  by (induction rule: conc_step.induct)
     (simp_all add: approved_ok_def list_all_list_update_keep thread_ok_read,
      simp add: list_all_list_update_keep thread_ok_def)

lemma approved_ok_nth:
  "approved_ok c \<Longrightarrow> i < length (threads c) \<Longrightarrow> thr_pc (threads c ! i) = Approved p \<Longrightarrow>
   med_name p = thr_medicine (threads c ! i) \<and> thr_quantity (threads c ! i) \<le> med_stock p"
  unfolding approved_ok_def list_all_length thread_ok_def by (drule spec [of _ i]) simp

lemma conc_reach_approved_ok:
  "conc_step\<^sup>*\<^sup>* c0 c \<Longrightarrow> approved_ok c0 \<Longrightarrow> approved_ok c"
  by (induction rule: rtranclp_induct) (auto intro: conc_step_approved_ok)

lemma products_sale_write:
  "products (sale_write s m q d p) =
     update_where (\<lambda>r. med_name r = m) (\<lambda>r. r\<lparr>med_stock := med_stock r - q\<rparr>) (products s)"
  by (simp add: sale_write_def Let_def)

lemma conc_step_read_at:
  "i < length (threads c) \<Longrightarrow> thr_pc (threads c ! i) = Idle \<Longrightarrow>
   c' = c\<lparr>threads := (threads c)[i := (threads c ! i)\<lparr>thr_pc :=
        sale_read (shared c) (thr_medicine (threads c ! i)) (thr_quantity (threads c ! i))\<rparr>]\<rparr> \<Longrightarrow>
   conc_step c c'"
  by (simp add: conc_step.read_phase)

lemma conc_step_write_at:
  "i < length (threads c) \<Longrightarrow> thr_pc (threads c ! i) = Approved p \<Longrightarrow>
   c' = \<lparr>shared = sale_write (shared c) (thr_medicine (threads c ! i))
                    (thr_quantity (threads c ! i)) (thr_day (threads c ! i)) p,
         threads = (threads c)[i := (threads c ! i)\<lparr>thr_pc := Finished\<rparr>]\<rparr> \<Longrightarrow>
   conc_step c c'"
  by (simp add: conc_step.write_phase)

lemma locked_step_conc_step: "locked_step c c' \<Longrightarrow> conc_step c c'"
  by (induction rule: locked_step.induct) (auto intro: conc_step.intros)

lemma no_approved_rows: "no_approved ts \<longleftrightarrow> approved_rows ts = []"
  by (induction ts) (auto simp: no_approved_def split: sale_pc.splits)

lemma approved_rows_update_none:
  "approved_rows ts = [] \<Longrightarrow> i < length ts \<Longrightarrow> approved_rows (ts[i := t]) = approved_rows [t]"
proof (induction ts arbitrary: i)
  case Nil
  then show ?case by simp
next
  case (Cons u ts)
  then show ?case
    by (cases i) (auto split: sale_pc.splits if_splits)
qed

lemma approved_rows_nth:
  "i < length ts \<Longrightarrow> thr_pc (ts ! i) = Approved p \<Longrightarrow> p \<in> set (approved_rows ts)"
proof (induction ts arbitrary: i)
  case Nil
  then show ?case by simp
next
  case (Cons u ts)
  then show ?case
    by (cases i) (auto split: sale_pc.splits)
qed

lemma approved_rows_update_single:
  "length (approved_rows ts) \<le> 1 \<Longrightarrow> i < length ts \<Longrightarrow> thr_pc (ts ! i) = Approved p \<Longrightarrow>
   thr_pc t = Finished \<Longrightarrow> approved_rows (ts[i := t]) = []"
proof (induction ts arbitrary: i)
  case Nil
  then show ?case by simp
next
  case (Cons u ts)
  show ?case
  proof (cases i)
    case 0
    with Cons.prems show ?thesis by simp
  next
    case (Suc k)
    with Cons.prems have "p \<in> set (approved_rows ts)" by (simp add: approved_rows_nth)
    with Cons.prems have "\<forall>q. thr_pc u \<noteq> Approved q" by auto
    with Cons.prems Suc show ?thesis by (auto intro: Cons.IH split: sale_pc.splits)
  qed
qed

lemma fresh_decrement_nonneg:
  assumes dist: "distinct (map med_name ps)" and nonneg: "stock_nonneg ps"
    and fresh: "p \<in> set ps" and nm: "med_name p = m" and q: "q \<le> med_stock p"
  shows "stock_nonneg (update_where (\<lambda>r. med_name r = m) (\<lambda>r. r\<lparr>med_stock := med_stock r - q\<rparr>) ps)"
proof -
  from fresh obtain k where k: "k < length ps" and pk: "ps ! k = p"
    by (auto simp: in_set_conv_nth)
  have upd: "update_where (\<lambda>r. med_name r = m) (\<lambda>r. r\<lparr>med_stock := med_stock r - q\<rparr>) ps =
      ps[k := p\<lparr>med_stock := med_stock p - q\<rparr>]"
    using update_where_distinct_map [OF dist k] pk nm by simp
  have "0 \<le> med_stock (p\<lparr>med_stock := med_stock p - q\<rparr>)" using q by simp
  with nonneg show ?thesis
    unfolding upd stock_nonneg_def by (rule list_all_list_update_keep)
qed

lemma names_sale_write [simp]:
  "map med_name (products (sale_write s m q d p)) = map med_name (products s)"
  by (simp add: products_sale_write map_update_where_inv)

lemma approved_rows_read:
  "set (approved_rows [t\<lparr>thr_pc := sale_read s m q\<rparr>]) \<subseteq> set (products s) \<and>
   length (approved_rows [t\<lparr>thr_pc := sale_read s m q\<rparr>]) \<le> 1"
  by (cases "sale_read s m q") (simp_all add: sale_read_Approved)

lemma locked_step_lock_inv:
  assumes "locked_step c c'" and "approved_ok c" and "lock_inv c"
  shows "lock_inv c'"
  using assms
proof (induction rule: locked_step.induct)
  case (lock_read c i)
  then have "approved_rows (threads c) = []" by (simp add: no_approved_rows)
  with lock_read.hyps lock_read.prems show ?case
    using approved_rows_read
    by (simp add: lock_inv_def approved_rows_update_none del: approved_rows.simps)
next
  case (lock_write i c p)
  let ?t = "threads c ! i"
  from lock_write.hyps have "p \<in> set (approved_rows (threads c))" by (rule approved_rows_nth)
  with lock_write.prems have fresh: "p \<in> set (products (shared c))" by (auto simp: lock_inv_def)
  from approved_ok_nth [OF lock_write.prems(1) lock_write.hyps]
  have "med_name p = thr_medicine ?t" and "thr_quantity ?t \<le> med_stock p" by simp_all
  with fresh lock_write.prems
  have "stock_nonneg (products (sale_write (shared c) (thr_medicine ?t) (thr_quantity ?t) (thr_day ?t) p))"
    unfolding products_sale_write lock_inv_def by (blast intro: fresh_decrement_nonneg)
  moreover have "approved_rows ((threads c)[i := ?t\<lparr>thr_pc := Finished\<rparr>]) = []"
    using lock_write.prems lock_write.hyps by (intro approved_rows_update_single) (simp_all add: lock_inv_def)
  ultimately show ?case using lock_write.prems by (simp add: lock_inv_def)
qed

lemma locked_reach_inv:
  "locked_step\<^sup>*\<^sup>* c0 c \<Longrightarrow> approved_ok c0 \<and> lock_inv c0 \<Longrightarrow> approved_ok c \<and> lock_inv c"
  by (induction rule: rtranclp_induct)
     (auto intro: locked_step_lock_inv conc_step_approved_ok locked_step_conc_step)

lemma idle_threads:
  "list_all (\<lambda>t. thr_pc t = Idle) ts \<Longrightarrow> approved_rows ts = [] \<and> list_all thread_ok ts"
  by (induction ts) (simp_all add: thread_ok_def)

lemma locked_step_read_at:
  "no_approved (threads c) \<Longrightarrow> i < length (threads c) \<Longrightarrow> thr_pc (threads c ! i) = Idle \<Longrightarrow>
   c' = c\<lparr>threads := (threads c)[i := (threads c ! i)\<lparr>thr_pc :=
        sale_read (shared c) (thr_medicine (threads c ! i)) (thr_quantity (threads c ! i))\<rparr>]\<rparr> \<Longrightarrow>
   locked_step c c'"
  by (simp add: locked_step.lock_read)

lemma locked_step_write_at:
  "i < length (threads c) \<Longrightarrow> thr_pc (threads c ! i) = Approved p \<Longrightarrow>
   c' = \<lparr>shared = sale_write (shared c) (thr_medicine (threads c ! i))
                    (thr_quantity (threads c ! i)) (thr_day (threads c ! i)) p,
         threads = (threads c)[i := (threads c ! i)\<lparr>thr_pc := Finished\<rparr>]\<rparr> \<Longrightarrow>
   locked_step c c'"
  by (simp add: locked_step.lock_write)

section \<open>Properties\<close>

text \<open>C14: MediMate's check-then-write is not atomic: if two Add Sale calls of 6 units share one table holding a single product with stock 10 (unique name), both read phases can approve against the stale stock before either writes, and the two writes leave stock -2 with both sales recorded.\<close>

theorem interleaved_sales_oversell:
  "\<exists>c. conc_step\<^sup>*\<^sup>* \<lparr>shared = ten_in_stock,
                      threads = [pending_sale ''Insulin'' 6 0, pending_sale ''Insulin'' 6 0]\<rparr> c \<and>
       map med_stock (products (shared c)) = [-2] \<and> length (sales (shared c)) = 2 \<and>
       map thr_pc (threads c) = [Finished, Finished]"
proof -
  define p where "p = \<lparr>med_name = ''Insulin'', med_stock = 10, med_price = 5, med_expiry = 100\<rparr>"
  define x where "x = \<lparr>sale_medicine = ''Insulin'', sale_quantity = 6, sale_total = 30, sale_date = 0\<rparr>"
  define t where "t = pending_sale ''Insulin'' 6 0"
  have sh: "ten_in_stock = \<lparr>products = [p], sales = []\<rparr>"
    by (simp add: ten_in_stock_def add_product_def medico_init_def p_def)
  have rd: "sale_read \<lparr>products = [p], sales = []\<rparr> ''Insulin'' 6 = Approved p"
    by (simp add: sale_read_def p_def)
  have w1: "sale_write \<lparr>products = [p], sales = []\<rparr> ''Insulin'' 6 0 p =
      \<lparr>products = [p\<lparr>med_stock := 4\<rparr>], sales = [x]\<rparr>"
    by (simp add: sale_write_def p_def x_def)
  have w2: "sale_write \<lparr>products = [p\<lparr>med_stock := 4\<rparr>], sales = [x]\<rparr> ''Insulin'' 6 0 p =
      \<lparr>products = [p\<lparr>med_stock := -2\<rparr>], sales = [x, x]\<rparr>"
    by (simp add: sale_write_def p_def x_def)
  have tf: "thr_medicine t = ''Insulin''" "thr_quantity t = 6" "thr_day t = 0" "thr_pc t = Idle"
    by (simp_all add: t_def pending_sale_def)
  have s1: "conc_step \<lparr>shared = \<lparr>products = [p], sales = []\<rparr>, threads = [t, t]\<rparr>
                      \<lparr>shared = \<lparr>products = [p], sales = []\<rparr>, threads = [t\<lparr>thr_pc := Approved p\<rparr>, t]\<rparr>"
    by (rule conc_step_read_at [where i = 0]) (simp_all add: tf rd)
  have s2: "conc_step \<lparr>shared = \<lparr>products = [p], sales = []\<rparr>, threads = [t\<lparr>thr_pc := Approved p\<rparr>, t]\<rparr>
                      \<lparr>shared = \<lparr>products = [p], sales = []\<rparr>,
                       threads = [t\<lparr>thr_pc := Approved p\<rparr>, t\<lparr>thr_pc := Approved p\<rparr>]\<rparr>"
    by (rule conc_step_read_at [where i = 1]) (simp_all add: tf rd)
  have s3: "conc_step \<lparr>shared = \<lparr>products = [p], sales = []\<rparr>,
                       threads = [t\<lparr>thr_pc := Approved p\<rparr>, t\<lparr>thr_pc := Approved p\<rparr>]\<rparr>
                      \<lparr>shared = \<lparr>products = [p\<lparr>med_stock := 4\<rparr>], sales = [x]\<rparr>,
                       threads = [t\<lparr>thr_pc := Finished\<rparr>, t\<lparr>thr_pc := Approved p\<rparr>]\<rparr>"
    by (rule conc_step_write_at [where i = 0 and p = p]) (simp_all add: tf w1)
  have s4: "conc_step \<lparr>shared = \<lparr>products = [p\<lparr>med_stock := 4\<rparr>], sales = [x]\<rparr>,
                       threads = [t\<lparr>thr_pc := Finished\<rparr>, t\<lparr>thr_pc := Approved p\<rparr>]\<rparr>
                      \<lparr>shared = \<lparr>products = [p\<lparr>med_stock := -2\<rparr>], sales = [x, x]\<rparr>,
                       threads = [t\<lparr>thr_pc := Finished\<rparr>, t\<lparr>thr_pc := Finished\<rparr>]\<rparr>"
    by (rule conc_step_write_at [where i = 1 and p = p]) (simp_all add: tf w2)
  have "conc_step\<^sup>*\<^sup>* \<lparr>shared = ten_in_stock, threads = [t, t]\<rparr>
      \<lparr>shared = \<lparr>products = [p\<lparr>med_stock := -2\<rparr>], sales = [x, x]\<rparr>,
       threads = [t\<lparr>thr_pc := Finished\<rparr>, t\<lparr>thr_pc := Finished\<rparr>]\<rparr>"
    unfolding sh using s1 s2 s3 s4 by (meson rtranclp.rtrancl_into_rtrancl rtranclp.rtrancl_refl)
  then show ?thesis unfolding t_def by fastforce
qed

text \<open>C16: The oversell of C14 needs a stale snapshot.  In every interleaving started from idle sales, a write whose approved snapshot row is still a row of the shared table (no write has touched it since the read), on a table with unique names and non-negative stock, leaves every stock non-negative: the read phase's check is sound for a fresh snapshot.\<close>

theorem fresh_write_keeps_stock:
  assumes run: "conc_step\<^sup>*\<^sup>* c0 c" and idle: "list_all (\<lambda>t. thr_pc t = Idle) (threads c0)"
    and i: "i < length (threads c)" and pc: "thr_pc (threads c ! i) = Approved p"
    and fresh: "p \<in> set (products (shared c))"
    and dist: "distinct (map med_name (products (shared c)))"
    and nonneg: "stock_nonneg (products (shared c))"
  shows "stock_nonneg (products (sale_write (shared c) (thr_medicine (threads c ! i))
           (thr_quantity (threads c ! i)) (thr_day (threads c ! i)) p))"
proof -
  have "approved_ok c0" using idle_threads [OF idle] by (simp add: approved_ok_def)
  with run have "approved_ok c" by (rule conc_reach_approved_ok)
  from approved_ok_nth [OF this i pc] have nm: "med_name p = thr_medicine (threads c ! i)"
    and q: "thr_quantity (threads c ! i) \<le> med_stock p" by simp_all
  from dist nonneg fresh nm q show ?thesis
    unfolding products_sale_write by (rule fresh_decrement_nonneg)
qed

theorem fresh_write_keeps_stock_witness:
  "conc_step\<^sup>*\<^sup>* \<lparr>shared = ten_in_stock, threads = [pending_sale ''Insulin'' 6 0]\<rparr>
      \<lparr>shared = ten_in_stock, threads = [(pending_sale ''Insulin'' 6 0)\<lparr>thr_pc :=
         Approved \<lparr>med_name = ''Insulin'', med_stock = 10, med_price = 5, med_expiry = 100\<rparr>\<rparr>]\<rparr> \<and>
   list_all (\<lambda>t. thr_pc t = Idle) [pending_sale ''Insulin'' 6 0] \<and>
   \<lparr>med_name = ''Insulin'', med_stock = 10, med_price = 5, med_expiry = 100\<rparr> \<in> set (products ten_in_stock) \<and>
   distinct (map med_name (products ten_in_stock)) \<and> stock_nonneg (products ten_in_stock) \<and>
   stock_nonneg (products (sale_write ten_in_stock ''Insulin'' 6 0
      \<lparr>med_name = ''Insulin'', med_stock = 10, med_price = 5, med_expiry = 100\<rparr>))"
proof -
  define p where "p = \<lparr>med_name = ''Insulin'', med_stock = 10, med_price = 5, med_expiry = (100::date)\<rparr>"
  define t where "t = pending_sale ''Insulin'' 6 0"
  have sh: "ten_in_stock = \<lparr>products = [p], sales = []\<rparr>"
    by (simp add: ten_in_stock_def add_product_def medico_init_def p_def)
  have tf: "thr_medicine t = ''Insulin''" "thr_quantity t = 6" "thr_day t = 0" "thr_pc t = Idle"
    by (simp_all add: t_def pending_sale_def)
  have rd: "sale_read ten_in_stock ''Insulin'' 6 = Approved p"
    by (simp add: sh sale_read_def p_def)
  have st: "conc_step \<lparr>shared = ten_in_stock, threads = [t]\<rparr>
      \<lparr>shared = ten_in_stock, threads = [t\<lparr>thr_pc := Approved p\<rparr>]\<rparr>"
    by (rule conc_step_read_at [where i = 0]) (simp_all add: tf rd)
  then have run: "conc_step\<^sup>*\<^sup>* \<lparr>shared = ten_in_stock, threads = [t]\<rparr>
      \<lparr>shared = ten_in_stock, threads = [t\<lparr>thr_pc := Approved p\<rparr>]\<rparr>" by simp
  have facts: "list_all (\<lambda>t. thr_pc t = Idle) [t]" "p \<in> set (products ten_in_stock)"
    "distinct (map med_name (products ten_in_stock))" "stock_nonneg (products ten_in_stock)"
    by (simp_all add: tf sh p_def stock_nonneg_def)
  have "stock_nonneg (products (sale_write ten_in_stock ''Insulin'' 6 0 p))"
    using fresh_write_keeps_stock [OF run _ _ _ _ _ _, of 0 p] facts tf by simp
  with run facts show ?thesis by (simp add: p_def t_def)
qed

text \<open>C17: Serialised sales never oversell.  If a sale may only take its snapshot while no other sale holds an approved snapshot (a lock around the check-then-write of lines 103-130), then every shared state reachable from idle sales on a table with unique names and non-negative stock keeps the names unique and every stock non-negative.\<close>

theorem locked_sales_keep_stock:
  assumes "locked_step\<^sup>*\<^sup>* c0 c" and "list_all (\<lambda>t. thr_pc t = Idle) (threads c0)"
    and "distinct (map med_name (products (shared c0)))" and "stock_nonneg (products (shared c0))"
  shows "distinct (map med_name (products (shared c))) \<and> stock_nonneg (products (shared c))"
proof -
  from idle_threads [OF assms(2)] have "approved_rows (threads c0) = []" and "approved_ok c0"
    by (simp_all add: approved_ok_def)
  with assms(3,4) have "approved_ok c0 \<and> lock_inv c0" by (simp add: lock_inv_def)
  with assms(1) have "approved_ok c \<and> lock_inv c" by (rule locked_reach_inv)
  then show ?thesis by (simp add: lock_inv_def)
qed

theorem locked_sales_keep_stock_witness:
  "locked_step\<^sup>*\<^sup>* \<lparr>shared = ten_in_stock,
                       threads = [pending_sale ''Insulin'' 6 0, pending_sale ''Insulin'' 6 0]\<rparr>
      \<lparr>shared = \<lparr>products = [\<lparr>med_name = ''Insulin'', med_stock = 4, med_price = 5, med_expiry = 100\<rparr>],
                  sales = [\<lparr>sale_medicine = ''Insulin'', sale_quantity = 6, sale_total = 30, sale_date = 0\<rparr>]\<rparr>,
       threads = [(pending_sale ''Insulin'' 6 0)\<lparr>thr_pc := Finished\<rparr>,
                  (pending_sale ''Insulin'' 6 0)\<lparr>thr_pc := Rejected NotEnoughStock\<rparr>]\<rparr> \<and>
   distinct (map med_name (products ten_in_stock)) \<and> stock_nonneg (products ten_in_stock) \<and>
   stock_nonneg [\<lparr>med_name = ''Insulin'', med_stock = 4, med_price = 5, med_expiry = (100::date)\<rparr>]"
proof -
  define p where "p = \<lparr>med_name = ''Insulin'', med_stock = 10, med_price = 5, med_expiry = (100::date)\<rparr>"
  define x where "x = \<lparr>sale_medicine = ''Insulin'', sale_quantity = 6, sale_total = 30, sale_date = (0::date)\<rparr>"
  define t where "t = pending_sale ''Insulin'' 6 0"
  have sh: "ten_in_stock = \<lparr>products = [p], sales = []\<rparr>"
    by (simp add: ten_in_stock_def add_product_def medico_init_def p_def)
  have tf: "thr_medicine t = ''Insulin''" "thr_quantity t = 6" "thr_day t = 0" "thr_pc t = Idle"
    by (simp_all add: t_def pending_sale_def)
  have rd: "sale_read \<lparr>products = [p], sales = []\<rparr> ''Insulin'' 6 = Approved p"
    by (simp add: sale_read_def p_def)
  have rd2: "sale_read \<lparr>products = [p\<lparr>med_stock := 4\<rparr>], sales = [x]\<rparr> ''Insulin'' 6 = Rejected NotEnoughStock"
    by (simp add: sale_read_def p_def)
  have w1: "sale_write \<lparr>products = [p], sales = []\<rparr> ''Insulin'' 6 0 p =
      \<lparr>products = [p\<lparr>med_stock := 4\<rparr>], sales = [x]\<rparr>"
    by (simp add: sale_write_def p_def x_def)
  have s1: "locked_step \<lparr>shared = \<lparr>products = [p], sales = []\<rparr>, threads = [t, t]\<rparr>
                        \<lparr>shared = \<lparr>products = [p], sales = []\<rparr>, threads = [t\<lparr>thr_pc := Approved p\<rparr>, t]\<rparr>"
    by (rule locked_step_read_at [where i = 0]) (simp_all add: tf rd no_approved_def)
  have s2: "locked_step \<lparr>shared = \<lparr>products = [p], sales = []\<rparr>, threads = [t\<lparr>thr_pc := Approved p\<rparr>, t]\<rparr>
                        \<lparr>shared = \<lparr>products = [p\<lparr>med_stock := 4\<rparr>], sales = [x]\<rparr>,
                         threads = [t\<lparr>thr_pc := Finished\<rparr>, t]\<rparr>"
    by (rule locked_step_write_at [where i = 0 and p = p]) (simp_all add: tf w1)
  have s3: "locked_step \<lparr>shared = \<lparr>products = [p\<lparr>med_stock := 4\<rparr>], sales = [x]\<rparr>,
                         threads = [t\<lparr>thr_pc := Finished\<rparr>, t]\<rparr>
                        \<lparr>shared = \<lparr>products = [p\<lparr>med_stock := 4\<rparr>], sales = [x]\<rparr>,
                         threads = [t\<lparr>thr_pc := Finished\<rparr>, t\<lparr>thr_pc := Rejected NotEnoughStock\<rparr>]\<rparr>"
    by (rule locked_step_read_at [where i = 1]) (simp_all add: tf rd2 no_approved_def)
  have run: "locked_step\<^sup>*\<^sup>* \<lparr>shared = ten_in_stock, threads = [t, t]\<rparr>
      \<lparr>shared = \<lparr>products = [p\<lparr>med_stock := 4\<rparr>], sales = [x]\<rparr>,
       threads = [t\<lparr>thr_pc := Finished\<rparr>, t\<lparr>thr_pc := Rejected NotEnoughStock\<rparr>]\<rparr>"
    unfolding sh using s1 s2 s3 by (meson rtranclp.rtrancl_into_rtrancl rtranclp.rtrancl_refl)
  have hyps: "list_all (\<lambda>t. thr_pc t = Idle) [t, t]"
    "distinct (map med_name (products ten_in_stock))" "stock_nonneg (products ten_in_stock)"
    by (simp_all add: tf sh p_def stock_nonneg_def)
  from locked_sales_keep_stock [OF run] hyps
  have "stock_nonneg [p\<lparr>med_stock := 4\<rparr>]" by simp
  with run hyps show ?thesis by (simp add: p_def x_def t_def)
qed

end
