(* ===== verification/SalesLogRaces.thy ===== *)
theory SalesLogRaces
  imports Sessions
begin

text \<open>Races on MediMate's sales log (src/medico.py, Add Sale, lines 103-132).  The write phase
of \<open>Sessions\<close> is modelled here at the granularity of the code's statements: \<open>new_sale_row\<close> builds the
row (lines 111-119), \<open>sale_log_write\<close> is the assignment of the concatenated copy of the
sales table (lines 121-124), \<open>sale_decrement\<close> the in-place stock update (lines 126-130),
and \<open>log_step\<close> lets sessions interleave between reading the sales table and assigning
it back.  \<open>sale_write_four_statements\<close> shows that running the statements back to back is
\<open>sale_write\<close>; the interleaved run shows a lost sale row.\<close>

datatype log_pc =
    LIdle
  | LApproved medicine
  | LSnapshot medicine "sale list"
  | LLogged medicine
  | LRejected medico_error
  | LDone

record log_thread =
  lt_medicine :: string
  lt_quantity :: int
  lt_day :: date
  lt_pc :: log_pc

record log_state =
  store :: medico_state
  loggers :: "log_thread list"

fun log_of_read :: "sale_pc \<Rightarrow> log_pc" where
  "log_of_read (Approved p) = LApproved p"
| "log_of_read (Rejected e) = LRejected e"
| "log_of_read _ = LIdle"

definition new_sale_row :: "string \<Rightarrow> int \<Rightarrow> date \<Rightarrow> medicine \<Rightarrow> sale" where
  "new_sale_row medicine quantity day product =
     \<lparr>sale_medicine = medicine, sale_quantity = quantity,
      sale_total = of_int quantity * med_price product, sale_date = day\<rparr>"

definition sale_log_write :: "medico_state \<Rightarrow> sale list \<Rightarrow> sale \<Rightarrow> medico_state" where
  "sale_log_write s snapshot new_sale = s\<lparr>sales := snapshot @ [new_sale]\<rparr>"

definition sale_decrement :: "medico_state \<Rightarrow> string \<Rightarrow> int \<Rightarrow> medico_state" where
  "sale_decrement s medicine quantity =
     s\<lparr>products := update_where (\<lambda>r. med_name r = medicine)
                    (\<lambda>r. r\<lparr>med_stock := med_stock r - quantity\<rparr>) (products s)\<rparr>"

inductive log_step :: "log_state \<Rightarrow> log_state \<Rightarrow> bool" where
  log_check: "i < length (loggers c) \<Longrightarrow> lt_pc (loggers c ! i) = LIdle \<Longrightarrow>
     log_step c (c\<lparr>loggers := (loggers c)[i := (loggers c ! i)\<lparr>lt_pc :=
        log_of_read (sale_read (store c) (lt_medicine (loggers c ! i)) (lt_quantity (loggers c ! i)))\<rparr>]\<rparr>)"
| log_snapshot: "i < length (loggers c) \<Longrightarrow> lt_pc (loggers c ! i) = LApproved p \<Longrightarrow>
     log_step c (c\<lparr>loggers := (loggers c)[i := (loggers c ! i)\<lparr>lt_pc := LSnapshot p (sales (store c))\<rparr>]\<rparr>)"
| log_append: "i < length (loggers c) \<Longrightarrow> lt_pc (loggers c ! i) = LSnapshot p snap \<Longrightarrow>
     log_step c \<lparr>store = sale_log_write (store c) snap
                          (new_sale_row (lt_medicine (loggers c ! i)) (lt_quantity (loggers c ! i))
                             (lt_day (loggers c ! i)) p),
                 loggers = (loggers c)[i := (loggers c ! i)\<lparr>lt_pc := LLogged p\<rparr>]\<rparr>"
| log_decrement: "i < length (loggers c) \<Longrightarrow> lt_pc (loggers c ! i) = LLogged p \<Longrightarrow>
     log_step c \<lparr>store = sale_decrement (store c) (lt_medicine (loggers c ! i)) (lt_quantity (loggers c ! i)),
                 loggers = (loggers c)[i := (loggers c ! i)\<lparr>lt_pc := LDone\<rparr>]\<rparr>"

definition pending_log :: "string \<Rightarrow> int \<Rightarrow> date \<Rightarrow> log_thread" where
  "pending_log m q d = \<lparr>lt_medicine = m, lt_quantity = q, lt_day = d, lt_pc = LIdle\<rparr>"

section \<open>Lemmas\<close>

lemma sale_read_Approved_name:
  "sale_read s m q = Approved p \<Longrightarrow> m \<in> set (map med_name (products s))"
  by (drule sale_read_Approved) (metis image_eqI list.set_map)

lemma sale_write_four_statements:
  "sale_write s m q d p = sale_decrement (sale_log_write s (sales s) (new_sale_row m q d p)) m q"
  by (simp add: sale_write_def sale_decrement_def sale_log_write_def new_sale_row_def Let_def)

lemma loggers_update_conv: "c\<lparr>loggers := x\<rparr> = \<lparr>store = store c, loggers = x\<rparr>"
  by (cases c) simp

lemma log_step_check_at:
  "i < length (loggers c) \<Longrightarrow> lt_pc (loggers c ! i) = LIdle \<Longrightarrow>
   c' = \<lparr>store = store c, loggers = (loggers c)[i := (loggers c ! i)\<lparr>lt_pc :=
        log_of_read (sale_read (store c) (lt_medicine (loggers c ! i)) (lt_quantity (loggers c ! i)))\<rparr>]\<rparr> \<Longrightarrow>
   log_step c c'"
  using log_step.log_check [of i c] by (simp add: loggers_update_conv)

lemma log_step_snapshot_at:
  "i < length (loggers c) \<Longrightarrow> lt_pc (loggers c ! i) = LApproved p \<Longrightarrow>
   c' = \<lparr>store = store c, loggers = (loggers c)[i := (loggers c ! i)\<lparr>lt_pc := LSnapshot p (sales (store c))\<rparr>]\<rparr> \<Longrightarrow>
   log_step c c'"
  using log_step.log_snapshot [of i c p] by (simp add: loggers_update_conv)

lemma log_step_append_at:
  "i < length (loggers c) \<Longrightarrow> lt_pc (loggers c ! i) = LSnapshot p snap \<Longrightarrow>
   c' = \<lparr>store = sale_log_write (store c) snap
                    (new_sale_row (lt_medicine (loggers c ! i)) (lt_quantity (loggers c ! i))
                       (lt_day (loggers c ! i)) p),
         loggers = (loggers c)[i := (loggers c ! i)\<lparr>lt_pc := LLogged p\<rparr>]\<rparr> \<Longrightarrow>
   log_step c c'"
  by (simp add: log_step.log_append)

lemma log_step_decrement_at:
  "i < length (loggers c) \<Longrightarrow> lt_pc (loggers c ! i) = LLogged p \<Longrightarrow>
   c' = \<lparr>store = sale_decrement (store c) (lt_medicine (loggers c ! i)) (lt_quantity (loggers c ! i)),
         loggers = (loggers c)[i := (loggers c ! i)\<lparr>lt_pc := LDone\<rparr>]\<rparr> \<Longrightarrow>
   log_step c c'"
  by (simp add: log_step.log_decrement)

lemma lost_row_run:
  "log_step\<^sup>*\<^sup>* \<lparr>store = ten_in_stock, loggers = [pending_log ''Insulin'' 3 0, pending_log ''Insulin'' 3 0]\<rparr>
     \<lparr>store = \<lparr>products = [\<lparr>med_name = ''Insulin'', med_stock = 4, med_price = 5, med_expiry = 100\<rparr>],
               sales = [\<lparr>sale_medicine = ''Insulin'', sale_quantity = 3, sale_total = 15, sale_date = 0\<rparr>]\<rparr>,
      loggers = [(pending_log ''Insulin'' 3 0)\<lparr>lt_pc := LDone\<rparr>, (pending_log ''Insulin'' 3 0)\<lparr>lt_pc := LDone\<rparr>]\<rparr>"
proof -
  define p where "p = \<lparr>med_name = ''Insulin'', med_stock = 10, med_price = 5, med_expiry = (100::date)\<rparr>"
  define x where "x = \<lparr>sale_medicine = ''Insulin'', sale_quantity = 3, sale_total = 15, sale_date = (0::date)\<rparr>"
  let ?t = "pending_log ''Insulin'' 3 0"
  have sh: "ten_in_stock = \<lparr>products = [p], sales = []\<rparr>"
    by (simp add: ten_in_stock_def add_product_def medico_init_def p_def)
  have tf: "lt_medicine ?t = ''Insulin''" "lt_quantity ?t = 3" "lt_day ?t = 0" "lt_pc ?t = LIdle"
    by (simp_all add: pending_log_def)
  have rd: "sale_read \<lparr>products = [p], sales = []\<rparr> ''Insulin'' 3 = Approved p"
    by (simp add: sale_read_def p_def)
  have row: "new_sale_row ''Insulin'' 3 0 p = x" by (simp add: new_sale_row_def p_def x_def)
  let ?S = "\<lparr>products = [p], sales = []\<rparr>"
  let ?A = "?t\<lparr>lt_pc := LApproved p\<rparr>" and ?N = "?t\<lparr>lt_pc := LSnapshot p []\<rparr>"
    and ?L = "?t\<lparr>lt_pc := LLogged p\<rparr>" and ?D = "?t\<lparr>lt_pc := LDone\<rparr>"
  have s1: "log_step \<lparr>store = ?S, loggers = [?t, ?t]\<rparr> \<lparr>store = ?S, loggers = [?A, ?t]\<rparr>"
    by (rule log_step_check_at [where i = 0]) (simp_all add: tf rd)
  have s2: "log_step \<lparr>store = ?S, loggers = [?A, ?t]\<rparr> \<lparr>store = ?S, loggers = [?A, ?A]\<rparr>"
    by (rule log_step_check_at [where i = 1]) (simp_all add: tf rd)
  have s3: "log_step \<lparr>store = ?S, loggers = [?A, ?A]\<rparr> \<lparr>store = ?S, loggers = [?N, ?A]\<rparr>"
    by (rule log_step_snapshot_at [where i = 0 and p = p]) simp_all
  have s4: "log_step \<lparr>store = ?S, loggers = [?N, ?A]\<rparr> \<lparr>store = ?S, loggers = [?N, ?N]\<rparr>"
    by (rule log_step_snapshot_at [where i = 1 and p = p]) simp_all
  have s5: "log_step \<lparr>store = ?S, loggers = [?N, ?N]\<rparr>
      \<lparr>store = \<lparr>products = [p], sales = [x]\<rparr>, loggers = [?L, ?N]\<rparr>"
    by (rule log_step_append_at [where i = 0 and p = p and snap = "[]"])
       (simp_all add: tf row sale_log_write_def)
  have s6: "log_step \<lparr>store = \<lparr>products = [p], sales = [x]\<rparr>, loggers = [?L, ?N]\<rparr>
      \<lparr>store = \<lparr>products = [p], sales = [x]\<rparr>, loggers = [?L, ?L]\<rparr>"
    by (rule log_step_append_at [where i = 1 and p = p and snap = "[]"])
       (simp_all add: tf row sale_log_write_def)
  have s7: "log_step \<lparr>store = \<lparr>products = [p], sales = [x]\<rparr>, loggers = [?L, ?L]\<rparr>
      \<lparr>store = \<lparr>products = [p\<lparr>med_stock := 7\<rparr>], sales = [x]\<rparr>, loggers = [?D, ?L]\<rparr>"
    by (rule log_step_decrement_at [where i = 0 and p = p]) (simp_all add: tf sale_decrement_def p_def)
  have s8: "log_step \<lparr>store = \<lparr>products = [p\<lparr>med_stock := 7\<rparr>], sales = [x]\<rparr>, loggers = [?D, ?L]\<rparr>
      \<lparr>store = \<lparr>products = [p\<lparr>med_stock := 4\<rparr>], sales = [x]\<rparr>, loggers = [?D, ?D]\<rparr>"
    by (rule log_step_decrement_at [where i = 1 and p = p]) (simp_all add: tf sale_decrement_def p_def)
  have "log_step\<^sup>*\<^sup>* \<lparr>store = ten_in_stock, loggers = [?t, ?t]\<rparr>
      \<lparr>store = \<lparr>products = [p\<lparr>med_stock := 4\<rparr>], sales = [x]\<rparr>, loggers = [?D, ?D]\<rparr>"
    unfolding sh using s1 s2 s3 s4 s5 s6 s7 s8
    by (meson rtranclp.rtrancl_into_rtrancl rtranclp.rtrancl_refl)
  then show ?thesis by (simp add: p_def x_def)
qed

text \<open>C11: Splitting Add Sale into the statements of the code shows a second race.  The log append copies the sales table and assigns the copy plus the new row back, and the stock decrement is a separate statement.  Two sessions each selling 3 of 10 units (no oversell) can snapshot the empty table before either appends; both decrements land but one sale row is lost, so the per-name ledger law of C3 breaks under concurrency: 4 in stock plus 3 sold is 7 of the original 10.\<close>

theorem interleaved_sales_lose_a_row:
  "\<exists>c. log_step\<^sup>*\<^sup>* \<lparr>store = ten_in_stock, loggers = [pending_log ''Insulin'' 3 0, pending_log ''Insulin'' 3 0]\<rparr> c \<and>
       map lt_pc (loggers c) = [LDone, LDone] \<and>
       map med_stock (products (store c)) = [4] \<and> length (sales (store c)) = 1 \<and>
       stock_on_hand (products (store c)) ''Insulin'' + units_sold (sales (store c)) ''Insulin'' = 7 \<and>
       stock_on_hand (products ten_in_stock) ''Insulin'' + units_sold (sales ten_in_stock) ''Insulin'' = 10"
  using lost_row_run
  by (intro exI conjI, assumption)
     (simp_all add: ten_in_stock_def add_product_def medico_init_def stock_on_hand_def units_sold_def)

end
