(* ===== verification/LogLock.thy ===== *)
theory LogLock
  imports SalesLogRaces
begin

text \<open>
  The serialisation the spec (section 5) asks for, applied to the statement-level model of
  MediMate's Add Sale in \<open>SalesLogRaces\<close>: under \<open>locked_log_step\<close> a session may run its
  stock check (lines 103-109 of \<open>src/medico.py\<close>) only while no other session is between
  its check and its stock decrement (lines 126-130), so the copy of the sales table a
  session appends to is always the current one.  \<open>logged_units\<close> counts the units of the
  sessions that have appended their row but not yet decremented the stock; the invariant
  \<open>log_lock_inv\<close> says that every session holding the lock names a row of the table and
  holds a current copy, and that at most one session holds the lock.
\<close>

fun log_busy :: "log_pc \<Rightarrow> bool" where
  "log_busy (LApproved p) = True"
| "log_busy (LSnapshot p snap) = True"
| "log_busy (LLogged p) = True"
| "log_busy LIdle = False"
| "log_busy (LRejected e) = False"
| "log_busy LDone = False"

inductive locked_log_step :: "log_state \<Rightarrow> log_state \<Rightarrow> bool" where
  lock_log_check: "list_all (\<lambda>t. \<not> log_busy (lt_pc t)) (loggers c) \<Longrightarrow>
     i < length (loggers c) \<Longrightarrow> lt_pc (loggers c ! i) = LIdle \<Longrightarrow>
     locked_log_step c (c\<lparr>loggers := (loggers c)[i := (loggers c ! i)\<lparr>lt_pc :=
        log_of_read (sale_read (store c) (lt_medicine (loggers c ! i)) (lt_quantity (loggers c ! i)))\<rparr>]\<rparr>)"
| lock_log_snapshot: "i < length (loggers c) \<Longrightarrow> lt_pc (loggers c ! i) = LApproved p \<Longrightarrow>
     locked_log_step c (c\<lparr>loggers := (loggers c)[i := (loggers c ! i)\<lparr>lt_pc := LSnapshot p (sales (store c))\<rparr>]\<rparr>)"
| lock_log_append: "i < length (loggers c) \<Longrightarrow> lt_pc (loggers c ! i) = LSnapshot p snap \<Longrightarrow>
     locked_log_step c \<lparr>store = sale_log_write (store c) snap
                          (new_sale_row (lt_medicine (loggers c ! i)) (lt_quantity (loggers c ! i))
                             (lt_day (loggers c ! i)) p),
                 loggers = (loggers c)[i := (loggers c ! i)\<lparr>lt_pc := LLogged p\<rparr>]\<rparr>"
| lock_log_decrement: "i < length (loggers c) \<Longrightarrow> lt_pc (loggers c ! i) = LLogged p \<Longrightarrow>
     locked_log_step c \<lparr>store = sale_decrement (store c) (lt_medicine (loggers c ! i)) (lt_quantity (loggers c ! i)),
                 loggers = (loggers c)[i := (loggers c ! i)\<lparr>lt_pc := LDone\<rparr>]\<rparr>"

fun log_logged :: "log_pc \<Rightarrow> bool" where
  "log_logged (LLogged p) = True"
| "log_logged _ = False"

definition logged_units :: "log_thread list \<Rightarrow> string \<Rightarrow> int" where
  "logged_units ts n = sum_where (\<lambda>t. log_logged (lt_pc t) \<and> lt_medicine t = n) lt_quantity ts"

definition holder_ok :: "string list \<Rightarrow> sale list \<Rightarrow> log_thread \<Rightarrow> bool" where
  "holder_ok ns sl t \<longleftrightarrow>
     (case lt_pc t of
        LApproved p \<Rightarrow> lt_medicine t \<in> set ns
      | LSnapshot p snap \<Rightarrow> lt_medicine t \<in> set ns \<and> snap = sl
      | LLogged p \<Rightarrow> lt_medicine t \<in> set ns
      | _ \<Rightarrow> True)"

definition log_lock_inv :: "log_state \<Rightarrow> bool" where
  "log_lock_inv c \<longleftrightarrow>
     list_all (holder_ok (map med_name (products (store c))) (sales (store c))) (loggers c) \<and>
     at_most_one (\<lambda>t. log_busy (lt_pc t)) (loggers c)"

section \<open>Lemmas\<close>

lemma log_step_names [simp]:
  "map med_name (products (sale_log_write s snap x)) = map med_name (products s)"
  "map med_name (products (sale_decrement s m q)) = map med_name (products s)"
  by (simp_all add: sale_log_write_def sale_decrement_def map_update_where_inv)

lemma holder_ok_idle: "\<not> log_busy (lt_pc t) \<Longrightarrow> holder_ok ns sl t"
  by (cases "lt_pc t") (simp_all add: holder_ok_def)

lemma holder_ok_read:
  "holder_ok (map med_name (products s)) sl (t\<lparr>lt_pc := log_of_read (sale_read s (lt_medicine t) q)\<rparr>)"
  by (cases "sale_read s (lt_medicine t) q") (auto simp: holder_ok_def dest: sale_read_Approved_name)

lemma log_busy_read: "log_busy (log_of_read r) \<longleftrightarrow> (\<exists>p. r = Approved p)"
  by (cases r) simp_all

lemma log_logged_read: "\<not> log_logged (log_of_read r)"
  by (cases r) simp_all

lemma logged_units_update:
  "i < length ts \<Longrightarrow>
   logged_units (ts[i := t]) n = logged_units ts n
     - (if log_logged (lt_pc (ts ! i)) \<and> lt_medicine (ts ! i) = n then lt_quantity (ts ! i) else 0)
     + (if log_logged (lt_pc t) \<and> lt_medicine t = n then lt_quantity t else 0)"
  by (simp add: logged_units_def sum_where_list_update)

lemma units_sold_log_write:
  "units_sold (sales (sale_log_write s snap x)) n =
   units_sold snap n + (if sale_medicine x = n then sale_quantity x else 0)"
  by (simp add: sale_log_write_def units_sold_def)

lemma stock_on_hand_decrement:
  assumes "distinct (map med_name (products s))" and "m \<in> set (map med_name (products s))"
  shows "stock_on_hand (products (sale_decrement s m q)) n =
         stock_on_hand (products s) n - (if m = n then q else 0)"
proof -
  from assms(2) obtain k where k: "k < length (products s)" and nm: "med_name (products s ! k) = m"
    by (auto simp: in_set_conv_nth)
  have "products (sale_decrement s m q) =
      (products s)[k := (products s ! k)\<lparr>med_stock := med_stock (products s ! k) - q\<rparr>]"
    using update_where_distinct_map [OF assms(1) k] nm by (simp add: sale_decrement_def)
  with k nm show ?thesis by (simp add: stock_on_hand_def sum_where_list_update)
qed

lemma holders_update:
  assumes "at_most_one (\<lambda>t. log_busy (lt_pc t)) ts" and "i < length ts" and "log_busy (lt_pc (ts ! i))"
    and "holder_ok ns sl u"
  shows "list_all (holder_ok ns sl) (ts[i := u])"
  unfolding list_all_length
proof (intro allI impI)
  fix j assume j: "j < length (ts[i := u])"
  show "holder_ok ns sl (ts[i := u] ! j)"
  proof (cases "j = i")
    case True
    with assms(2,4) show ?thesis by simp
  next
    case False
    with at_most_one_others [OF assms(1-3)] j have "\<not> log_busy (lt_pc (ts ! j))" by simp
    with False show ?thesis by (simp add: holder_ok_idle)
  qed
qed

lemma holder_nth:
  "list_all (holder_ok ns sl) ts \<Longrightarrow> i < length ts \<Longrightarrow> holder_ok ns sl (ts ! i)"
  by (simp add: list_all_length)

lemma sales_decrement [simp]: "sales (sale_decrement s m q) = sales s"
  by (simp add: sale_decrement_def)

lemma products_log_write [simp]: "products (sale_log_write s snap x) = products s"
  by (simp add: sale_log_write_def)

lemma locked_log_step_inv:
  assumes "locked_log_step c c'" and "log_lock_inv c" and "distinct (map med_name (products (store c)))"
  shows "log_lock_inv c' \<and> map med_name (products (store c')) = map med_name (products (store c)) \<and>
         stock_on_hand (products (store c')) n + units_sold (sales (store c')) n - logged_units (loggers c') n =
         stock_on_hand (products (store c)) n + units_sold (sales (store c)) n - logged_units (loggers c) n"
  using assms
proof (induction rule: locked_log_step.induct)
  case (lock_log_check c i)
  let ?t = "loggers c ! i"
  let ?u = "?t\<lparr>lt_pc := log_of_read (sale_read (store c) (lt_medicine ?t) (lt_quantity ?t))\<rparr>"
  have "list_all (holder_ok (map med_name (products (store c))) (sales (store c))) ((loggers c)[i := ?u])"
    using lock_log_check.prems(1) holder_ok_read
    by (simp add: log_lock_inv_def list_all_list_update_keep)
  moreover have "at_most_one (\<lambda>t. log_busy (lt_pc t)) ((loggers c)[i := ?u])"
    using lock_log_check.hyps(1) by (rule at_most_one_update_from_none)
  moreover have "logged_units ((loggers c)[i := ?u]) n = logged_units (loggers c) n"
    using lock_log_check.hyps(2,3) by (simp add: logged_units_update log_logged_read)
  ultimately show ?case by (simp add: log_lock_inv_def loggers_update_conv)
next
  case (lock_log_snapshot i c p)
  let ?t = "loggers c ! i"
  let ?u = "?t\<lparr>lt_pc := LSnapshot p (sales (store c))\<rparr>"
  from lock_log_snapshot have inv: "at_most_one (\<lambda>t. log_busy (lt_pc t)) (loggers c)"
    and h: "holder_ok (map med_name (products (store c))) (sales (store c)) ?t"
    by (simp_all add: log_lock_inv_def holder_nth)
  with lock_log_snapshot.hyps have "holder_ok (map med_name (products (store c))) (sales (store c)) ?u"
    by (simp add: holder_ok_def)
  with inv lock_log_snapshot.hyps
  have "list_all (holder_ok (map med_name (products (store c))) (sales (store c))) ((loggers c)[i := ?u])"
    by (intro holders_update) simp_all
  moreover have "at_most_one (\<lambda>t. log_busy (lt_pc t)) ((loggers c)[i := ?u])"
    using inv lock_log_snapshot.hyps by (intro at_most_one_update_holder) simp_all
  moreover have "logged_units ((loggers c)[i := ?u]) n = logged_units (loggers c) n"
    using lock_log_snapshot.hyps by (simp add: logged_units_update)
  ultimately show ?case by (simp add: log_lock_inv_def loggers_update_conv)
next
  case (lock_log_append i c p snap)
  let ?t = "loggers c ! i"
  let ?u = "?t\<lparr>lt_pc := LLogged p\<rparr>"
  let ?s = "sale_log_write (store c) snap (new_sale_row (lt_medicine ?t) (lt_quantity ?t) (lt_day ?t) p)"
  from lock_log_append have inv: "at_most_one (\<lambda>t. log_busy (lt_pc t)) (loggers c)"
    and h: "holder_ok (map med_name (products (store c))) (sales (store c)) ?t"
    by (simp_all add: log_lock_inv_def holder_nth)
  with lock_log_append.hyps have snap: "snap = sales (store c)"
    and m: "lt_medicine ?t \<in> set (map med_name (products (store c)))"
    by (simp_all add: holder_ok_def)
  from m have "holder_ok (map med_name (products (store c))) (sales ?s) ?u"
    by (simp add: holder_ok_def)
  with inv lock_log_append.hyps
  have "list_all (holder_ok (map med_name (products (store c))) (sales ?s)) ((loggers c)[i := ?u])"
    by (intro holders_update) simp_all
  moreover have "at_most_one (\<lambda>t. log_busy (lt_pc t)) ((loggers c)[i := ?u])"
    using inv lock_log_append.hyps by (intro at_most_one_update_holder) simp_all
  moreover have "units_sold (sales ?s) n = units_sold (sales (store c)) n +
      (if lt_medicine ?t = n then lt_quantity ?t else 0)"
    by (simp add: units_sold_log_write snap new_sale_row_def)
  moreover have "logged_units ((loggers c)[i := ?u]) n = logged_units (loggers c) n +
      (if lt_medicine ?t = n then lt_quantity ?t else 0)"
    using lock_log_append.hyps by (simp add: logged_units_update)
  ultimately show ?case by (simp add: log_lock_inv_def)
next
  case (lock_log_decrement i c p)
  let ?t = "loggers c ! i"
  let ?u = "?t\<lparr>lt_pc := LDone\<rparr>"
  let ?s = "sale_decrement (store c) (lt_medicine ?t) (lt_quantity ?t)"
  from lock_log_decrement have inv: "at_most_one (\<lambda>t. log_busy (lt_pc t)) (loggers c)"
    and h: "holder_ok (map med_name (products (store c))) (sales (store c)) ?t"
    by (simp_all add: log_lock_inv_def holder_nth)
  with lock_log_decrement.hyps have m: "lt_medicine ?t \<in> set (map med_name (products (store c)))"
    by (simp add: holder_ok_def)
  have "list_all (holder_ok (map med_name (products (store c))) (sales (store c))) ((loggers c)[i := ?u])"
    using inv lock_log_decrement.hyps by (intro holders_update) (simp_all add: holder_ok_def)
  moreover have "at_most_one (\<lambda>t. log_busy (lt_pc t)) ((loggers c)[i := ?u])"
    using inv lock_log_decrement.hyps by (intro at_most_one_update_holder) simp_all
  moreover have "stock_on_hand (products ?s) n = stock_on_hand (products (store c)) n -
      (if lt_medicine ?t = n then lt_quantity ?t else 0)"
    using lock_log_decrement.prems(2) m by (rule stock_on_hand_decrement)
  moreover have "logged_units ((loggers c)[i := ?u]) n = logged_units (loggers c) n -
      (if lt_medicine ?t = n then lt_quantity ?t else 0)"
    using lock_log_decrement.hyps by (simp add: logged_units_update)
  ultimately show ?case by (simp add: log_lock_inv_def)
qed

lemma idle_log_lock_inv:
  assumes "list_all (\<lambda>t. lt_pc t = LIdle) ts"
  shows "list_all (holder_ok ns sl) ts \<and> at_most_one (\<lambda>t. log_busy (lt_pc t)) ts \<and> logged_units ts n = 0"
  using assms by (simp add: list_all_iff holder_ok_def at_most_one_def logged_units_def sum_where_def
                            list_all_length)

lemma locked_log_step_check_at:
  "list_all (\<lambda>t. \<not> log_busy (lt_pc t)) (loggers c) \<Longrightarrow>
   i < length (loggers c) \<Longrightarrow> lt_pc (loggers c ! i) = LIdle \<Longrightarrow>
   c' = \<lparr>store = store c, loggers = (loggers c)[i := (loggers c ! i)\<lparr>lt_pc :=
        log_of_read (sale_read (store c) (lt_medicine (loggers c ! i)) (lt_quantity (loggers c ! i)))\<rparr>]\<rparr> \<Longrightarrow>
   locked_log_step c c'"
  using locked_log_step.lock_log_check [of c i] by (simp add: loggers_update_conv)

lemma locked_log_step_snapshot_at:
  "i < length (loggers c) \<Longrightarrow> lt_pc (loggers c ! i) = LApproved p \<Longrightarrow>
   c' = \<lparr>store = store c, loggers = (loggers c)[i := (loggers c ! i)\<lparr>lt_pc := LSnapshot p (sales (store c))\<rparr>]\<rparr> \<Longrightarrow>
   locked_log_step c c'"
  using locked_log_step.lock_log_snapshot [of i c p] by (simp add: loggers_update_conv)

lemma locked_log_step_append_at:
  "i < length (loggers c) \<Longrightarrow> lt_pc (loggers c ! i) = LSnapshot p snap \<Longrightarrow>
   c' = \<lparr>store = sale_log_write (store c) snap
                    (new_sale_row (lt_medicine (loggers c ! i)) (lt_quantity (loggers c ! i))
                       (lt_day (loggers c ! i)) p),
         loggers = (loggers c)[i := (loggers c ! i)\<lparr>lt_pc := LLogged p\<rparr>]\<rparr> \<Longrightarrow>
   locked_log_step c c'"
  by (simp add: locked_log_step.lock_log_append)

lemma locked_log_step_decrement_at:
  "i < length (loggers c) \<Longrightarrow> lt_pc (loggers c ! i) = LLogged p \<Longrightarrow>
   c' = \<lparr>store = sale_decrement (store c) (lt_medicine (loggers c ! i)) (lt_quantity (loggers c ! i)),
         loggers = (loggers c)[i := (loggers c ! i)\<lparr>lt_pc := LDone\<rparr>]\<rparr> \<Longrightarrow>
   locked_log_step c c'"
  by (simp add: locked_log_step.lock_log_decrement)

section \<open>Properties\<close>

text \<open>Serialising Add Sale restores MediMate's ledger: if a session may only run its stock check while no other session is between its check and its stock decrement, then along every interleaving of the code's statements from idle sessions on a table with unique names, the stock on hand of each medicine plus the units its sales rows record equals the starting amount plus the units of the sales whose row is appended but whose decrement is still to come; once no sale is in that window the law of C3 holds exactly, and no sale row is lost as in C11.\<close>

theorem locked_log_sales_conserve:
  assumes "locked_log_step\<^sup>*\<^sup>* c0 c" and "list_all (\<lambda>t. lt_pc t = LIdle) (loggers c0)"
    and "distinct (map med_name (products (store c0)))"
  shows "stock_on_hand (products (store c)) n + units_sold (sales (store c)) n =
         stock_on_hand (products (store c0)) n + units_sold (sales (store c0)) n + logged_units (loggers c) n"
proof -
  from idle_log_lock_inv [OF assms(2)] have "log_lock_inv c0" and z: "logged_units (loggers c0) n = 0"
    by (simp_all add: log_lock_inv_def)
  have "log_lock_inv c \<and> map med_name (products (store c)) = map med_name (products (store c0)) \<and>
        stock_on_hand (products (store c)) n + units_sold (sales (store c)) n - logged_units (loggers c) n =
        stock_on_hand (products (store c0)) n + units_sold (sales (store c0)) n - logged_units (loggers c0) n"
    using assms(1)
  proof (induction rule: rtranclp_induct)
    case base
    with \<open>log_lock_inv c0\<close> show ?case by simp
  next
    case (step c c')
    with assms(3) have "distinct (map med_name (products (store c)))" by simp
    with step locked_log_step_inv [of c c' n] show ?case by simp
  qed
  with z show ?thesis by simp
qed

theorem locked_log_sales_conserve_witness:
  "locked_log_step\<^sup>*\<^sup>* \<lparr>store = ten_in_stock, loggers = [pending_log ''Insulin'' 3 0, pending_log ''Insulin'' 3 0]\<rparr>
      \<lparr>store = \<lparr>products = [\<lparr>med_name = ''Insulin'', med_stock = 4, med_price = 5, med_expiry = 100\<rparr>],
                 sales = [\<lparr>sale_medicine = ''Insulin'', sale_quantity = 3, sale_total = 15, sale_date = 0\<rparr>,
                          \<lparr>sale_medicine = ''Insulin'', sale_quantity = 3, sale_total = 15, sale_date = 0\<rparr>]\<rparr>,
       loggers = [(pending_log ''Insulin'' 3 0)\<lparr>lt_pc := LDone\<rparr>, (pending_log ''Insulin'' 3 0)\<lparr>lt_pc := LDone\<rparr>]\<rparr> \<and>
   list_all (\<lambda>t. lt_pc t = LIdle) [pending_log ''Insulin'' 3 0, pending_log ''Insulin'' 3 0] \<and>
   distinct (map med_name (products ten_in_stock)) \<and>
   stock_on_hand [\<lparr>med_name = ''Insulin'', med_stock = 4, med_price = 5, med_expiry = (100::date)\<rparr>] ''Insulin'' +
   units_sold [\<lparr>sale_medicine = ''Insulin'', sale_quantity = 3, sale_total = 15, sale_date = (0::date)\<rparr>,
               \<lparr>sale_medicine = ''Insulin'', sale_quantity = 3, sale_total = 15, sale_date = (0::date)\<rparr>] ''Insulin'' =
   stock_on_hand (products ten_in_stock) ''Insulin'' + units_sold (sales ten_in_stock) ''Insulin'' +
   logged_units [(pending_log ''Insulin'' 3 0)\<lparr>lt_pc := LDone\<rparr>, (pending_log ''Insulin'' 3 0)\<lparr>lt_pc := LDone\<rparr>] ''Insulin''"
proof -
  define p where "p = \<lparr>med_name = ''Insulin'', med_stock = 10, med_price = 5, med_expiry = (100::date)\<rparr>"
  define p7 where "p7 = \<lparr>med_name = ''Insulin'', med_stock = 7, med_price = 5, med_expiry = (100::date)\<rparr>"
  define p4 where "p4 = \<lparr>med_name = ''Insulin'', med_stock = 4, med_price = 5, med_expiry = (100::date)\<rparr>"
  define x where "x = \<lparr>sale_medicine = ''Insulin'', sale_quantity = 3, sale_total = 15, sale_date = (0::date)\<rparr>"
  let ?t = "pending_log ''Insulin'' 3 0"
  have sh: "ten_in_stock = \<lparr>products = [p], sales = []\<rparr>"
    by (simp add: ten_in_stock_def add_product_def medico_init_def p_def)
  have tf: "lt_medicine ?t = ''Insulin''" "lt_quantity ?t = 3" "lt_day ?t = 0" "lt_pc ?t = LIdle"
    by (simp_all add: pending_log_def)
  have rd: "sale_read \<lparr>products = [p], sales = []\<rparr> ''Insulin'' 3 = Approved p"
    by (simp add: sale_read_def p_def)
  have rd7: "sale_read \<lparr>products = [p7], sales = [x]\<rparr> ''Insulin'' 3 = Approved p7"
    by (simp add: sale_read_def p7_def)
  have row: "new_sale_row ''Insulin'' 3 0 p = x" "new_sale_row ''Insulin'' 3 0 p7 = x"
    by (simp_all add: new_sale_row_def p_def p7_def x_def)
  have d1: "sale_decrement \<lparr>products = [p], sales = [x]\<rparr> ''Insulin'' 3 = \<lparr>products = [p7], sales = [x]\<rparr>"
    by (simp add: sale_decrement_def p_def p7_def)
  have d2: "sale_decrement \<lparr>products = [p7], sales = [x, x]\<rparr> ''Insulin'' 3 = \<lparr>products = [p4], sales = [x, x]\<rparr>"
    by (simp add: sale_decrement_def p4_def p7_def)
  let ?D = "?t\<lparr>lt_pc := LDone\<rparr>"
  have s1: "locked_log_step \<lparr>store = \<lparr>products = [p], sales = []\<rparr>, loggers = [?t, ?t]\<rparr>
      \<lparr>store = \<lparr>products = [p], sales = []\<rparr>, loggers = [?t\<lparr>lt_pc := LApproved p\<rparr>, ?t]\<rparr>"
    by (rule locked_log_step_check_at [where i = 0]) (simp_all add: tf rd)
  have s2: "locked_log_step \<lparr>store = \<lparr>products = [p], sales = []\<rparr>, loggers = [?t\<lparr>lt_pc := LApproved p\<rparr>, ?t]\<rparr>
      \<lparr>store = \<lparr>products = [p], sales = []\<rparr>, loggers = [?t\<lparr>lt_pc := LSnapshot p []\<rparr>, ?t]\<rparr>"
    by (rule locked_log_step_snapshot_at [where i = 0 and p = p]) simp_all
  have s3: "locked_log_step \<lparr>store = \<lparr>products = [p], sales = []\<rparr>, loggers = [?t\<lparr>lt_pc := LSnapshot p []\<rparr>, ?t]\<rparr>
      \<lparr>store = \<lparr>products = [p], sales = [x]\<rparr>, loggers = [?t\<lparr>lt_pc := LLogged p\<rparr>, ?t]\<rparr>"
    by (rule locked_log_step_append_at [where i = 0 and p = p and snap = "[]"])
       (simp_all add: tf row sale_log_write_def)
  have s4: "locked_log_step \<lparr>store = \<lparr>products = [p], sales = [x]\<rparr>, loggers = [?t\<lparr>lt_pc := LLogged p\<rparr>, ?t]\<rparr>
      \<lparr>store = \<lparr>products = [p7], sales = [x]\<rparr>, loggers = [?D, ?t]\<rparr>"
    by (rule locked_log_step_decrement_at [where i = 0 and p = p]) (simp_all add: tf d1)
  have s5: "locked_log_step \<lparr>store = \<lparr>products = [p7], sales = [x]\<rparr>, loggers = [?D, ?t]\<rparr>
      \<lparr>store = \<lparr>products = [p7], sales = [x]\<rparr>, loggers = [?D, ?t\<lparr>lt_pc := LApproved p7\<rparr>]\<rparr>"
    by (rule locked_log_step_check_at [where i = 1]) (simp_all add: tf rd7)
  have s6: "locked_log_step \<lparr>store = \<lparr>products = [p7], sales = [x]\<rparr>, loggers = [?D, ?t\<lparr>lt_pc := LApproved p7\<rparr>]\<rparr>
      \<lparr>store = \<lparr>products = [p7], sales = [x]\<rparr>, loggers = [?D, ?t\<lparr>lt_pc := LSnapshot p7 [x]\<rparr>]\<rparr>"
    by (rule locked_log_step_snapshot_at [where i = 1 and p = p7]) simp_all
  have s7: "locked_log_step \<lparr>store = \<lparr>products = [p7], sales = [x]\<rparr>, loggers = [?D, ?t\<lparr>lt_pc := LSnapshot p7 [x]\<rparr>]\<rparr>
      \<lparr>store = \<lparr>products = [p7], sales = [x, x]\<rparr>, loggers = [?D, ?t\<lparr>lt_pc := LLogged p7\<rparr>]\<rparr>"
    by (rule locked_log_step_append_at [where i = 1 and p = p7 and snap = "[x]"])
       (simp_all add: tf row sale_log_write_def)
  have s8: "locked_log_step \<lparr>store = \<lparr>products = [p7], sales = [x, x]\<rparr>, loggers = [?D, ?t\<lparr>lt_pc := LLogged p7\<rparr>]\<rparr>
      \<lparr>store = \<lparr>products = [p4], sales = [x, x]\<rparr>, loggers = [?D, ?D]\<rparr>"
    by (rule locked_log_step_decrement_at [where i = 1 and p = p7]) (simp_all add: tf d2)
  have run: "locked_log_step\<^sup>*\<^sup>* \<lparr>store = ten_in_stock, loggers = [?t, ?t]\<rparr>
      \<lparr>store = \<lparr>products = [p4], sales = [x, x]\<rparr>, loggers = [?D, ?D]\<rparr>"
    unfolding sh using s1 s2 s3 s4 s5 s6 s7 s8
    by (meson rtranclp.rtrancl_into_rtrancl rtranclp.rtrancl_refl)
  have idle: "list_all (\<lambda>t. lt_pc t = LIdle) [?t, ?t]" by (simp add: tf)
  have dist: "distinct (map med_name (products ten_in_stock))" by (simp add: sh)
  have "stock_on_hand [p4] ''Insulin'' + units_sold [x, x] ''Insulin'' =
        stock_on_hand (products ten_in_stock) ''Insulin'' + units_sold (sales ten_in_stock) ''Insulin'' +
        logged_units [?D, ?D] ''Insulin''"
    using locked_log_sales_conserve [OF run, of "''Insulin''"] idle dist by simp
  with run idle dist show ?thesis by (simp only: p4_def x_def)
qed

end
