(* ===== verification/CatalogRaces.thy ===== *)
theory CatalogRaces
  imports SalesLogRaces
begin

text \<open>
  MediMate's Add Product (src/medico.py, lines 64-84) at the granularity of its statements,
  interleaved with the statements of Add Sale from \<open>SalesLogRaces\<close>.  Line 80 assigns
  \<open>pd.concat\<close> of a copy of the product table plus the new row back to
  \<open>st.session_state.products\<close>: \<open>new_product_row\<close> is the row of lines 73-78,
  \<open>product_table_write\<close> the assignment, and an Add Product session copies the table
  (\<open>ACopied\<close>) before it assigns (\<open>AAdded\<close>).  \<open>shop_state\<close> extends the sales sessions'
  state with the Add Product sessions, and \<open>shop_step\<close> runs a step of either kind.  Run
  back to back the two statements are \<open>add_product\<close>; interleaved with a sale they can
  write back a stale copy of the table and undo the sale's stock decrement.
\<close>

datatype add_pc =
    AIdle
  | ACopied "medicine list"
  | AAdded

record product_thread =
  ad_medicine :: string
  ad_stock :: int
  ad_price :: money
  ad_expiry :: date
  ad_pc :: add_pc

record shop_state = log_state +
  adders :: "product_thread list"

definition new_product_row :: "string \<Rightarrow> int \<Rightarrow> money \<Rightarrow> date \<Rightarrow> medicine" where
  "new_product_row medicine stock price expiry =
     \<lparr>med_name = medicine, med_stock = stock, med_price = price, med_expiry = expiry\<rparr>"

definition product_table_write :: "medico_state \<Rightarrow> medicine list \<Rightarrow> medicine \<Rightarrow> medico_state" where
  "product_table_write s snapshot new_product = s\<lparr>products := snapshot @ [new_product]\<rparr>"

inductive shop_step :: "shop_state \<Rightarrow> shop_state \<Rightarrow> bool" where
  shop_sale: "log_step \<lparr>store = store c, loggers = loggers c\<rparr> \<lparr>store = s', loggers = ts'\<rparr> \<Longrightarrow>
     shop_step c (c\<lparr>store := s', loggers := ts'\<rparr>)"
| shop_copy: "i < length (adders c) \<Longrightarrow> ad_pc (adders c ! i) = AIdle \<Longrightarrow>
     shop_step c (c\<lparr>adders := (adders c)[i := (adders c ! i)\<lparr>ad_pc := ACopied (products (store c))\<rparr>]\<rparr>)"
| shop_assign: "i < length (adders c) \<Longrightarrow> ad_pc (adders c ! i) = ACopied snap \<Longrightarrow>
     shop_step c (c\<lparr>store := product_table_write (store c) snap
                     (new_product_row (ad_medicine (adders c ! i)) (ad_stock (adders c ! i))
                        (ad_price (adders c ! i)) (ad_expiry (adders c ! i))),
                   adders := (adders c)[i := (adders c ! i)\<lparr>ad_pc := AAdded\<rparr>]\<rparr>)"

definition pending_product :: "string \<Rightarrow> int \<Rightarrow> money \<Rightarrow> date \<Rightarrow> product_thread" where
  "pending_product m st pr ex = \<lparr>ad_medicine = m, ad_stock = st, ad_price = pr, ad_expiry = ex, ad_pc = AIdle\<rparr>"

section \<open>Lemmas\<close>

lemma add_product_two_statements:
  "add_product s m st pr ex = product_table_write s (products s) (new_product_row m st pr ex)"
  by (simp add: add_product_def product_table_write_def new_product_row_def)

lemma shop_step_sale_at:
  "log_step \<lparr>store = s, loggers = ts\<rparr> \<lparr>store = s', loggers = ts'\<rparr> \<Longrightarrow>
   shop_step \<lparr>store = s, loggers = ts, adders = as\<rparr> \<lparr>store = s', loggers = ts', adders = as\<rparr>"
  using shop_step.shop_sale [of "\<lparr>store = s, loggers = ts, adders = as\<rparr>" s' ts'] by simp

lemma shop_step_copy_at:
  "i < length as \<Longrightarrow> ad_pc (as ! i) = AIdle \<Longrightarrow>
   shop_step \<lparr>store = s, loggers = ts, adders = as\<rparr>
             \<lparr>store = s, loggers = ts, adders = as[i := (as ! i)\<lparr>ad_pc := ACopied (products s)\<rparr>]\<rparr>"
  using shop_step.shop_copy [of i "\<lparr>store = s, loggers = ts, adders = as\<rparr>"] by simp

lemma shop_step_assign_at:
  "i < length as \<Longrightarrow> ad_pc (as ! i) = ACopied snap \<Longrightarrow>
   shop_step \<lparr>store = s, loggers = ts, adders = as\<rparr>
             \<lparr>store = product_table_write s snap
                       (new_product_row (ad_medicine (as ! i)) (ad_stock (as ! i)) (ad_price (as ! i))
                          (ad_expiry (as ! i))),
              loggers = ts, adders = as[i := (as ! i)\<lparr>ad_pc := AAdded\<rparr>]\<rparr>"
  using shop_step.shop_assign [of i "\<lparr>store = s, loggers = ts, adders = as\<rparr>" snap] by simp

lemma decrement_undone_run:
  "shop_step\<^sup>*\<^sup>* \<lparr>store = ten_in_stock, loggers = [pending_log ''Insulin'' 3 0],
                     adders = [pending_product ''Aspirin'' 5 2 50]\<rparr>
     \<lparr>store = \<lparr>products = [\<lparr>med_name = ''Insulin'', med_stock = 10, med_price = 5, med_expiry = 100\<rparr>,
                            \<lparr>med_name = ''Aspirin'', med_stock = 5, med_price = 2, med_expiry = 50\<rparr>],
               sales = [\<lparr>sale_medicine = ''Insulin'', sale_quantity = 3, sale_total = 15, sale_date = 0\<rparr>]\<rparr>,
      loggers = [(pending_log ''Insulin'' 3 0)\<lparr>lt_pc := LDone\<rparr>],
      adders = [(pending_product ''Aspirin'' 5 2 50)\<lparr>ad_pc := AAdded\<rparr>]\<rparr>"
proof -
  define p where "p = \<lparr>med_name = ''Insulin'', med_stock = 10, med_price = 5, med_expiry = (100::date)\<rparr>"
  define p7 where "p7 = \<lparr>med_name = ''Insulin'', med_stock = 7, med_price = 5, med_expiry = (100::date)\<rparr>"
  define q where "q = \<lparr>med_name = ''Aspirin'', med_stock = 5, med_price = 2, med_expiry = (50::date)\<rparr>"
  define x where "x = \<lparr>sale_medicine = ''Insulin'', sale_quantity = 3, sale_total = 15, sale_date = (0::date)\<rparr>"
  let ?t = "pending_log ''Insulin'' 3 0" and ?a = "pending_product ''Aspirin'' 5 2 50"
  let ?C = "?a\<lparr>ad_pc := ACopied [p]\<rparr>" and ?D = "?t\<lparr>lt_pc := LDone\<rparr>"
  have sh: "ten_in_stock = \<lparr>products = [p], sales = []\<rparr>"
    by (simp add: ten_in_stock_def add_product_def medico_init_def p_def)
  have tf: "lt_medicine ?t = ''Insulin''" "lt_quantity ?t = 3" "lt_day ?t = 0" "lt_pc ?t = LIdle"
    by (simp_all add: pending_log_def)
  have rd: "sale_read \<lparr>products = [p], sales = []\<rparr> ''Insulin'' 3 = Approved p"
    by (simp add: sale_read_def p_def)
  have row: "new_sale_row ''Insulin'' 3 0 p = x" by (simp add: new_sale_row_def p_def x_def)
  have d: "sale_decrement \<lparr>products = [p], sales = [x]\<rparr> ''Insulin'' 3 = \<lparr>products = [p7], sales = [x]\<rparr>"
    by (simp add: sale_decrement_def p_def p7_def)
  have w: "product_table_write \<lparr>products = [p7], sales = [x]\<rparr> [p]
             (new_product_row (ad_medicine ?C) (ad_stock ?C) (ad_price ?C) (ad_expiry ?C)) =
           \<lparr>products = [p, q], sales = [x]\<rparr>"
    by (simp add: product_table_write_def new_product_row_def pending_product_def q_def)
  have s1: "shop_step \<lparr>store = \<lparr>products = [p], sales = []\<rparr>, loggers = [?t], adders = [?a]\<rparr>
                      \<lparr>store = \<lparr>products = [p], sales = []\<rparr>, loggers = [?t], adders = [?C]\<rparr>"
    using shop_step_copy_at [where i = 0 and as = "[?a]" and s = "\<lparr>products = [p], sales = []\<rparr>" and ts = "[?t]"]
    by (simp add: pending_product_def)
  have l2: "log_step \<lparr>store = \<lparr>products = [p], sales = []\<rparr>, loggers = [?t]\<rparr>
                     \<lparr>store = \<lparr>products = [p], sales = []\<rparr>, loggers = [?t\<lparr>lt_pc := LApproved p\<rparr>]\<rparr>"
    by (rule log_step_check_at [where i = 0]) (simp_all add: tf rd)
  have l3: "log_step \<lparr>store = \<lparr>products = [p], sales = []\<rparr>, loggers = [?t\<lparr>lt_pc := LApproved p\<rparr>]\<rparr>
                     \<lparr>store = \<lparr>products = [p], sales = []\<rparr>, loggers = [?t\<lparr>lt_pc := LSnapshot p []\<rparr>]\<rparr>"
    by (rule log_step_snapshot_at [where i = 0 and p = p]) simp_all
  have l4: "log_step \<lparr>store = \<lparr>products = [p], sales = []\<rparr>, loggers = [?t\<lparr>lt_pc := LSnapshot p []\<rparr>]\<rparr>
                     \<lparr>store = \<lparr>products = [p], sales = [x]\<rparr>, loggers = [?t\<lparr>lt_pc := LLogged p\<rparr>]\<rparr>"
    by (rule log_step_append_at [where i = 0 and p = p and snap = "[]"])
       (simp_all add: tf row sale_log_write_def)
  have l5: "log_step \<lparr>store = \<lparr>products = [p], sales = [x]\<rparr>, loggers = [?t\<lparr>lt_pc := LLogged p\<rparr>]\<rparr>
                     \<lparr>store = \<lparr>products = [p7], sales = [x]\<rparr>, loggers = [?D]\<rparr>"
    by (rule log_step_decrement_at [where i = 0 and p = p]) (simp_all add: tf d)
  have s6: "shop_step \<lparr>store = \<lparr>products = [p7], sales = [x]\<rparr>, loggers = [?D], adders = [?C]\<rparr>
                      \<lparr>store = \<lparr>products = [p, q], sales = [x]\<rparr>, loggers = [?D],
                       adders = [?a\<lparr>ad_pc := AAdded\<rparr>]\<rparr>"
    using shop_step_assign_at [where i = 0 and as = "[?C]" and snap = "[p]"
            and s = "\<lparr>products = [p7], sales = [x]\<rparr>" and ts = "[?D]"] w
    by simp
  have "shop_step\<^sup>*\<^sup>* \<lparr>store = ten_in_stock, loggers = [?t], adders = [?a]\<rparr>
      \<lparr>store = \<lparr>products = [p, q], sales = [x]\<rparr>, loggers = [?D], adders = [?a\<lparr>ad_pc := AAdded\<rparr>]\<rparr>"
    unfolding sh
    using s1 l2 [THEN shop_step_sale_at] l3 [THEN shop_step_sale_at] l4 [THEN shop_step_sale_at]
          l5 [THEN shop_step_sale_at] s6
    by (meson rtranclp.rtrancl_into_rtrancl rtranclp.rtrancl_refl)
  then show ?thesis by (simp add: p_def q_def x_def)
qed

text \<open>C15: MediMate's Add Product and Add Sale race on the product table.  Add Product assigns a copy of the table plus its new row back (line 80), so an Add Product session that copies the table before a concurrent sale decrements the stock, and assigns after it, writes the old stock back: the sale of 3 of 10 Insulin is logged but the stock is 10 again, and stock plus units sold for Insulin is 13 where it was 10.\<close>

theorem add_product_undoes_sale:
  "\<exists>c. shop_step\<^sup>*\<^sup>* \<lparr>store = ten_in_stock, loggers = [pending_log ''Insulin'' 3 0],
                          adders = [pending_product ''Aspirin'' 5 2 50]\<rparr> c \<and>
       map lt_pc (loggers c) = [LDone] \<and> map ad_pc (adders c) = [AAdded] \<and>
       map med_name (products (store c)) = [''Insulin'', ''Aspirin''] \<and>
       map med_stock (products (store c)) = [10, 5] \<and> length (sales (store c)) = 1 \<and>
       stock_on_hand (products (store c)) ''Insulin'' + units_sold (sales (store c)) ''Insulin'' = 13 \<and>
       stock_on_hand (products ten_in_stock) ''Insulin'' + units_sold (sales ten_in_stock) ''Insulin'' = 10"
  using decrement_undone_run
  by (intro exI conjI, assumption)
     (simp_all add: ten_in_stock_def add_product_def medico_init_def stock_on_hand_def units_sold_def
                    pending_log_def pending_product_def)

end
