(* ===== verification/ShopLock.thy ===== *)
theory ShopLock
  imports LogLock CatalogRaces
begin

text \<open>
  One lock for all of MediMate's writers, as the spec (section 5) asks: under
  \<open>locked_shop_step\<close> an Add Product session may copy the product table (line 80 of
  \<open>src/medico.py\<close>) only while no session holds the lock, and a sale runs its statements
  under the lock of \<open>LogLock\<close> only while no Add Product session is between its copy and
  its assignment.  \<open>added_units\<close> counts the stock brought in by completed Add Product
  sessions; \<open>pending_names\<close> are the names of the sessions still to add their row, which
  must be fresh.  The invariant \<open>shop_lock_inv\<close> extends \<open>log_lock_inv\<close> with a current
  copy for the Add Product lock holder, a single holder over both kinds of session, and
  distinct names over the table and the pending products.
\<close>

fun add_busy :: "add_pc \<Rightarrow> bool" where
  "add_busy (ACopied snap) = True"
| "add_busy AIdle = False"
| "add_busy AAdded = False"

fun add_done :: "add_pc \<Rightarrow> bool" where
  "add_done AAdded = True"
| "add_done AIdle = False"
| "add_done (ACopied snap) = False"

inductive locked_shop_step :: "shop_state \<Rightarrow> shop_state \<Rightarrow> bool" where
  lshop_sale: "locked_log_step \<lparr>store = store c, loggers = loggers c\<rparr> \<lparr>store = s', loggers = ts'\<rparr> \<Longrightarrow>
     list_all (\<lambda>a. \<not> add_busy (ad_pc a)) (adders c) \<Longrightarrow>
     locked_shop_step c (c\<lparr>store := s', loggers := ts'\<rparr>)"
| lshop_copy: "list_all (\<lambda>t. \<not> log_busy (lt_pc t)) (loggers c) \<Longrightarrow>
     list_all (\<lambda>a. \<not> add_busy (ad_pc a)) (adders c) \<Longrightarrow>
     i < length (adders c) \<Longrightarrow> ad_pc (adders c ! i) = AIdle \<Longrightarrow>
     locked_shop_step c (c\<lparr>adders := (adders c)[i := (adders c ! i)\<lparr>ad_pc := ACopied (products (store c))\<rparr>]\<rparr>)"
| lshop_assign: "i < length (adders c) \<Longrightarrow> ad_pc (adders c ! i) = ACopied snap \<Longrightarrow>
     locked_shop_step c (c\<lparr>store := product_table_write (store c) snap
                     (new_product_row (ad_medicine (adders c ! i)) (ad_stock (adders c ! i))
                        (ad_price (adders c ! i)) (ad_expiry (adders c ! i))),
                   adders := (adders c)[i := (adders c ! i)\<lparr>ad_pc := AAdded\<rparr>]\<rparr>)"

definition added_units :: "product_thread list \<Rightarrow> string \<Rightarrow> int" where
  "added_units as n = sum_where (\<lambda>a. add_done (ad_pc a) \<and> ad_medicine a = n) ad_stock as"

definition pending_names :: "product_thread list \<Rightarrow> string list" where
  "pending_names as = map ad_medicine (filter (\<lambda>a. \<not> add_done (ad_pc a)) as)"

definition adder_ok :: "medicine list \<Rightarrow> product_thread \<Rightarrow> bool" where
  "adder_ok ps a \<longleftrightarrow> (case ad_pc a of ACopied snap \<Rightarrow> snap = ps | _ \<Rightarrow> True)"

definition shop_lock_inv :: "shop_state \<Rightarrow> bool" where
  "shop_lock_inv c \<longleftrightarrow>
     log_lock_inv \<lparr>store = store c, loggers = loggers c\<rparr> \<and>
     list_all (adder_ok (products (store c))) (adders c) \<and>
     at_most_one (\<lambda>a. add_busy (ad_pc a)) (adders c) \<and>
     (list_all (\<lambda>a. \<not> add_busy (ad_pc a)) (adders c) \<or> list_all (\<lambda>t. \<not> log_busy (lt_pc t)) (loggers c)) \<and>
     distinct (map med_name (products (store c)) @ pending_names (adders c))"

section \<open>Lemmas\<close>

lemma pending_names_update_same:
  "i < length as \<Longrightarrow> ad_medicine a = ad_medicine (as ! i) \<Longrightarrow> add_done (ad_pc a) = add_done (ad_pc (as ! i)) \<Longrightarrow>
   pending_names (as[i := a]) = pending_names as"
proof (induction as arbitrary: i)
  case Nil
  then show ?case by simp
next
  case (Cons b as)
  then show ?case by (cases i) (simp_all add: pending_names_def)
qed

lemma pending_names_update_done:
  "i < length as \<Longrightarrow> \<not> add_done (ad_pc (as ! i)) \<Longrightarrow> add_done (ad_pc a) \<Longrightarrow>
   mset (pending_names (as[i := a])) + {#ad_medicine (as ! i)#} = mset (pending_names as)"
proof (induction as arbitrary: i)
  case Nil
  then show ?case by simp
next
  case (Cons b as)
  then show ?case by (cases i) (simp_all add: pending_names_def)
qed

lemma adder_ok_idle: "\<not> add_busy (ad_pc a) \<Longrightarrow> adder_ok ps a"
  by (cases "ad_pc a") (simp_all add: adder_ok_def)

lemma added_units_update:
  "i < length as \<Longrightarrow>
   added_units (as[i := a]) n = added_units as n
     - (if add_done (ad_pc (as ! i)) \<and> ad_medicine (as ! i) = n then ad_stock (as ! i) else 0)
     + (if add_done (ad_pc a) \<and> ad_medicine a = n then ad_stock a else 0)"
  by (simp add: added_units_def sum_where_list_update)

lemma stock_on_hand_table_write:
  "stock_on_hand (products (product_table_write s (products s) r)) n =
   stock_on_hand (products s) n + (if med_name r = n then med_stock r else 0)"
  by (simp add: product_table_write_def stock_on_hand_def)

lemma adders_ok_idle: "list_all (\<lambda>a. \<not> add_busy (ad_pc a)) as \<Longrightarrow> list_all (adder_ok ps) as"
  by (auto simp: list_all_iff adder_ok_idle)

lemma holders_idle: "list_all (\<lambda>t. \<not> log_busy (lt_pc t)) ts \<Longrightarrow> list_all (holder_ok ns sl) ts"
  by (auto simp: list_all_iff holder_ok_idle)

lemma sales_product_table_write [simp]: "sales (product_table_write s snap r) = sales s"
  by (simp add: product_table_write_def)

lemma locked_shop_step_inv:
  assumes "locked_shop_step c c'" and "shop_lock_inv c"
  shows "shop_lock_inv c' \<and>
         stock_on_hand (products (store c')) n + units_sold (sales (store c')) n
           - logged_units (loggers c') n - added_units (adders c') n =
         stock_on_hand (products (store c)) n + units_sold (sales (store c)) n
           - logged_units (loggers c) n - added_units (adders c) n"
  using assms
proof (induction rule: locked_shop_step.induct)
  case (lshop_sale c s' ts')
  let ?L = "\<lparr>store = store c, loggers = loggers c\<rparr>"
  from lshop_sale.prems have inv: "log_lock_inv ?L"
    and dist: "distinct (map med_name (products (store c)) @ pending_names (adders c))"
    by (simp_all add: shop_lock_inv_def)
  then have "distinct (map med_name (products (store ?L)))" by simp
  note step = locked_log_step_inv [OF lshop_sale.hyps(1) inv this, of n, simplified log_state.simps]
  note li = step [THEN conjunct1]
    and names = step [THEN conjunct2, THEN conjunct1]
    and law = step [THEN conjunct2, THEN conjunct2]
  have ad: "list_all (adder_ok (products s')) (adders c)"
    using lshop_sale.hyps(2) by (rule adders_ok_idle)
  have "shop_lock_inv (c\<lparr>store := s', loggers := ts'\<rparr>)"
    unfolding shop_lock_inv_def
    using li ad lshop_sale.hyps(2) dist names lshop_sale.prems
    by (simp only: shop_state.simps log_state.simps shop_lock_inv_def) simp
  then show ?case using law by simp
next
  case (lshop_copy c i)
  let ?a = "(adders c ! i)\<lparr>ad_pc := ACopied (products (store c))\<rparr>"
  have "list_all (adder_ok (products (store c))) ((adders c)[i := ?a])"
    using lshop_copy.hyps(2) by (simp add: list_all_list_update_keep adders_ok_idle adder_ok_def)
  moreover have "at_most_one (\<lambda>a. add_busy (ad_pc a)) ((adders c)[i := ?a])"
    using lshop_copy.hyps(2) by (rule at_most_one_update_from_none)
  moreover have "pending_names ((adders c)[i := ?a]) = pending_names (adders c)"
    using lshop_copy.hyps(3,4) by (simp add: pending_names_update_same)
  moreover have "added_units ((adders c)[i := ?a]) n = added_units (adders c) n"
    using lshop_copy.hyps(3,4) by (simp add: added_units_update)
  ultimately show ?case using lshop_copy.prems lshop_copy.hyps(1)
    by (simp add: shop_lock_inv_def)
next
  case (lshop_assign i c snap)
  let ?b = "adders c ! i"
  let ?a = "?b\<lparr>ad_pc := AAdded\<rparr>"
  let ?r = "new_product_row (ad_medicine ?b) (ad_stock ?b) (ad_price ?b) (ad_expiry ?b)"
  from lshop_assign.prems have inv: "shop_lock_inv c" .
  from inv have "list_all (adder_ok (products (store c))) (adders c)"
    by (simp add: shop_lock_inv_def)
  with lshop_assign.hyps(1) have "adder_ok (products (store c)) ?b"
    by (simp add: list_all_length)
  with lshop_assign.hyps(2) have snap: "snap = products (store c)"
    by (simp add: adder_ok_def)
  from lshop_assign.hyps have "\<not> list_all (\<lambda>a. \<not> add_busy (ad_pc a)) (adders c)"
    by (auto simp: list_all_length)
  with inv have idle: "list_all (\<lambda>t. \<not> log_busy (lt_pc t)) (loggers c)"
    by (simp add: shop_lock_inv_def)
  from inv lshop_assign.hyps have free: "list_all (\<lambda>a. \<not> add_busy (ad_pc a)) ((adders c)[i := ?a])"
    by (intro at_most_one_release) (simp_all add: shop_lock_inv_def)
  have ms: "mset (pending_names ((adders c)[i := ?a])) + {#ad_medicine ?b#} = mset (pending_names (adders c))"
    using pending_names_update_done [of i "adders c" ?a] lshop_assign.hyps by simp
  have M: "mset ((map med_name (products (store c)) @ [ad_medicine ?b]) @ pending_names ((adders c)[i := ?a])) =
        mset (map med_name (products (store c)) @ pending_names (adders c))"
    using ms by (simp add: add.commute add.left_commute)
  from inv have D0: "distinct (map med_name (products (store c)) @ pending_names (adders c))"
    by (simp add: shop_lock_inv_def)
  have D: "distinct ((map med_name (products (store c)) @ [ad_medicine ?b]) @ pending_names ((adders c)[i := ?a]))"
    by (rule iffD2 [OF mset_eq_imp_distinct_iff [OF M] D0])
  have "added_units ((adders c)[i := ?a]) n =
      added_units (adders c) n + (if ad_medicine ?b = n then ad_stock ?b else 0)"
    using lshop_assign.hyps by (simp add: added_units_update)
  note D
  moreover have W: "map med_name (products (product_table_write (store c) snap ?r)) =
      map med_name (products (store c)) @ [ad_medicine ?b]"
    by (simp add: snap product_table_write_def new_product_row_def)
  moreover have "log_lock_inv \<lparr>store = product_table_write (store c) snap ?r, loggers = loggers c\<rparr>"
    using idle by (simp add: log_lock_inv_def holders_idle at_most_one_none)
  ultimately have "shop_lock_inv (c\<lparr>store := product_table_write (store c) snap ?r, adders := (adders c)[i := ?a]\<rparr>)"
    using free unfolding shop_lock_inv_def by (simp add: at_most_one_none adders_ok_idle)
  moreover have "stock_on_hand (products (product_table_write (store c) snap ?r)) n =
      stock_on_hand (products (store c)) n + (if ad_medicine ?b = n then ad_stock ?b else 0)"
    by (simp add: snap stock_on_hand_table_write new_product_row_def)
  moreover note \<open>added_units ((adders c)[i := ?a]) n =
      added_units (adders c) n + (if ad_medicine ?b = n then ad_stock ?b else 0)\<close>
  ultimately show ?case by simp
qed

lemma idle_shop_lock_inv:
  assumes "list_all (\<lambda>t. lt_pc t = LIdle) (loggers c)" and "list_all (\<lambda>a. ad_pc a = AIdle) (adders c)"
    and "distinct (map med_name (products (store c)) @ map ad_medicine (adders c))"
  shows "shop_lock_inv c \<and> logged_units (loggers c) n = 0 \<and> added_units (adders c) n = 0"
proof -
  from idle_log_lock_inv [OF assms(1)]
  have "log_lock_inv \<lparr>store = store c, loggers = loggers c\<rparr>" and "logged_units (loggers c) n = 0"
    by (simp_all add: log_lock_inv_def)
  moreover have "list_all (\<lambda>a. \<not> add_busy (ad_pc a)) (adders c)"
    using assms(2) by (simp add: list_all_iff)
  moreover have "pending_names (adders c) = map ad_medicine (adders c)"
    using assms(2) by (simp add: pending_names_def list_all_iff)
  moreover have "added_units (adders c) n = 0"
    using assms(2) by (simp add: added_units_def sum_where_def list_all_iff)
  ultimately show ?thesis using assms(3)
    by (simp add: shop_lock_inv_def adders_ok_idle at_most_one_none)
qed

lemma locked_shop_step_sale_at:
  "locked_log_step \<lparr>store = s, loggers = ts\<rparr> \<lparr>store = s', loggers = ts'\<rparr> \<Longrightarrow>
   list_all (\<lambda>a. \<not> add_busy (ad_pc a)) as \<Longrightarrow>
   locked_shop_step \<lparr>store = s, loggers = ts, adders = as\<rparr> \<lparr>store = s', loggers = ts', adders = as\<rparr>"
  using locked_shop_step.lshop_sale [of "\<lparr>store = s, loggers = ts, adders = as\<rparr>" s' ts'] by simp

lemma locked_shop_step_copy_at:
  "list_all (\<lambda>t. \<not> log_busy (lt_pc t)) ts \<Longrightarrow> list_all (\<lambda>a. \<not> add_busy (ad_pc a)) as \<Longrightarrow>
   i < length as \<Longrightarrow> ad_pc (as ! i) = AIdle \<Longrightarrow>
   locked_shop_step \<lparr>store = s, loggers = ts, adders = as\<rparr>
             \<lparr>store = s, loggers = ts, adders = as[i := (as ! i)\<lparr>ad_pc := ACopied (products s)\<rparr>]\<rparr>"
  using locked_shop_step.lshop_copy [of "\<lparr>store = s, loggers = ts, adders = as\<rparr>" i] by simp

lemma locked_shop_step_assign_at:
  "i < length as \<Longrightarrow> ad_pc (as ! i) = ACopied snap \<Longrightarrow>
   locked_shop_step \<lparr>store = s, loggers = ts, adders = as\<rparr>
             \<lparr>store = product_table_write s snap
                       (new_product_row (ad_medicine (as ! i)) (ad_stock (as ! i)) (ad_price (as ! i))
                          (ad_expiry (as ! i))),
              loggers = ts, adders = as[i := (as ! i)\<lparr>ad_pc := AAdded\<rparr>]\<rparr>"
  using locked_shop_step.lshop_assign [of i "\<lparr>store = s, loggers = ts, adders = as\<rparr>" snap] by simp

section \<open>Properties\<close>

text \<open>C21: One lock over all of MediMate's writers restores the ledger: if Add Product sessions and Add Sale sessions may only start their critical statements while no other session is inside one, then along every interleaving of their statements, started from idle sessions whose product names are fresh and distinct, the stock on hand of each medicine plus the units its sales rows record equals the starting amount plus the stock brought in by the completed Add Product sessions plus the units of the sales logged but not yet decremented.  Neither the lost row of C11 nor the undone decrement of C15 can happen.\<close>

theorem locked_shop_conserve:
  assumes "locked_shop_step\<^sup>*\<^sup>* c0 c" and "list_all (\<lambda>t. lt_pc t = LIdle) (loggers c0)"
    and "list_all (\<lambda>a. ad_pc a = AIdle) (adders c0)"
    and "distinct (map med_name (products (store c0)) @ map ad_medicine (adders c0))"
  shows "stock_on_hand (products (store c)) n + units_sold (sales (store c)) n =
         stock_on_hand (products (store c0)) n + units_sold (sales (store c0)) n +
         added_units (adders c) n + logged_units (loggers c) n"
proof -
  from idle_shop_lock_inv [OF assms(2-4), of n]
  have inv0: "shop_lock_inv c0" and z: "logged_units (loggers c0) n = 0" "added_units (adders c0) n = 0"
    by simp_all
  have "shop_lock_inv c \<and>
        stock_on_hand (products (store c)) n + units_sold (sales (store c)) n
          - logged_units (loggers c) n - added_units (adders c) n =
        stock_on_hand (products (store c0)) n + units_sold (sales (store c0)) n
          - logged_units (loggers c0) n - added_units (adders c0) n"
    using assms(1)
  proof (induction rule: rtranclp_induct)
    case base
    with inv0 show ?case by simp
  next
    case (step c c')
    then show ?case using locked_shop_step_inv [of c c' n] by simp
  qed
  with z show ?thesis by simp
qed

lemma serialised_shop_run:
  "locked_shop_step\<^sup>*\<^sup>* \<lparr>store = ten_in_stock, loggers = [pending_log ''Insulin'' 3 0],
                            adders = [pending_product ''Aspirin'' 5 2 50]\<rparr>
     \<lparr>store = \<lparr>products = [\<lparr>med_name = ''Insulin'', med_stock = 7, med_price = 5, med_expiry = 100\<rparr>,
                            \<lparr>med_name = ''Aspirin'', med_stock = 5, med_price = 2, med_expiry = 50\<rparr>],
               sales = [\<lparr>sale_medicine = ''Insulin'', sale_quantity = 3, sale_total = 15, sale_date = 0\<rparr>]\<rparr>,
      loggers = [(pending_log ''Insulin'' 3 0)\<lparr>lt_pc := LDone\<rparr>],
      adders = [(pending_product ''Aspirin'' 5 2 50)\<lparr>ad_pc := AAdded\<rparr>]\<rparr>"
proof -
  define p where "p = \<lparr>med_name = ''Insulin'', med_stock = 10, med_price = 5, med_expiry = (100::date)\<rparr>"
  define p7 where "p7 = \<lparr>med_name = ''Insulin'', med_stock = 7, med_price = 5, med_expiry = (100::date)\<rparr>"
  define q where "q = \<lparr>med_name = ''Aspirin'', med_stock = 5, med_price = 2, med_expiry = (50::date)\<rparr>"
  define x where "x = \<lparr>sale_medicine = ''Insulin'', sale_quantity = 3, sale_total = 15, sale_date = (0::date)\<rparr>"
  let ?t = "pending_log ''Insulin'' 3 0" and ?a = "pending_product ''Aspirin'' 5 2 50"
  let ?C = "?a\<lparr>ad_pc := ACopied [p]\<rparr>" and ?F = "?a\<lparr>ad_pc := AAdded\<rparr>"
  have sh: "ten_in_stock = \<lparr>products = [p], sales = []\<rparr>"
    by (simp add: ten_in_stock_def add_product_def medico_init_def p_def)
  have tf: "lt_medicine ?t = ''Insulin''" "lt_quantity ?t = 3" "lt_day ?t = 0" "lt_pc ?t = LIdle"
    by (simp_all add: pending_log_def)
  have free: "list_all (\<lambda>a. \<not> add_busy (ad_pc a)) [?F]" by simp
  have w: "product_table_write \<lparr>products = [p], sales = []\<rparr> [p]
             (new_product_row (ad_medicine ?C) (ad_stock ?C) (ad_price ?C) (ad_expiry ?C)) =
           \<lparr>products = [p, q], sales = []\<rparr>"
    by (simp add: product_table_write_def new_product_row_def pending_product_def q_def)
  have rd: "sale_read \<lparr>products = [p, q], sales = []\<rparr> ''Insulin'' 3 = Approved p"
    by (simp add: sale_read_def p_def q_def)
  have row: "new_sale_row ''Insulin'' 3 0 p = x" by (simp add: new_sale_row_def p_def x_def)
  have d: "sale_decrement \<lparr>products = [p, q], sales = [x]\<rparr> ''Insulin'' 3 = \<lparr>products = [p7, q], sales = [x]\<rparr>"
    by (simp add: sale_decrement_def p_def p7_def q_def)
  have s1: "locked_shop_step \<lparr>store = \<lparr>products = [p], sales = []\<rparr>, loggers = [?t], adders = [?a]\<rparr>
                             \<lparr>store = \<lparr>products = [p], sales = []\<rparr>, loggers = [?t], adders = [?C]\<rparr>"
    using locked_shop_step_copy_at [where i = 0 and as = "[?a]" and s = "\<lparr>products = [p], sales = []\<rparr>" and ts = "[?t]"]
    by (simp add: pending_product_def pending_log_def)
  have s2: "locked_shop_step \<lparr>store = \<lparr>products = [p], sales = []\<rparr>, loggers = [?t], adders = [?C]\<rparr>
                             \<lparr>store = \<lparr>products = [p, q], sales = []\<rparr>, loggers = [?t], adders = [?F]\<rparr>"
    using locked_shop_step_assign_at [where i = 0 and as = "[?C]" and snap = "[p]"
            and s = "\<lparr>products = [p], sales = []\<rparr>" and ts = "[?t]"] w
    by simp
  have l3: "locked_log_step \<lparr>store = \<lparr>products = [p, q], sales = []\<rparr>, loggers = [?t]\<rparr>
                     \<lparr>store = \<lparr>products = [p, q], sales = []\<rparr>, loggers = [?t\<lparr>lt_pc := LApproved p\<rparr>]\<rparr>"
    by (rule locked_log_step_check_at [where i = 0]) (simp_all add: tf rd)
  have l4: "locked_log_step \<lparr>store = \<lparr>products = [p, q], sales = []\<rparr>, loggers = [?t\<lparr>lt_pc := LApproved p\<rparr>]\<rparr>
                     \<lparr>store = \<lparr>products = [p, q], sales = []\<rparr>, loggers = [?t\<lparr>lt_pc := LSnapshot p []\<rparr>]\<rparr>"
    by (rule locked_log_step_snapshot_at [where i = 0 and p = p]) simp_all
  have l5: "locked_log_step \<lparr>store = \<lparr>products = [p, q], sales = []\<rparr>, loggers = [?t\<lparr>lt_pc := LSnapshot p []\<rparr>]\<rparr>
                     \<lparr>store = \<lparr>products = [p, q], sales = [x]\<rparr>, loggers = [?t\<lparr>lt_pc := LLogged p\<rparr>]\<rparr>"
    by (rule locked_log_step_append_at [where i = 0 and p = p and snap = "[]"])
       (simp_all add: tf row sale_log_write_def)
  have l6: "locked_log_step \<lparr>store = \<lparr>products = [p, q], sales = [x]\<rparr>, loggers = [?t\<lparr>lt_pc := LLogged p\<rparr>]\<rparr>
                     \<lparr>store = \<lparr>products = [p7, q], sales = [x]\<rparr>, loggers = [?t\<lparr>lt_pc := LDone\<rparr>]\<rparr>"
    by (rule locked_log_step_decrement_at [where i = 0 and p = p]) (simp_all add: tf d)
  have "locked_shop_step\<^sup>*\<^sup>* \<lparr>store = ten_in_stock, loggers = [?t], adders = [?a]\<rparr>
      \<lparr>store = \<lparr>products = [p7, q], sales = [x]\<rparr>, loggers = [?t\<lparr>lt_pc := LDone\<rparr>], adders = [?F]\<rparr>"
    unfolding sh
    using s1 s2 locked_shop_step_sale_at [OF l3 free] locked_shop_step_sale_at [OF l4 free]
          locked_shop_step_sale_at [OF l5 free] locked_shop_step_sale_at [OF l6 free]
    by (meson rtranclp.rtrancl_into_rtrancl rtranclp.rtrancl_refl)
  then show ?thesis by (simp add: p7_def q_def x_def)
qed

theorem locked_shop_conserve_witness:
  "locked_shop_step\<^sup>*\<^sup>* \<lparr>store = ten_in_stock, loggers = [pending_log ''Insulin'' 3 0],
                            adders = [pending_product ''Aspirin'' 5 2 50]\<rparr>
     \<lparr>store = \<lparr>products = [\<lparr>med_name = ''Insulin'', med_stock = 7, med_price = 5, med_expiry = 100\<rparr>,
                            \<lparr>med_name = ''Aspirin'', med_stock = 5, med_price = 2, med_expiry = 50\<rparr>],
               sales = [\<lparr>sale_medicine = ''Insulin'', sale_quantity = 3, sale_total = 15, sale_date = 0\<rparr>]\<rparr>,
      loggers = [(pending_log ''Insulin'' 3 0)\<lparr>lt_pc := LDone\<rparr>],
      adders = [(pending_product ''Aspirin'' 5 2 50)\<lparr>ad_pc := AAdded\<rparr>]\<rparr> \<and>
   list_all (\<lambda>t. lt_pc t = LIdle) [pending_log ''Insulin'' 3 0] \<and>
   list_all (\<lambda>a. ad_pc a = AIdle) [pending_product ''Aspirin'' 5 2 50] \<and>
   distinct (map med_name (products ten_in_stock) @ map ad_medicine [pending_product ''Aspirin'' 5 2 50]) \<and>
   stock_on_hand [\<lparr>med_name = ''Insulin'', med_stock = 7, med_price = 5, med_expiry = (100::date)\<rparr>,
                  \<lparr>med_name = ''Aspirin'', med_stock = 5, med_price = 2, med_expiry = (50::date)\<rparr>] ''Aspirin'' +
   units_sold [\<lparr>sale_medicine = ''Insulin'', sale_quantity = 3, sale_total = 15, sale_date = (0::date)\<rparr>] ''Aspirin'' =
   stock_on_hand (products ten_in_stock) ''Aspirin'' + units_sold (sales ten_in_stock) ''Aspirin'' +
   added_units [(pending_product ''Aspirin'' 5 2 50)\<lparr>ad_pc := AAdded\<rparr>] ''Aspirin'' +
   logged_units [(pending_log ''Insulin'' 3 0)\<lparr>lt_pc := LDone\<rparr>] ''Aspirin''"
proof -
  note run = serialised_shop_run
  have idle: "list_all (\<lambda>t. lt_pc t = LIdle) [pending_log ''Insulin'' 3 0]"
    and fresh: "list_all (\<lambda>a. ad_pc a = AIdle) [pending_product ''Aspirin'' 5 2 50]"
    by (simp_all add: pending_log_def pending_product_def)
  have dist: "distinct (map med_name (products ten_in_stock) @ map ad_medicine [pending_product ''Aspirin'' 5 2 50])"
    by (simp add: ten_in_stock_def add_product_def medico_init_def pending_product_def)
  from locked_shop_conserve [OF run, of "''Aspirin''"] idle fresh dist
  have "stock_on_hand [\<lparr>med_name = ''Insulin'', med_stock = 7, med_price = 5, med_expiry = (100::date)\<rparr>,
                  \<lparr>med_name = ''Aspirin'', med_stock = 5, med_price = 2, med_expiry = (50::date)\<rparr>] ''Aspirin'' +
   units_sold [\<lparr>sale_medicine = ''Insulin'', sale_quantity = 3, sale_total = 15, sale_date = (0::date)\<rparr>] ''Aspirin'' =
   stock_on_hand (products ten_in_stock) ''Aspirin'' + units_sold (sales ten_in_stock) ''Aspirin'' +
   added_units [(pending_product ''Aspirin'' 5 2 50)\<lparr>ad_pc := AAdded\<rparr>] ''Aspirin'' +
   logged_units [(pending_log ''Insulin'' 3 0)\<lparr>lt_pc := LDone\<rparr>] ''Aspirin''"
    by simp
  with run idle fresh dist show ?thesis by blast
qed

end
