(* ===== verification/Spec2Isabelle.thy ===== *)
theory Spec2Isabelle
  imports Refinement Pages MedipathLock ShopLock
begin

text \<open>
  \<^bold>\<open>A verification development of the MediMate / Medimate inventory-and-sales tracker.\<close>

  \<^medskip>\<^bold>\<open>The program.\<close>  The repository holds two variants of one Streamlit application.
  Each is a script that runs top to bottom on every user interaction, keeping its tables as
  pandas DataFrames in \<open>st.session_state\<close>, so that they survive from one run to the next.
  \<^item> \<open>src/medico.py\<close> (MediMate): a product table (Medicine, Stock, Price, Expiry Date) and
    a sales table (Medicine, Quantity, Total Price, Date).  Add Product appends a product
    row.  Add Sale looks up the first row of the selected name, rejects the sale when the
    quantity exceeds that row's stock, and otherwise appends a sales row and decrements the
    Stock of every row with that name.  The dashboard shows the total revenue, the units
    sold, the product count and the revenue per date.  The Stock and Expiry page lists the
    products expiring within 30 days and those with at most 10 in stock.
  \<^item> \<open>src/medipath.py\<close> (Medimate): one product table that also has a Total Sales column
    and no sales table.  Record Sale finds the first row of the selected name and, when its
    stock covers the quantity, decrements its Stock and increments its Total Sales.  The
    dashboard plots Total Sales and Stock per product; an Expiry Alerts page lists the
    products expiring within 30 days.
  In the terms of the spec, the product table is the Catalog Store, the sales table of
  MediMate (and the Total Sales column of Medimate) the Sales Ledger, the Stock and Expiry
  pages the Alert Engine, and the dashboard the Report Aggregator.  The forms call into the
  tables; the alert and report views only read them.

  \<^medskip>\<^bold>\<open>The theories.\<close>
  \<^item> \<open>Prelude\<close>: the types (\<open>date\<close> as a day ordinal, \<open>money\<close> as an exact rational) and
    the pandas idioms both apps use, as list functions: \<open>first_index\<close> for
    \<open>df[mask].iloc[0]\<close> and \<open>.index[0]\<close>, \<open>update_where\<close> for \<open>df.loc[mask, col] -= q\<close>,
    \<open>sum_where\<close> for a masked column sum; with the lemmas on them the components share
    (collected in \<open>table_simps\<close>), including that a group-by sum loses no summand.
  \<^item> \<open>Alerts\<close>: the interface of the alert views, the mask selections \<open>due_within\<close> and
    \<open>at_most\<close> over any row type and a column projection, with their lemmas (selection in
    table order, exact membership, inclusive bound).  Both apps instantiate it.
  \<^item> \<open>Medico\<close>: \<open>src/medico.py\<close>.  The record \<open>medico_state\<close> is the session state;
    \<open>add_product\<close> (lines 73-84), \<open>add_sale\<close> (lines 103-132) with its errors
    \<open>medico_error\<close> (the warning when the table is empty, the \<open>IndexError\<close> of \<open>.iloc[0]\<close>,
    and "Not enough stock"), \<open>dashboard_metrics\<close> and \<open>sales_by_date\<close> (lines 37-50),
    \<open>near_expiry\<close> and \<open>low_stock\<close> (lines 145-152).  The widgets' contracts are
    \<open>product_form_ok\<close> and \<open>sale_form_ok\<close>.  A user interaction is a \<open>medico_event\<close>;
    \<open>medico_handle\<close> dispatches it as the sidebar menu does, \<open>medico_rerun\<close> keeps the
    state on a rejected sale, \<open>medico_run\<close> runs a sequence of interactions, and
    \<open>medico_reachable\<close> is the inductive set of states the forms can produce.
  \<^item> \<open>Medipath\<close>: \<open>src/medipath.py\<close>, in the same shape: the state is the product list,
    \<open>save_product\<close> (lines 82-94), \<open>record_sale\<close> (lines 107-126), \<open>dashboard_series\<close>
    (lines 48-58), \<open>expiring_products\<close> (lines 137-142), the events, reruns, runs and
    \<open>medipath_reachable\<close>.
  \<^item> \<open>Ledger\<close>: the spec's ledger core (sections 3 and 4), modelled from the spec since
    the code has no such layer: a catalog with cumulative sales, an append-only sale log
    with ids, \<open>spec_add_product\<close>, \<open>spec_record_sale\<close>, the step function \<open>spec_step\<close>
    (a failed operation changes nothing) and the consistency invariant \<open>ledger_ok\<close>, with
    the proof that every step keeps it.
  \<^item> \<open>Refinement\<close>: abstraction functions from both apps into the ledger
    (\<open>medico_abs\<close>, \<open>medipath_abs\<close>); the product id of a MediMate sale is the position of
    the first row of its name, the code's identity scheme.
  \<^item> \<open>Sessions\<close>: MediMate's Add Sale as its two phases (\<open>sale_read\<close>: lines 103-109,
    snapshot and check; \<open>sale_write\<close>: lines 110-130, append and decrement) and
    \<open>conc_step\<close>, an inductive step relation interleaving pending sales on a shared table,
    for the spec's concurrent deployment (section 5); \<open>locked_step\<close> is the same relation
    under a lock discipline (a sale may take its snapshot only while no other sale holds an
    approved one), the serialisation the spec asks for.
  \<^item> \<open>MedipathSessions\<close>: Medimate's Record Sale as its three statements on the table
    (\<open>record_read\<close>: lines 117-121, the index and the stock check; \<open>record_take_stock\<close>:
    line 122; \<open>record_add_total\<close>: line 123) and \<open>table_step\<close>, which interleaves them for
    several sales on one shared table.
  \<^item> \<open>MedipathLock\<close>: \<open>locked_table_step\<close>, the same interleaving under a lock (a sale runs
    its check only while no other sale is between its check and its last update) and its
    invariant \<open>table_lock_inv\<close>.
  \<^item> \<open>SalesLogRaces\<close>: MediMate's write phase at the granularity of the code's statements:
    \<open>new_sale_row\<close> (lines 111-119), \<open>sale_log_write\<close> (the assignment of the concatenated
    copy, lines 121-124, whose copy a session may take before another session appends) and
    \<open>sale_decrement\<close> (lines 126-130), interleaved by \<open>log_step\<close>; run back to back they are
    \<open>sale_write\<close> (\<open>sale_write_four_statements\<close>).
  \<^item> \<open>LogLock\<close>: \<open>locked_log_step\<close>, the statement-level model under the spec's lock (a
    session runs its check only while no other session is between its check and its
    decrement), the invariant \<open>log_lock_inv\<close> (the lock holder names a row and holds a
    current copy of the sales table; \<open>at_most_one\<close> holder) and \<open>logged_units\<close>, the units
    logged but not yet taken from stock.
  \<^item> \<open>CatalogRaces\<close>: MediMate's Add Product at the granularity of its statements
    (\<open>new_product_row\<close>, lines 73-78; \<open>product_table_write\<close>, the assignment of the
    concatenated copy at line 80), \<open>shop_state\<close> (the sales sessions' state extended with
    Add Product sessions) and \<open>shop_step\<close>, which interleaves both handlers' statements;
    run back to back the two statements are \<open>add_product\<close>
    (\<open>add_product_two_statements\<close>).
  \<^item> \<open>ShopLock\<close>: \<open>locked_shop_step\<close>, both handlers' statements under one lock (an
    Add Product session copies the table only while no session holds the lock, and sale
    statements run only while no Add Product session holds a copy), the invariant
    \<open>shop_lock_inv\<close> (current copies, a single holder over both kinds of session, distinct
    names over the table and the pending products), \<open>added_units\<close> and \<open>pending_names\<close>.
  \<^item> \<open>Pages\<close>: what each page shows as a function of the state, both apps: MediMate's
    dashboard (\<open>medico_dashboard\<close>, lines 34-59), Add Sale page (\<open>add_sale_page\<close>, lines
    87-101) and Stock and Expiry page (\<open>stock_expiry_page\<close>, lines 135-162), dispatched by
    \<open>medico_render\<close>; Medimate's pie dashboard (\<open>medipath_dashboard\<close>, lines 37-66), Sales
    Entry page (\<open>sales_entry_page\<close>, lines 104-114) and Expiry Alerts page
    (\<open>expiry_alerts_page\<close>, lines 131-148), dispatched by \<open>medipath_render\<close>.

  \<^medskip>\<^bold>\<open>What is proved.\<close>
  \<^item> Stock safety.  MediMate keeps every stock non-negative as long as product names are
    unique (\<open>medico_unique_names_stock_nonneg\<close>, by rule induction over
    \<open>medico_reachable\<close>), but not otherwise: a concrete run of three interactions leaves a
    row at -3 (\<open>medico_duplicate_names_negative_stock\<close>), because the check reads the first
    row of a name and the decrement hits every row of it.  Medimate keeps Stock and Total
    Sales non-negative in every reachable state, duplicates included
    (\<open>medipath_stock_nonneg\<close>).
  \<^item> Ledger consistency.  In MediMate, with unique names, stock on hand plus units in the
    sales table equals units brought in by Add Product, for every name and every run
    (\<open>medico_ledger_consistent\<close>).  In Medimate, Stock plus Total Sales of every row equals
    the stock the row was saved with (\<open>medipath_stock_conservation\<close>), so Total Sales is
    exactly what was sold from the row.
  \<^item> Functional behaviour and errors of each handler on every branch
    (\<open>add_sale_success\<close>, \<open>add_sale_error_cases\<close>, \<open>record_sale_success\<close>,
    \<open>record_sale_error_cases\<close>), and that a later row with a duplicate name is never sold
    from in Medimate (\<open>medipath_duplicate_row_never_sold\<close>).  Round trips: a product added
    under a fresh name and then sold is found and decremented as the new last row, in both
    apps (\<open>add_then_sell\<close>, \<open>save_then_sell\<close>).
  \<^item> Pages: the sales table is append-only, so the Daily Sales Report once shown stays, with
    its dates (\<open>sales_report_persists\<close>); the empty-table branches of both apps appear
    exactly while no product was added (\<open>empty_pages_iff_no_products\<close>); until the first
    sale Medimate's Total Sales pie is all zero (\<open>sales_pie_all_zero_before_first_sale\<close>).
  \<^item> Refinement: with unique names every MediMate rerun is simulated by one spec step
    (\<open>medico_simulates_spec\<close>); Medimate's Record Sale refines the catalog half of
    RecordSale (\<open>medipath_refines_catalog_sale\<close>), and every Medimate run with non-empty
    names is the catalog of the spec ledger after the corresponding operations
    (\<open>medipath_simulates_spec_catalog\<close>, through \<open>catalog_step\<close>, the catalog projection of
    \<open>spec_step\<close>).  Adding an empty name is the one form submission the spec rejects and
    both apps accept.
  \<^item> Concurrency, MediMate.  Two interleaved sales of 6 against stock 10 both pass the stale
    check and leave stock -2 (\<open>interleaved_sales_oversell\<close>); the check is sound for a fresh
    snapshot: in every interleaving from idle sales, a write whose snapshot row is still in
    the table keeps all stock non-negative on a table with unique names
    (\<open>fresh_write_keeps_stock\<close>, by rule induction over \<open>conc_step\<close> with the invariant
    \<open>approved_ok\<close>).  Under the lock discipline stock stays non-negative and names unique in
    every reachable shared state (\<open>locked_sales_keep_stock\<close>).  At the granularity of the
    statements the sales log races: two sales of 3 against stock 10 (no oversell) can both
    copy the empty sales table before either appends, so one row is lost while both
    decrements apply and the ledger sum drops to 7 (\<open>interleaved_sales_lose_a_row\<close>); and
    Add Product's stale copy of the product table, assigned after a concurrent decrement,
    restores the old stock while the sale stays logged, so the sum rises from 10 to 13
    (\<open>add_product_undoes_sale\<close>).  One lock over both handlers' statements restores the
    ledger for the composition: along every interleaving from idle sessions with fresh
    distinct product names, stock plus units sold per name is the start plus the stock of the
    completed Add Products plus the units logged but not yet decremented
    (\<open>locked_shop_conserve\<close>).
  \<^item> Concurrency, Medimate.  Record Sale's check and updates race the same way, to Stock -2
    and Total Sales 12 (\<open>medipath_interleaved_oversell\<close>); under the lock the counts stay
    non-negative, duplicate names included (\<open>locked_record_sales_keep_stock\<close>).
  \<^item> The spec's Paracetamol scenario, evaluated on both apps
    (\<open>medico_paracetamol_scenario\<close>, \<open>medipath_paracetamol_scenario\<close>).
  Every theorem with a hypothesis has a witness that applies it to a concrete table.

  \<^medskip>\<^bold>\<open>Modelling choices.\<close>  There are no loops in the source besides the pandas column
  operations, which are structural recursion on lists, so no fuel and no termination
  argument is needed.  Python integers are unbounded and modelled as \<open>int\<close>; Stock is
  \<open>int\<close> and not \<open>nat\<close> because MediMate can drive it negative.  Float prices are modelled
  as rationals, so rounding is not modelled; no theorem here depends on how float sums
  regroup (the Total Sales metric and the per-date report can differ in the last bits, a
  finding of the manifest).  The widgets' bounds are hypotheses of the reachable-state
  relations, not checks of the handlers, since the handlers never see other inputs.
  Granularity of the concurrent models: \<open>conc_step\<close> takes the whole write phase (lines
  110-130) as one step and \<open>table_step\<close> each \<open>.at[idx, col] -= q\<close> as one step; the
  results about them are the races they exhibit (which only get worse at a finer grain) and
  the lock invariants (which do not depend on the grain, since under the lock only the
  holder writes).  The statement-level models \<open>log_step\<close> and \<open>shop_step\<close> split every
  copy-and-assign of a table; a \<open>.loc\<close> decrement remains one step.

  \<^medskip>\<^bold>\<open>Not modelled.\<close>  Page config, titles, captions, dividers, column layout,
  message texts, metric formatting and the drawing of the matplotlib charts (presentation);
  \<open>Pages\<close> models every branch of the pages and the data they hand to the widgets.  The
  spec's operations that the code does not have (UpdateProduct, GetProduct, stable ids,
  sale ids, configurable thresholds) are recorded as divergences in the manifest, which is
  why the ledger component is only partly refined.  The source lines no definition maps are
  the imports, \<open>st.set_page_config\<close>, the titles and captions, the sidebar title and the
  footer of both scripts: calls that draw text and change no state, so there is nothing
  further of the program to model faithfully.
\<close>

end
